(* ===== verification/Prelude.thy ===== *)
theory Prelude
  imports Main "HOL-Library.Word" "HOL-Library.Sublist"
begin

text \<open>
  Shared vocabulary of the development: the fallible, state-passing actions that the Rust
  functions (\<open>async fn ... -> Result<T, E>\<close>) are translated to, the combinators that
  stand for \<open>?\<close>, \<open>.map_err(..)\<close> and \<open>match res { .. }\<close>, two-state effect relations with their
  closure under those combinators, and generic facts about keyed lists (database tables),
  strings and bit lists.
\<close>

named_theorems act_simps \<open>how the action combinators run\<close>
named_theorems table_simps \<open>lookups in keyed lists after insertions and updates\<close>

unbundle bit_operations_syntax

section \<open>Rust integers, bytes and strings\<close>

type_synonym u8 = "8 word"
type_synonym i32 = "32 word"
type_synonym u64 = "64 word"
type_synonym usize = "64 word"
type_synonym i64 = "64 word"
type_synonym bytes = "u8 list"

text \<open>
  A Rust \<open>String\<close> is its UTF-8 bytes (\<open>string\<close> is a list of 8-bit characters). A character of
  the string is a byte that is not a UTF-8 continuation byte \<open>0b10xxxxxx\<close>.
\<close>

definition is_continuation :: "char \<Rightarrow> bool" where
  "is_continuation c \<longleftrightarrow> (of_char c :: nat) div 64 = 2"

definition char_count :: "string \<Rightarrow> nat" where
  "char_count s = length (filter (\<lambda>c. \<not> is_continuation c) s)"

text \<open>The first \<open>n\<close> characters of a UTF-8 string and the rest.\<close>

fun split_chars :: "nat \<Rightarrow> string \<Rightarrow> string \<times> string" where
  "split_chars n [] = ([], [])"
| "split_chars n (c # cs) =
     (if is_continuation c then (let (a, b) = split_chars n cs in (c # a, b))
      else case n of
        0 \<Rightarrow> ([], c # cs)
      | Suc m \<Rightarrow> (let (a, b) = split_chars m cs in (c # a, b)))"

lemma split_chars_append: "split_chars n s = (a, b) \<Longrightarrow> a @ b = s"
  by (induction n s arbitrary: a b rule: split_chars.induct)
    (auto split: if_splits nat.splits prod.splits)

text \<open>\<open>str::contains\<close> for a string needle.\<close>

fun contains :: "string \<Rightarrow> string \<Rightarrow> bool" where
  "contains [] needle = (needle = [])"
| "contains (c # cs) needle = (prefix needle (c # cs) \<or> contains cs needle)"

lemma contains_iff_sublist: "contains s needle \<longleftrightarrow> sublist needle s"
  by (induction s) (auto simp: sublist_Cons_right)

text \<open>\<open>str::strip_prefix\<close>.\<close>

fun strip_prefix :: "string \<Rightarrow> string \<Rightarrow> string option" where
  "strip_prefix [] s = Some s"
| "strip_prefix (p # ps) [] = None"
| "strip_prefix (p # ps) (c # cs) = (if p = c then strip_prefix ps cs else None)"

lemma strip_prefix_eq_Some_iff: "strip_prefix p s = Some r \<longleftrightarrow> s = p @ r"
  by (induction p s rule: strip_prefix.induct) auto

lemma strip_prefix_append [simp]: "strip_prefix p (p @ r) = Some r"
  by (simp add: strip_prefix_eq_Some_iff)

lemma strip_prefix_None_iff: "strip_prefix p s = None \<longleftrightarrow> \<not> prefix p s"
  by (induction p s rule: strip_prefix.induct) auto

section \<open>Results and state-passing actions\<close>

text \<open>
  \<open>Result<T, E>\<close> is \<open>'e + 'a\<close>: \<open>Inl\<close> is \<open>Err\<close>, \<open>Inr\<close> is \<open>Ok\<close>. An \<open>async\<close> function that reads
  and changes the outside world takes the world and returns its result and the next world.
\<close>

type_synonym ('w, 'e, 'a) act = "'w \<Rightarrow> ('e + 'a) \<times> 'w"

definition ok :: "'a \<Rightarrow> ('w, 'e, 'a) act" where
  "ok x = (\<lambda>w. (Inr x, w))"

definition err :: "'e \<Rightarrow> ('w, 'e, 'a) act" where
  "err e = (\<lambda>w. (Inl e, w))"

text \<open>\<open>let x = m?; f(x)\<close>\<close>

definition and_then :: "('w, 'e, 'a) act \<Rightarrow> ('a \<Rightarrow> ('w, 'e, 'b) act) \<Rightarrow> ('w, 'e, 'b) act" where
  "and_then m f = (\<lambda>w. case m w of (Inl e, w') \<Rightarrow> (Inl e, w') | (Inr x, w') \<Rightarrow> f x w')"

text \<open>\<open>m.map_err(g)\<close>\<close>

definition map_err :: "('e \<Rightarrow> 'f) \<Rightarrow> ('w, 'e, 'a) act \<Rightarrow> ('w, 'f, 'a) act" where
  "map_err g m = (\<lambda>w. case m w of (Inl e, w') \<Rightarrow> (Inl (g e), w') | (Inr x, w') \<Rightarrow> (Inr x, w'))"

text \<open>\<open>let res = m;\<close>: the result is kept as a value, no error leaves the function.\<close>

definition attempt :: "('w, 'e, 'a) act \<Rightarrow> ('w, 'f, 'e + 'a) act" where
  "attempt m = (\<lambda>w. case m w of (r, w') \<Rightarrow> (Inr r, w'))"

text \<open>A result that needs no world: \<open>Result\<close> values of pure calls under \<open>?\<close>.\<close>

definition lift_result :: "'e + 'a \<Rightarrow> ('w, 'e, 'a) act" where
  "lift_result r = (\<lambda>w. (r, w))"

text \<open>\<open>opt.ok_or_else(|| e)?\<close>\<close>

definition ok_or :: "'e \<Rightarrow> 'a option \<Rightarrow> ('w, 'e, 'a) act" where
  "ok_or e x = (case x of None \<Rightarrow> err e | Some y \<Rightarrow> ok y)"

lemma ok_run [act_simps]: "ok x w = (Inr x, w)"
  by (simp add: ok_def)

lemma err_run [act_simps]: "err e w = (Inl e, w)"
  by (simp add: err_def)

lemma and_then_run [act_simps]:
  "and_then m f w = (case m w of (Inl e, w') \<Rightarrow> (Inl e, w') | (Inr x, w') \<Rightarrow> f x w')"
  by (simp add: and_then_def)

lemma map_err_run [act_simps]:
  "map_err g m w = (case m w of (Inl e, w') \<Rightarrow> (Inl (g e), w') | (Inr x, w') \<Rightarrow> (Inr x, w'))"
  by (simp add: map_err_def)

lemma attempt_run [act_simps]: "attempt m w = (case m w of (r, w') \<Rightarrow> (Inr r, w'))"
  by (simp add: attempt_def)

lemma lift_result_run [act_simps]: "lift_result r w = (r, w)"
  by (simp add: lift_result_def)

lemma ok_or_run [act_simps]:
  "ok_or e x w = (case x of None \<Rightarrow> (Inl e, w) | Some y \<Rightarrow> (Inr y, w))"
  by (simp add: ok_or_def act_simps split: option.split)

lemma and_then_ok [simp]: "and_then (ok x) f = f x"
  by (simp add: fun_eq_iff act_simps)

lemma and_then_err [simp]: "and_then (err e) f = err e"
  by (simp add: fun_eq_iff act_simps)

lemma and_then_assoc: "and_then (and_then m f) g = and_then m (\<lambda>x. and_then (f x) g)"
  by (simp add: fun_eq_iff act_simps split: prod.split sum.split)

lemma and_then_InrE:
  assumes "and_then m f w = (Inr y, w2)"
  obtains x w1 where "m w = (Inr x, w1)" and "f x w1 = (Inr y, w2)"
  using assms by (auto simp: act_simps split: prod.splits sum.splits)

lemma map_err_InrE:
  assumes "map_err g m w = (Inr y, w2)"
  obtains "m w = (Inr y, w2)"
  using assms by (auto simp: act_simps split: prod.splits sum.splits)

section \<open>Effects: what an action may do to the world\<close>

text \<open>
  \<open>effect R m\<close>: whatever the world, and whether \<open>m\<close> succeeds or fails, the world before and
  the world after are related by \<open>R\<close>. For a reflexive and transitive \<open>R\<close> (a frame condition,
  a monotonicity, the preservation of an invariant) it is closed under the combinators.
\<close>

definition effect :: "('w \<Rightarrow> 'w \<Rightarrow> bool) \<Rightarrow> ('w, 'e, 'a) act \<Rightarrow> bool" where
  "effect R m \<longleftrightarrow> (\<forall>w. R w (snd (m w)))"

lemma effectI: "(\<And>w. R w (snd (m w))) \<Longrightarrow> effect R m"
  by (simp add: effect_def)

lemma effectD: "effect R m \<Longrightarrow> m w = (r, w') \<Longrightarrow> R w w'"
  by (metis effect_def snd_conv)

locale effect_relation =
  fixes R :: "'w \<Rightarrow> 'w \<Rightarrow> bool"
  assumes refl: "R w w"
    and trans: "R u v \<Longrightarrow> R v w \<Longrightarrow> R u w"
begin

lemma effect_ok [intro, simp]: "effect R (ok x)"
  by (simp add: effect_def act_simps refl)

lemma effect_err [intro, simp]: "effect R (err e)"
  by (simp add: effect_def act_simps refl)

lemma effect_lift_result [intro, simp]: "effect R (lift_result r)"
  by (simp add: effect_def act_simps refl)

lemma effect_ok_or [intro, simp]: "effect R (ok_or e x)"
  by (simp add: effect_def act_simps refl split: option.split)

lemma effect_and_then [intro]:
  assumes m: "effect R m" and f: "\<And>x. effect R (f x)"
  shows "effect R (and_then m f)"
proof (rule effectI)
  fix w
  obtain r w1 where run: "m w = (r, w1)" by fastforce
  then have first: "R w w1" using m by (rule effectD [rotated])
  show "R w (snd (and_then m f w))"
  proof (cases r)
    case (Inl e)
    with run first show ?thesis by (simp add: act_simps)
  next
    case (Inr x)
    have "R w1 (snd (f x w1))" using f [of x] by (simp add: effect_def)
    with run first Inr show ?thesis by (auto simp: act_simps intro: trans)
  qed
qed

lemma effect_map_err [intro]: "effect R m \<Longrightarrow> effect R (map_err g m)"
  by (auto simp: effect_def act_simps split: prod.splits sum.splits) (metis snd_conv)+

lemma effect_attempt [intro]: "effect R m \<Longrightarrow> effect R (attempt m)"
  by (auto simp: effect_def act_simps split: prod.splits) (metis snd_conv)

lemma effect_if [intro]:
  "(b \<Longrightarrow> effect R m) \<Longrightarrow> (\<not> b \<Longrightarrow> effect R n) \<Longrightarrow> effect R (if b then m else n)"
  by simp

lemma effect_case_option [intro]:
  "effect R m \<Longrightarrow> (\<And>x. effect R (f x)) \<Longrightarrow> effect R (case z of None \<Rightarrow> m | Some x \<Rightarrow> f x)"
  by (cases z) simp_all

lemma effect_case_sum [intro]:
  "(\<And>x. effect R (f x)) \<Longrightarrow> (\<And>y. effect R (g y)) \<Longrightarrow>
    effect R (case z of Inl x \<Rightarrow> f x | Inr y \<Rightarrow> g y)"
  by (cases z) simp_all

lemmas effect_intros = effect_and_then effect_map_err effect_attempt effect_if
  effect_case_option effect_case_sum effect_ok effect_err effect_lift_result effect_ok_or

end

section \<open>Keyed lists: the tables of the database\<close>

text \<open>
  A table is the list of its rows in insertion order; \<open>key\<close> reads a row's primary key.
\<close>

definition tbl_find :: "('r \<Rightarrow> 'k) \<Rightarrow> 'k \<Rightarrow> 'r list \<Rightarrow> 'r option" where
  "tbl_find key k t = find (\<lambda>r. key r = k) t"

definition tbl_update :: "('r \<Rightarrow> bool) \<Rightarrow> ('r \<Rightarrow> 'r) \<Rightarrow> 'r list \<Rightarrow> 'r list" where
  "tbl_update p f t = map (\<lambda>r. if p r then f r else r) t"

abbreviation keys_distinct :: "('r \<Rightarrow> 'k) \<Rightarrow> 'r list \<Rightarrow> bool" where
  "keys_distinct key t \<equiv> distinct (map key t)"

lemma tbl_find_Some_iff:
  "keys_distinct key t \<Longrightarrow> tbl_find key k t = Some r \<longleftrightarrow> r \<in> set t \<and> key r = k"
  by (induction t) (auto simp: tbl_find_def)

lemma tbl_find_SomeD: "tbl_find key k t = Some r \<Longrightarrow> r \<in> set t \<and> key r = k"
  by (auto simp: tbl_find_def find_Some_iff)

lemma tbl_find_None_iff: "tbl_find key k t = None \<longleftrightarrow> k \<notin> key ` set t"
  by (auto simp: tbl_find_def find_None_iff)

lemma tbl_find_append [table_simps]:
  "tbl_find key k (t @ [r]) =
    (case tbl_find key k t of Some x \<Rightarrow> Some x | None \<Rightarrow> if key r = k then Some r else None)"
  by (induction t) (auto simp: tbl_find_def)

lemma tbl_find_update [table_simps]:
  assumes "\<And>r. p r \<Longrightarrow> key (f r) = key r"
  shows "tbl_find key k (tbl_update p f t) =
    map_option (\<lambda>r. if p r then f r else r) (tbl_find key k t)"
  using assms by (induction t) (auto simp: tbl_find_def tbl_update_def)

lemma keys_tbl_update:
  assumes "\<And>r. p r \<Longrightarrow> key (f r) = key r"
  shows "map key (tbl_update p f t) = map key t"
  using assms by (auto simp: tbl_update_def)

lemma set_tbl_update: "set (tbl_update p f t) = (\<lambda>r. if p r then f r else r) ` set t"
  by (simp add: tbl_update_def)

lemma tbl_update_id: "(\<And>r. r \<in> set t \<Longrightarrow> p r \<Longrightarrow> f r = r) \<Longrightarrow> tbl_update p f t = t"
  by (simp add: tbl_update_def map_idI)

text \<open>A search whose condition fixes the primary key sees at most one row.\<close>

lemma find_keyed:
  assumes "keys_distinct key t" and "\<And>r. p r \<Longrightarrow> key r = k"
  shows "find p t = (case tbl_find key k t of None \<Rightarrow> None | Some r \<Rightarrow> if p r then Some r else None)"
  using assms
proof (induction t)
  case Nil
  then show ?case by (simp add: tbl_find_def)
next
  case (Cons a t)
  then have IH: "find p t =
      (case tbl_find key k t of None \<Rightarrow> None | Some r \<Rightarrow> if p r then Some r else None)" by simp
  show ?case
  proof (cases "key a = k")
    case True
    with Cons.prems have "tbl_find key k t = None"
      by (auto simp: tbl_find_None_iff)
    with IH True show ?thesis by (simp add: tbl_find_def)
  next
    case False
    with Cons.prems(2) have "\<not> p a" by blast
    with IH False show ?thesis by (simp add: tbl_find_def)
  qed
qed

lemma filter_keyed:
  assumes "keys_distinct key t" and "r \<in> set t" and "key r = k"
  shows "filter (\<lambda>x. key x = k) t = [r]"
  using assms
proof (induction t)
  case Nil
  then show ?case by simp
next
  case (Cons a t)
  show ?case
  proof (cases "key a = k")
    case True
    with Cons.prems(1) have "k \<notin> key ` set t" by simp
    then have none: "key x \<noteq> k" if "x \<in> set t" for x using that by blast
    with Cons.prems(2,3) have "a = r" by auto
    moreover have "filter (\<lambda>x. key x = k) t = []" using none by (simp add: filter_empty_conv)
    ultimately show ?thesis using True by simp
  next
    case False
    with Cons show ?thesis by auto
  qed
qed

section \<open>Appending as a function\<close>

lemma append_fun:
  "(@) [] = (\<lambda>ys. ys)"
  "(@) (x # xs) = (\<lambda>ys. x # xs @ ys)"
  "(@) (xs @ [x]) = (\<lambda>ys. xs @ x # ys)"
  by auto

section \<open>Bit lists\<close>

text \<open>
  A word written as the list of its bits and read back; the concrete instances that show the
  library hypotheses to be satisfiable use it as their text format.
\<close>

definition word_bits :: "'a::len word \<Rightarrow> string" where
  "word_bits w = map (\<lambda>i. if bit w i then CHR ''1'' else CHR ''0'') [0..<LENGTH('a)]"

definition word_of_chars :: "string \<Rightarrow> 'a::len word" where
  "word_of_chars s = horner_sum of_bool 2 (map (\<lambda>c. c = CHR ''1'') s)"

lemma length_word_bits [simp]: "length (word_bits (w :: 'a::len word)) = LENGTH('a)"
  by (simp add: word_bits_def)

lemma word_of_chars_word_bits [simp]: "word_of_chars (word_bits w) = (w :: 'a::len word)"
proof -
  have "map (\<lambda>c. c = CHR ''1'') (word_bits w) = map (bit w) [0..<LENGTH('a)]"
    by (simp add: word_bits_def)
  then show ?thesis
    by (simp add: word_of_chars_def horner_sum_bit_eq_take_bit)
qed

end
