(* ===== verification/Crypto.thy ===== *)
theory Crypto
  imports Prelude
begin

text \<open>
  The crate \<open>crates/crypto\<close>: the key wrapper of \<open>key.rs\<close>, authenticated encryption of entries
  (\<open>cipher.rs\<close>) and key derivation (\<open>kdf.rs\<close>). The AES-GCM and Argon2 implementations are
  third-party crates: \<open>aead\<close> and \<open>kdf\<close> hold what the code calls of them, \<open>aead_laws\<close> and
  \<open>kdf_laws\<close> what their documentation promises.
\<close>

section \<open>Errors and keys\<close>

datatype CryptoError =
  EncryptionError
| DecryptionError
| KdfError string
| InvalidKeyLength nat nat

record VaultKey =
  vk_inner :: bytes

definition vault_key_new :: "bytes \<Rightarrow> CryptoError + VaultKey" where
  "vault_key_new bs =
     (if length bs \<noteq> 32 then Inl (InvalidKeyLength 32 (length bs))
      else Inr \<lparr>vk_inner = bs\<rparr>)"

definition as_bytes :: "VaultKey \<Rightarrow> bytes" where
  "as_bytes k = vk_inner k"

text \<open>\<open>impl Debug for VaultKey\<close>\<close>

definition vault_key_debug :: "VaultKey \<Rightarrow> string" where
  "vault_key_debug k = ''VaultKey([REDACTED])''"

text \<open>The type invariant of \<open>[u8; 32]\<close>.\<close>

definition key_ok :: "VaultKey \<Rightarrow> bool" where
  "key_ok k \<longleftrightarrow> length (vk_inner k) = 32"

lemma vault_key_new_Inr_iff:
  "vault_key_new bs = Inr k \<longleftrightarrow> length bs = 32 \<and> k = \<lparr>vk_inner = bs\<rparr>"
  by (auto simp: vault_key_new_def)

text \<open>
  A key is exactly 32 bytes: the constructor accepts a slice if and only if it has 32
  bytes, and then \<open>as_bytes\<close> gives those bytes back; any other slice is refused with its
  length.
\<close>

lemma vault_key_new_exact:
  "(vault_key_new bs = Inr k \<longleftrightarrow> key_ok k \<and> as_bytes k = bs) \<and>
   (vault_key_new bs = Inl e \<longleftrightarrow> length bs \<noteq> 32 \<and> e = InvalidKeyLength 32 (length bs))"
  by (cases k) (auto simp: vault_key_new_def key_ok_def as_bytes_def)

section \<open>Encryption of entries\<close>

text \<open>
  \<open>'c\<close> is the cipher object \<open>Aes256Gcm\<close>; \<open>generate_nonce\<close> is indexed by the use of the
  operating system's random source.
\<close>

record 'c aead =
  new_from_slice :: "bytes \<Rightarrow> 'c option"
  generate_nonce :: "nat \<Rightarrow> bytes"
  nonce_from_exact_iter :: "bytes \<Rightarrow> bytes option"
  cipher_encrypt :: "'c \<Rightarrow> bytes \<Rightarrow> bytes \<Rightarrow> bytes option"
  cipher_decrypt :: "'c \<Rightarrow> bytes \<Rightarrow> bytes \<Rightarrow> bytes option"

definition encrypt_entry ::
    "'c aead \<Rightarrow> nat \<Rightarrow> bytes \<Rightarrow> VaultKey \<Rightarrow> CryptoError + bytes \<times> bytes" where
  "encrypt_entry A t plaintext key =
     (case new_from_slice A (as_bytes key) of
        None \<Rightarrow> Inl EncryptionError
      | Some cipher \<Rightarrow>
         (let nonce = generate_nonce A t in
          case cipher_encrypt A cipher nonce plaintext of
            None \<Rightarrow> Inl EncryptionError
          | Some ciphertext \<Rightarrow> Inr (ciphertext, nonce)))"

definition decrypt_entry ::
    "'c aead \<Rightarrow> bytes \<Rightarrow> bytes \<Rightarrow> VaultKey \<Rightarrow> CryptoError + bytes" where
  "decrypt_entry A ciphertext nonce_bytes key =
     (case new_from_slice A (as_bytes key) of
        None \<Rightarrow> Inl DecryptionError
      | Some cipher \<Rightarrow>
         (case nonce_from_exact_iter A nonce_bytes of
            None \<Rightarrow> Inl DecryptionError
          | Some nonce \<Rightarrow>
             (case cipher_decrypt A cipher nonce ciphertext of
                None \<Rightarrow> Inl DecryptionError
              | Some plaintext \<Rightarrow> Inr plaintext)))"

text \<open>
  What the \<open>aes-gcm\<close> crate documents: a cipher exists for 32-byte keys only; nonces have 12
  bytes; decryption accepts a ciphertext only if it is what encryption gives under the same
  key and nonce, and then returns the plaintext; the ciphertext is 16 bytes (the tag) longer.
\<close>

definition aead_laws :: "'c aead \<Rightarrow> bool" where
  "aead_laws A \<longleftrightarrow>
     (\<forall>k. new_from_slice A k \<noteq> None \<longleftrightarrow> length k = 32) \<and>
     (\<forall>t. length (generate_nonce A t) = 12) \<and>
     (\<forall>n. nonce_from_exact_iter A n = (if length n = 12 then Some n else None)) \<and>
     (\<forall>c n p x. cipher_decrypt A c n x = Some p \<longleftrightarrow> cipher_encrypt A c n p = Some x) \<and>
     (\<forall>c n p x. cipher_encrypt A c n p = Some x \<longrightarrow> length x = length p + 16)"

lemma aead_keyD: "aead_laws A \<Longrightarrow> new_from_slice A k = Some c \<Longrightarrow> length k = 32"
  by (auto simp: aead_laws_def)

lemma aead_nonce_length: "aead_laws A \<Longrightarrow> length (generate_nonce A t) = 12"
  by (simp add: aead_laws_def)

lemma aead_nonce_iter:
  "aead_laws A \<Longrightarrow> nonce_from_exact_iter A n = (if length n = 12 then Some n else None)"
  by (simp add: aead_laws_def)

lemma aead_decryptI:
  "aead_laws A \<Longrightarrow> cipher_encrypt A c n p = Some x \<Longrightarrow> cipher_decrypt A c n x = Some p"
  by (simp add: aead_laws_def)

lemma aead_decryptD:
  "aead_laws A \<Longrightarrow> cipher_decrypt A c n x = Some p \<Longrightarrow> cipher_encrypt A c n p = Some x"
  by (simp add: aead_laws_def)

lemma aead_length:
  "aead_laws A \<Longrightarrow> cipher_encrypt A c n p = Some x \<Longrightarrow> length x = length p + 16"
  by (simp add: aead_laws_def)

text \<open>A concrete instance of the laws (a cipher that appends the key's fingerprint).\<close>

definition demo_aead :: "bytes aead" where
  "demo_aead =
     \<lparr>new_from_slice = (\<lambda>k. if length k = 32 then Some (take 16 k) else None),
      generate_nonce = (\<lambda>t. replicate 12 (of_nat t)),
      nonce_from_exact_iter = (\<lambda>n. if length n = 12 then Some n else None),
      cipher_encrypt = (\<lambda>c n p. Some (p @ take 16 (c @ replicate 16 0))),
      cipher_decrypt = (\<lambda>c n x.
        if 16 \<le> length x \<and> drop (length x - 16) x = take 16 (c @ replicate 16 0)
        then Some (take (length x - 16) x) else None)\<rparr>"

lemma demo_aead_laws: "aead_laws demo_aead"
proof -
  have "(16 \<le> length x \<and> drop (length x - 16) x = t \<and> take (length x - 16) x = p) \<longleftrightarrow> p @ t = x"
    if "length t = 16" for x p t :: bytes
    using that append_take_drop_id [of "length x - 16" x] by auto
  moreover have "length (take 16 (c @ replicate 16 0)) = 16" for c :: bytes
    by simp
  ultimately have law: "(16 \<le> length x \<and>
      drop (length x - 16) x = take 16 (c @ replicate 16 0) \<and> take (length x - 16) x = p)
      \<longleftrightarrow> p @ take 16 (c @ replicate 16 0) = x" for c p x :: bytes
    by blast
  have decrypt: "cipher_decrypt demo_aead c n x = Some p \<longleftrightarrow>
      cipher_encrypt demo_aead c n p = Some x" for c n p x
    using law [of x c p] by (auto simp: demo_aead_def simp del: take_append)
  show ?thesis
    unfolding aead_laws_def using decrypt by (simp add: demo_aead_def min_def)
qed

definition demo_key :: VaultKey where
  "demo_key = \<lparr>vk_inner = 42 # replicate 31 0\<rparr>"

text \<open>
  Decryption undoes encryption: with the key and the nonce that \<open>encrypt_entry\<close> used, its
  ciphertext decrypts to the plaintext, for every plaintext and every key; and the nonce it
  returns has the 12 bytes that \<open>decrypt_entry\<close> insists on.
\<close>

theorem encrypt_decrypt_roundtrip:
  assumes "aead_laws A" and "encrypt_entry A t plaintext key = Inr (ciphertext, nonce)"
  shows "decrypt_entry A ciphertext nonce key = Inr plaintext \<and> length nonce = 12"
proof -
  from assms(2) obtain c where c: "new_from_slice A (as_bytes key) = Some c"
    and enc: "cipher_encrypt A c nonce plaintext = Some ciphertext"
    and nonce: "nonce = generate_nonce A t"
    by (auto simp: encrypt_entry_def Let_def split: option.splits)
  with assms(1) show ?thesis
    by (simp add: decrypt_entry_def aead_nonce_iter aead_nonce_length aead_decryptI)
qed

theorem encrypt_decrypt_roundtrip_witness:
  "\<exists>x n. encrypt_entry demo_aead 3 [1, 2, 3] demo_key = Inr (x, n) \<and>
     decrypt_entry demo_aead x n demo_key = Inr [1, 2, 3]"
proof -
  obtain x n where "encrypt_entry demo_aead 3 [1, 2, 3] demo_key = Inr (x, n)"
    by (simp add: encrypt_entry_def demo_aead_def demo_key_def as_bytes_def)
  with encrypt_decrypt_roundtrip [OF demo_aead_laws this] show ?thesis by blast
qed

text \<open>
  Only genuine entries decrypt: whatever \<open>decrypt_entry\<close> accepts has a 12-byte nonce, a
  key of 32 bytes, and is exactly the ciphertext that encrypting the returned plaintext under
  that key and nonce gives; in particular anything shorter than the 16-byte tag, and any nonce
  of another length, is a decryption error.
\<close>

theorem decrypt_entry_authentic:
  assumes "aead_laws A"
  shows "(decrypt_entry A ciphertext nonce key = Inr plaintext \<longleftrightarrow>
      length nonce = 12 \<and> (\<exists>c. new_from_slice A (as_bytes key) = Some c \<and>
        cipher_encrypt A c nonce plaintext = Some ciphertext)) \<and>
    (length nonce \<noteq> 12 \<or> length ciphertext < 16 \<longrightarrow>
      decrypt_entry A ciphertext nonce key = Inl DecryptionError)"
proof -
  have accepted: "decrypt_entry A ciphertext nonce key = Inr p \<longleftrightarrow>
      length nonce = 12 \<and> (\<exists>c. new_from_slice A (as_bytes key) = Some c \<and>
        cipher_encrypt A c nonce p = Some ciphertext)" for p
    using assms
    by (auto simp: decrypt_entry_def aead_nonce_iter dest: aead_decryptI aead_decryptD
        split: option.splits if_splits)
  have only_error: "decrypt_entry A ciphertext nonce key = Inl DecryptionError \<or>
      (\<exists>p. decrypt_entry A ciphertext nonce key = Inr p)"
    by (auto simp: decrypt_entry_def split: option.splits)
  from only_error accepted show ?thesis
    by (auto dest: aead_length [OF assms])
qed

theorem decrypt_entry_authentic_witness:
  "decrypt_entry demo_aead (replicate 20 0) (replicate 11 0) demo_key = Inl DecryptionError"
  using decrypt_entry_authentic [OF demo_aead_laws, of "replicate 20 0" "replicate 11 0" demo_key]
  by simp

section \<open>Key derivation\<close>

text \<open>
  \<open>'p\<close> is \<open>argon2::Params\<close>; \<open>hash_password_into\<close> fills the output buffer of the given length.
\<close>

record 'p kdf =
  salt_from_b64 :: "string \<Rightarrow> string + string"
  params_new :: "nat \<Rightarrow> nat \<Rightarrow> nat \<Rightarrow> nat option \<Rightarrow> string + 'p"
  hash_password_into :: "'p \<Rightarrow> bytes \<Rightarrow> bytes \<Rightarrow> nat \<Rightarrow> string + bytes"

definition str_bytes :: "string \<Rightarrow> bytes" where
  "str_bytes s = map of_char s"

definition derive_key :: "'p kdf \<Rightarrow> string \<Rightarrow> string \<Rightarrow> CryptoError + VaultKey" where
  "derive_key K password salt =
     (case salt_from_b64 K salt of
        Inl e \<Rightarrow> Inl (KdfError e)
      | Inr salt_string \<Rightarrow>
         (case params_new K 19456 2 1 (Some 32) of
            Inl e \<Rightarrow> Inl (KdfError e)
          | Inr params \<Rightarrow>
             (case hash_password_into K params (str_bytes password) (str_bytes salt_string) 32 of
                Inl e \<Rightarrow> Inl (KdfError e)
              | Inr key_bytes \<Rightarrow> vault_key_new key_bytes)))"

definition kdf_laws :: "'p kdf \<Rightarrow> bool" where
  "kdf_laws K \<longleftrightarrow>
     (\<forall>p pw s n bs. hash_password_into K p pw s n = Inr bs \<longrightarrow> length bs = n)"

text \<open>
  Key derivation ends in a well-formed key or in a derivation error: its result is always a
  32-byte key, and its only error is \<open>KdfError\<close>, never the length error of the key wrapper.
\<close>

lemma derive_key_total:
  assumes "kdf_laws K"
  shows "(\<exists>k. derive_key K password salt = Inr k \<and> key_ok k) \<or>
    (\<exists>m. derive_key K password salt = Inl (KdfError m))"
  using assms
  by (auto simp: derive_key_def kdf_laws_def vault_key_new_def key_ok_def split: sum.splits)

definition demo_kdf :: "unit kdf" where
  "demo_kdf =
     \<lparr>salt_from_b64 = (\<lambda>s. if length s < 4 then Inl ''salt too short'' else Inr s),
      params_new = (\<lambda>m t p n. Inr ()),
      hash_password_into = (\<lambda>_ pw s n. Inr (take n (pw @ s @ replicate n 0)))\<rparr>"

lemma demo_kdf_laws: "kdf_laws demo_kdf"
  by (auto simp: kdf_laws_def demo_kdf_def)

end
