(* ===== verification/Core_Models.thy ===== *)
theory Core_Models
  imports Prelude
begin

text \<open>
  The crate \<open>crates/core\<close>: the domain models of \<open>models/mod.rs\<close> as records (each field keeps
  its name, behind a prefix for its struct) and the error enum of \<open>error.rs\<close> with the
  \<open>Display\<close> texts its \<open>#[error(..)]\<close> attributes define.
\<close>

section \<open>Identifiers, time, JSON values\<close>

text \<open>
  A \<open>Uuid\<close> is 128 bits. A \<open>DateTime<Utc>\<close> is a number of microseconds since the Unix epoch,
  the resolution of the \<open>TIMESTAMPTZ\<close> columns every stored time goes through.
\<close>

type_synonym uuid = "128 word"
type_synonym datetime = int

text \<open>A number with a fraction or an exponent is kept as its text.\<close>

datatype json =
  JNull
| JBool bool
| JNum int
| JFloat string
| JStr string
| JArr "json list"
| JObj "(string \<times> json) list"

text \<open>\<open>DateTime::timestamp\<close>: whole seconds since the epoch, rounded down.\<close>

definition timestamp :: "datetime \<Rightarrow> int" where
  "timestamp t = t div 1000000"

definition duration_seconds :: "int \<Rightarrow> int" where
  "duration_seconds n = n * 1000000"

definition duration_days :: "int \<Rightarrow> int" where
  "duration_days n = duration_seconds (n * 86400)"

lemma timestamp_add_seconds [simp]: "timestamp (t + duration_seconds n) = timestamp t + n"
  by (simp add: timestamp_def duration_seconds_def)

lemma timestamp_mono: "s \<le> t \<Longrightarrow> timestamp s \<le> timestamp t"
  by (simp add: timestamp_def zdiv_mono1)

section \<open>Models\<close>

record User =
  u_id :: uuid
  u_email :: string
  u_password_hash :: string
  u_display_name :: "string option"
  u_sso_provider :: "string option"
  u_sso_sub :: "string option"
  u_created_at :: datetime
  u_updated_at :: datetime

record RefreshToken =
  rt_id :: uuid
  rt_user_id :: uuid
  rt_token_hash :: string
  rt_expires_at :: datetime
  rt_revoked :: bool
  rt_created_at :: datetime

record RegisterRequest =
  rr_email :: string
  rr_password :: string
  rr_display_name :: "string option"

record LoginRequest =
  lr_email :: string
  lr_password :: string

record RefreshRequest =
  rf_refresh_token :: string

record AuthResponse =
  ar_access_token :: string
  ar_refresh_token :: string
  ar_token_type :: string
  ar_expires_in :: int

record TokenClaims =
  tc_sub :: string
  tc_iat :: usize
  tc_exp :: usize

record Note =
  n_id :: uuid
  n_user_id :: uuid
  n_title_cipher :: bytes
  n_content_cipher :: bytes
  n_nonce :: bytes
  n_version :: i32
  n_format :: string
  n_tags :: "string list"
  n_created_at :: datetime
  n_updated_at :: datetime
  n_deleted_at :: "datetime option"

record VaultEntry =
  ve_id :: uuid
  ve_note_id :: uuid
  ve_user_id :: uuid
  ve_file_cipher :: bytes
  ve_nonce :: bytes
  ve_mime_type :: "string option"
  ve_file_size :: i32
  ve_created_at :: datetime

record SyncEvent =
  se_id :: i64
  se_user_id :: uuid
  se_entity_type :: string
  se_entity_id :: uuid
  se_operation :: string
  se_payload :: "json option"
  se_client_id :: string
  se_created_at :: datetime

section \<open>Errors\<close>

datatype CoreError =
  NotFound string
| Conflict string
| Database string
| Serialization string
| Internal string
| Unauthorized string
| InvalidToken string

fun core_error_text :: "CoreError \<Rightarrow> string" where
  "core_error_text (NotFound s) = ''Not found: '' @ s"
| "core_error_text (Conflict s) = ''Conflict: '' @ s"
| "core_error_text (Database s) = ''Database error: '' @ s"
| "core_error_text (Serialization s) = ''Serialization error: '' @ s"
| "core_error_text (Internal s) = ''Internal domain error: '' @ s"
| "core_error_text (Unauthorized s) = ''Unauthorized: '' @ s"
| "core_error_text (InvalidToken s) = ''Invalid token: '' @ s"

text \<open>The texts of different kinds of error never collide.\<close>

lemma core_error_text_inj: "core_error_text e = core_error_text e' \<Longrightarrow> e = e'"
  by (cases e; cases e') simp_all

end
