(* ===== verification/Database.thy ===== *)
theory Database
  imports Core_Models
begin

text \<open>
  The PostgreSQL database as the Rust code sees it: the four tables its statements touch, with
  the constraints of the migrations (primary keys, \<open>UNIQUE\<close> e-mail, foreign keys, \<open>VARCHAR(n)\<close>
  and \<open>TEXT\<close> coercions), the outside world the handlers run in (clocks, random sources, network
  faults), and one statement executed on it. A statement is a transaction of its own: it
  changes the tables completely or not at all. The server, the driver and the operating
  system's random source are not part of the repository; what the code obtains from them are
  the fields of \<open>env\<close>.
\<close>

section \<open>Tables\<close>

record db =
  db_users :: "User list"
  db_notes :: "Note list"
  db_vault_entries :: "VaultEntry list"
  db_refresh_tokens :: "RefreshToken list"

definition empty_db :: db where
  "empty_db = \<lparr>db_users = [], db_notes = [], db_vault_entries = [], db_refresh_tokens = []\<rparr>"

datatype db_error =
  UniqueViolation string
| ForeignKeyViolation string
| ValueTooLong nat
| InvalidByteSequence
| RowNotFound
| ConnectionError string

text \<open>
  Text parameters: PostgreSQL refuses the zero byte; a \<open>VARCHAR(n)\<close> column refuses a longer
  value unless the excess is all spaces, which it cuts off.
\<close>

definition pg_text :: "string \<Rightarrow> db_error + string" where
  "pg_text s = (if CHR 0x00 \<in> set s then Inl InvalidByteSequence else Inr s)"

definition pg_varchar :: "nat \<Rightarrow> string \<Rightarrow> db_error + string" where
  "pg_varchar n s =
     (if CHR 0x00 \<in> set s then Inl InvalidByteSequence
      else let (a, b) = split_chars n s in
        if set b \<subseteq> {CHR '' ''} then Inr a else Inl (ValueTooLong n))"

definition pg_nullable :: "(string \<Rightarrow> db_error + string) \<Rightarrow> string option \<Rightarrow> db_error + string option" where
  "pg_nullable f v = (case v of None \<Rightarrow> Inr None
     | Some s \<Rightarrow> (case f s of Inl e \<Rightarrow> Inl e | Inr t \<Rightarrow> Inr (Some t)))"

fun pg_text_array :: "string list \<Rightarrow> db_error + string list" where
  "pg_text_array [] = Inr []"
| "pg_text_array (s # ss) =
     (case pg_text s of Inl e \<Rightarrow> Inl e
      | Inr t \<Rightarrow> (case pg_text_array ss of Inl e \<Rightarrow> Inl e | Inr ts \<Rightarrow> Inr (t # ts)))"

lemma pg_text_InrD: "pg_text s = Inr t \<Longrightarrow> t = s"
  by (simp add: pg_text_def split: if_splits)

lemma pg_text_array_InrD: "pg_text_array ss = Inr ts \<Longrightarrow> ts = ss"
  by (induction ss arbitrary: ts) (auto split: sum.splits dest: pg_text_InrD)

lemma split_chars_short: "char_count s \<le> n \<Longrightarrow> split_chars n s = (s, [])"
  by (induction n s rule: split_chars.induct)
    (auto simp: char_count_def split: nat.splits if_splits)

lemma pg_varchar_fits:
  "CHR 0x00 \<notin> set s \<Longrightarrow> char_count s \<le> n \<Longrightarrow> pg_varchar n s = Inr s"
  by (simp add: pg_varchar_def split_chars_short)

section \<open>Constraints\<close>

text \<open>What the schema guarantees of every committed state.\<close>

definition user_ids :: "db \<Rightarrow> uuid set" where
  "user_ids d = u_id ` set (db_users d)"

definition note_ids :: "db \<Rightarrow> uuid set" where
  "note_ids d = n_id ` set (db_notes d)"

definition db_inv :: "db \<Rightarrow> bool" where
  "db_inv d \<longleftrightarrow>
     keys_distinct u_id (db_users d) \<and> keys_distinct u_email (db_users d) \<and>
     keys_distinct n_id (db_notes d) \<and> n_user_id ` set (db_notes d) \<subseteq> user_ids d \<and>
     keys_distinct ve_id (db_vault_entries d) \<and> ve_user_id ` set (db_vault_entries d) \<subseteq> user_ids d \<and>
     ve_note_id ` set (db_vault_entries d) \<subseteq> note_ids d \<and>
     keys_distinct rt_id (db_refresh_tokens d) \<and> rt_user_id ` set (db_refresh_tokens d) \<subseteq> user_ids d"

lemma db_inv_empty [simp]: "db_inv empty_db"
  by (simp add: db_inv_def empty_db_def)

text \<open>Inserting a row that passes the constraint checks, updating columns that carry none.\<close>

lemma db_inv_insert_user:
  "db_inv d \<Longrightarrow> u_id r \<notin> user_ids d \<Longrightarrow> u_email r \<notin> u_email ` set (db_users d) \<Longrightarrow>
    db_inv (d\<lparr>db_users := db_users d @ [r]\<rparr>)"
  by (auto simp: db_inv_def user_ids_def note_ids_def)

lemma db_inv_insert_note:
  "db_inv d \<Longrightarrow> n_id r \<notin> note_ids d \<Longrightarrow> n_user_id r \<in> user_ids d \<Longrightarrow>
    db_inv (d\<lparr>db_notes := db_notes d @ [r]\<rparr>)"
  by (auto simp: db_inv_def user_ids_def note_ids_def)

lemma db_inv_insert_vault_entry:
  "db_inv d \<Longrightarrow> ve_id r \<notin> ve_id ` set (db_vault_entries d) \<Longrightarrow> ve_user_id r \<in> user_ids d \<Longrightarrow>
    ve_note_id r \<in> note_ids d \<Longrightarrow> db_inv (d\<lparr>db_vault_entries := db_vault_entries d @ [r]\<rparr>)"
  by (auto simp: db_inv_def user_ids_def note_ids_def)

lemma db_inv_insert_token:
  "db_inv d \<Longrightarrow> rt_id r \<notin> rt_id ` set (db_refresh_tokens d) \<Longrightarrow> rt_user_id r \<in> user_ids d \<Longrightarrow>
    db_inv (d\<lparr>db_refresh_tokens := db_refresh_tokens d @ [r]\<rparr>)"
  by (auto simp: db_inv_def user_ids_def note_ids_def)

lemma image_tbl_update:
  assumes "\<And>r. p r \<Longrightarrow> key (f r) = key r"
  shows "key ` set (tbl_update p f t) = key ` set t"
  using keys_tbl_update [of p key f t, OF assms] by (metis set_map)

lemma db_inv_update_notes:
  assumes "db_inv d" and "\<And>r. p r \<Longrightarrow> n_id (f r) = n_id r \<and> n_user_id (f r) = n_user_id r"
  shows "db_inv (d\<lparr>db_notes := tbl_update p f (db_notes d)\<rparr>)"
  using assms
  by (simp add: db_inv_def user_ids_def note_ids_def image_tbl_update keys_tbl_update)

lemma db_inv_update_tokens:
  assumes "db_inv d" and "\<And>r. p r \<Longrightarrow> rt_id (f r) = rt_id r \<and> rt_user_id (f r) = rt_user_id r"
  shows "db_inv (d\<lparr>db_refresh_tokens := tbl_update p f (db_refresh_tokens d)\<rparr>)"
  using assms
  by (simp add: db_inv_def user_ids_def note_ids_def image_tbl_update keys_tbl_update)

section \<open>The outside world\<close>

text \<open>
  Every use of the outside world (a statement, a clock, a random source) is one tick; \<open>env\<close>
  says what it yields at each tick. A statement may find the server unreachable, or be
  executed and have its acknowledgement lost. The remaining fields are the third-party
  functions that the code calls.
\<close>

datatype fault = Healthy | Unreachable string | AckLost string

datatype jwt_algorithm = EdDSA | OtherAlgorithm string

record jwt_header =
  jh_alg :: jwt_algorithm
  jh_typ :: "string option"

record env =
  utc_now :: "nat \<Rightarrow> datetime"
  pg_now :: "nat \<Rightarrow> datetime"
  new_v4 :: "nat \<Rightarrow> uuid"
  os_salt :: "nat \<Rightarrow> string"
  fault_at :: "nat \<Rightarrow> fault"
  db_error_text :: "db_error \<Rightarrow> string"
  uuid_to_string :: "uuid \<Rightarrow> string"
  uuid_parse_str :: "string \<Rightarrow> uuid option"
  datetime_to_string :: "datetime \<Rightarrow> string"
  datetime_from_string :: "string \<Rightarrow> datetime option"
  argon2_hash :: "string \<Rightarrow> string \<Rightarrow> string + string"
  phc_parse :: "string \<Rightarrow> string + string"
  argon2_verify :: "string \<Rightarrow> string \<Rightarrow> bool"
  blake3_hex :: "string \<Rightarrow> string"
  jwt_encode :: "jwt_header \<Rightarrow> TokenClaims \<Rightarrow> bytes \<Rightarrow> string + string"
  jwt_decode :: "jwt_algorithm \<Rightarrow> int \<Rightarrow> string \<Rightarrow> bytes \<Rightarrow> string + TokenClaims"
  header_to_str :: "bytes \<Rightarrow> string option"
  overflow_checks :: bool

record world =
  w_db :: db
  w_tick :: nat

definition tick :: "(nat \<Rightarrow> 'a) \<Rightarrow> (world, 'e, 'a) act" where
  "tick f = (\<lambda>w. (Inr (f (w_tick w)), w\<lparr>w_tick := Suc (w_tick w)\<rparr>))"

lemma tick_run [act_simps]: "tick f w = (Inr (f (w_tick w)), w\<lparr>w_tick := Suc (w_tick w)\<rparr>)"
  by (simp add: tick_def)

text \<open>One statement: its meaning at the server's time \<open>NOW()\<close> on the committed tables.\<close>

type_synonym 'a stmt = "datetime \<Rightarrow> db \<Rightarrow> db_error + 'a \<times> db"

definition run_stmt :: "env \<Rightarrow> 'a stmt \<Rightarrow> (world, db_error, 'a) act" where
  "run_stmt E q = (\<lambda>w.
     let t = w_tick w; w' = w\<lparr>w_tick := Suc t\<rparr> in
     case fault_at E t of
       Unreachable m \<Rightarrow> (Inl (ConnectionError m), w')
     | Healthy \<Rightarrow> (case q (pg_now E t) (w_db w) of
           Inl e \<Rightarrow> (Inl e, w')
         | Inr (x, d) \<Rightarrow> (Inr x, w'\<lparr>w_db := d\<rparr>))
     | AckLost m \<Rightarrow> (case q (pg_now E t) (w_db w) of
           Inl e \<Rightarrow> (Inl (ConnectionError m), w')
         | Inr (x, d) \<Rightarrow> (Inl (ConnectionError m), w'\<lparr>w_db := d\<rparr>)))"

lemma run_stmt_healthy [act_simps]:
  "fault_at E (w_tick w) = Healthy \<Longrightarrow>
   run_stmt E q w = (case q (pg_now E (w_tick w)) (w_db w) of
       Inl e \<Rightarrow> (Inl e, w\<lparr>w_tick := Suc (w_tick w)\<rparr>)
     | Inr (x, d) \<Rightarrow> (Inr x, w\<lparr>w_tick := Suc (w_tick w), w_db := d\<rparr>))"
  by (simp add: run_stmt_def split: sum.split)

lemma run_stmt_unreachable [act_simps]:
  "fault_at E (w_tick w) = Unreachable m \<Longrightarrow>
   run_stmt E q w = (Inl (ConnectionError m), w\<lparr>w_tick := Suc (w_tick w)\<rparr>)"
  by (simp add: run_stmt_def)

text \<open>A statement that is acknowledged was executed.\<close>

lemma run_stmt_InrE:
  assumes "run_stmt E q w = (Inr x, w')"
  obtains d where "q (pg_now E (w_tick w)) (w_db w) = Inr (x, d)"
    and "w' = w\<lparr>w_tick := Suc (w_tick w), w_db := d\<rparr>" and "fault_at E (w_tick w) = Healthy"
  using assms by (auto simp: run_stmt_def Let_def split: fault.splits sum.splits prod.splits)

text \<open>
  Whatever the fault, a statement that runs leaves either the tables as they were or the
  tables its meaning gives; so a relation every outcome of the statement satisfies is an
  effect of running it.
\<close>

definition stmt_effect :: "(db \<Rightarrow> db \<Rightarrow> bool) \<Rightarrow> 'a stmt \<Rightarrow> bool" where
  "stmt_effect R q \<longleftrightarrow> (\<forall>now d x d'. q now d = Inr (x, d') \<longrightarrow> R d d')"

lemma stmt_effectI: "(\<And>now d x d'. q now d = Inr (x, d') \<Longrightarrow> R d d') \<Longrightarrow> stmt_effect R q"
  by (simp add: stmt_effect_def)

text \<open>Relations on the tables, lifted to worlds.\<close>

definition on_db :: "(db \<Rightarrow> db \<Rightarrow> bool) \<Rightarrow> world \<Rightarrow> world \<Rightarrow> bool" where
  "on_db R w w' \<longleftrightarrow> R (w_db w) (w_db w') \<and> w_tick w \<le> w_tick w'"

locale db_relation =
  fixes R :: "db \<Rightarrow> db \<Rightarrow> bool"
  assumes db_refl: "R d d"
    and db_trans: "R c d \<Longrightarrow> R d e \<Longrightarrow> R c e"
begin

sublocale effect_relation "on_db R"
  by unfold_locales (auto simp: on_db_def intro: db_refl db_trans)

lemma effect_tick [intro, simp]: "effect (on_db R) (tick f)"
  by (simp add: effect_def on_db_def tick_def db_refl)

lemma effect_run_stmt [intro]:
  assumes "stmt_effect R q"
  shows "effect (on_db R) (run_stmt E q)"
  using assms
  by (auto simp: effect_def on_db_def run_stmt_def stmt_effect_def Let_def db_refl
      split: fault.split sum.split prod.split)

lemmas db_effect_intros = effect_intros effect_tick effect_run_stmt

end

text \<open>Preservation of a predicate on the tables is such a relation.\<close>

definition preserves :: "(db \<Rightarrow> bool) \<Rightarrow> db \<Rightarrow> db \<Rightarrow> bool" where
  "preserves P d d' \<longleftrightarrow> (P d \<longrightarrow> P d')"

interpretation inv: db_relation "preserves db_inv"
  by unfold_locales (auto simp: preserves_def)

text \<open>Reading statements change nothing.\<close>

definition query :: "(datetime \<Rightarrow> db \<Rightarrow> db_error + 'a) \<Rightarrow> 'a stmt" where
  "query f = (\<lambda>now d. case f now d of Inl e \<Rightarrow> Inl e | Inr x \<Rightarrow> Inr (x, d))"

lemma query_run [act_simps]:
  "query f now d = (case f now d of Inl e \<Rightarrow> Inl e | Inr x \<Rightarrow> Inr (x, d))"
  by (simp add: query_def)

lemma run_query_db: "run_stmt E (query f) w = (r, w') \<Longrightarrow> w_db w' = w_db w \<and> w_tick w' = Suc (w_tick w)"
  by (auto simp: run_stmt_def query_def Let_def split: fault.splits sum.splits)

lemma run_query_healthy [act_simps]:
  "fault_at E (w_tick w) = Healthy \<Longrightarrow>
    run_stmt E (query f) w = (f (pg_now E (w_tick w)) (w_db w), w\<lparr>w_tick := Suc (w_tick w)\<rparr>)"
  by (simp add: run_stmt_healthy query_def split: sum.split)

context db_relation
begin

lemma stmt_effect_query [intro, simp]: "stmt_effect R (query f)"
  by (auto simp: stmt_effect_def query_def db_refl split: sum.splits)

end

text \<open>Rows never leave a table, and the columns that no statement writes keep their value.\<close>

definition frozen :: "(db \<Rightarrow> 'a) \<Rightarrow> db \<Rightarrow> db \<Rightarrow> bool" where
  "frozen f d d' \<longleftrightarrow> f d' = f d"

lemma db_relation_frozen: "db_relation (frozen f)"
  by unfold_locales (auto simp: frozen_def)

end
