(* ===== verification/Core_Traits.thy ===== *)
theory Core_Traits
  imports Core_Models
begin

text \<open>
  The traits of \<open>crates/core/src/traits/mod.rs\<close> as records of functions, one field for each method:
  an implementation is a value of the record. \<open>'s\<close> is the state behind the implementation. (What
  the methods promise is stated by the locales of the theories that implement them.)
\<close>

record 's NoteStore =
  ns_get_note :: "uuid \<Rightarrow> uuid \<Rightarrow> ('s, CoreError, Note option) act"
  ns_list_notes :: "uuid \<Rightarrow> ('s, CoreError, Note list) act"
  ns_create_note :: "Note \<Rightarrow> ('s, CoreError, Note) act"
  ns_update_note :: "Note \<Rightarrow> ('s, CoreError, Note) act"
  ns_delete_note :: "uuid \<Rightarrow> uuid \<Rightarrow> ('s, CoreError, unit) act"

record 's VaultStore =
  vs_get_entry :: "uuid \<Rightarrow> uuid \<Rightarrow> ('s, CoreError, VaultEntry option) act"
  vs_list_entries :: "uuid \<Rightarrow> ('s, CoreError, VaultEntry list) act"
  vs_create_entry :: "VaultEntry \<Rightarrow> ('s, CoreError, VaultEntry) act"
  vs_update_entry :: "VaultEntry \<Rightarrow> ('s, CoreError, VaultEntry) act"
  vs_delete_entry :: "uuid \<Rightarrow> uuid \<Rightarrow> ('s, CoreError, unit) act"

record 's SyncEngine =
  sy_get_events_since :: "uuid \<Rightarrow> string \<Rightarrow> i64 \<Rightarrow> ('s, CoreError, SyncEvent list) act"
  sy_append_events :: "SyncEvent list \<Rightarrow> ('s, CoreError, unit) act"

end
