(* ===== verification/Pg_Notes.thy ===== *)
theory Pg_Notes
  imports Database Core_Traits
begin

text \<open>
  \<open>PgNyrexStore\<close> of \<open>crates/store/src/pg/mod.rs\<close>, the implementation of the trait
  \<open>NoteStore\<close> of \<open>crates/core/src/traits/mod.rs\<close>. The trait is the locale \<open>note_store\<close>: its
  five operations and the contract they promise a client; the interpretation \<open>pg\<close> shows that
  the PostgreSQL store keeps it.
\<close>

section \<open>The statements\<close>

definition visible_note :: "uuid \<Rightarrow> uuid \<Rightarrow> db \<Rightarrow> Note option" where
  "visible_note uid nid d =
     find (\<lambda>r. n_user_id r = uid \<and> n_id r = nid \<and> n_deleted_at r = None) (db_notes d)"

definition visible_notes :: "uuid \<Rightarrow> db \<Rightarrow> Note list" where
  "visible_notes uid d =
     sort_key (\<lambda>r. - n_updated_at r)
       (filter (\<lambda>r. n_user_id r = uid \<and> n_deleted_at r = None) (db_notes d))"

definition sql_insert_note :: "Note \<Rightarrow> Note stmt" where
  "sql_insert_note n = (\<lambda>now d.
     case pg_varchar 20 (n_format n) of Inl e \<Rightarrow> Inl e
     | Inr fmt \<Rightarrow> (case pg_text_array (n_tags n) of Inl e \<Rightarrow> Inl e
     | Inr tgs \<Rightarrow>
        if n_id n \<in> note_ids d then Inl (UniqueViolation ''notes_pkey'')
        else if n_user_id n \<notin> user_ids d then Inl (ForeignKeyViolation ''notes_user_id_fkey'')
        else (let row = n\<lparr>n_format := fmt, n_tags := tgs, n_deleted_at := None\<rparr>
              in Inr (row, d\<lparr>db_notes := db_notes d @ [row]\<rparr>))))"

definition own_row :: "uuid \<Rightarrow> uuid \<Rightarrow> Note \<Rightarrow> bool" where
  "own_row uid nid r \<longleftrightarrow> n_id r = nid \<and> n_user_id r = uid"

definition sql_update_note :: "Note \<Rightarrow> datetime \<Rightarrow> Note stmt" where
  "sql_update_note n ts = (\<lambda>now d.
     case pg_text (n_format n) of Inl e \<Rightarrow> Inl e
     | Inr _ \<Rightarrow> (case pg_text_array (n_tags n) of Inl e \<Rightarrow> Inl e
     | Inr tgs \<Rightarrow> (case find (own_row (n_user_id n) (n_id n)) (db_notes d) of None \<Rightarrow> Inl RowNotFound
     | Some old \<Rightarrow> (case pg_varchar 20 (n_format n) of Inl e \<Rightarrow> Inl e
     | Inr fmt \<Rightarrow>
        (let f = (\<lambda>r. r\<lparr>n_title_cipher := n_title_cipher n, n_content_cipher := n_content_cipher n,
               n_nonce := n_nonce n, n_version := n_version n, n_format := fmt, n_tags := tgs,
               n_updated_at := ts\<rparr>)
         in Inr (f old, d\<lparr>db_notes := tbl_update (own_row (n_user_id n) (n_id n)) f (db_notes d)\<rparr>))))))"

definition sql_delete_note :: "uuid \<Rightarrow> uuid \<Rightarrow> unit stmt" where
  "sql_delete_note uid nid = (\<lambda>now d.
     Inr ((), d\<lparr>db_notes :=
       tbl_update (own_row uid nid) (\<lambda>r. r\<lparr>n_deleted_at := Some now\<rparr>) (db_notes d)\<rparr>))"

section \<open>The store\<close>

definition database_error :: "env \<Rightarrow> db_error \<Rightarrow> CoreError" where
  "database_error E e = Database (db_error_text E e)"

definition get_note :: "env \<Rightarrow> uuid \<Rightarrow> uuid \<Rightarrow> (world, CoreError, Note option) act" where
  "get_note E uid nid =
     map_err (database_error E) (run_stmt E (query (\<lambda>now d. Inr (visible_note uid nid d))))"

definition list_notes :: "env \<Rightarrow> uuid \<Rightarrow> (world, CoreError, Note list) act" where
  "list_notes E uid =
     map_err (database_error E) (run_stmt E (query (\<lambda>now d. Inr (visible_notes uid d))))"

definition create_note :: "env \<Rightarrow> Note \<Rightarrow> (world, CoreError, Note) act" where
  "create_note E n = map_err (database_error E) (run_stmt E (sql_insert_note n))"

definition update_note :: "env \<Rightarrow> Note \<Rightarrow> (world, CoreError, Note) act" where
  "update_note E n =
     and_then (tick (utc_now E)) (\<lambda>ts.
       map_err (database_error E) (run_stmt E (sql_update_note n ts)))"

definition delete_note :: "env \<Rightarrow> uuid \<Rightarrow> uuid \<Rightarrow> (world, CoreError, unit) act" where
  "delete_note E uid nid = map_err (database_error E) (run_stmt E (sql_delete_note uid nid))"

text \<open>\<open>impl NoteStore for PgNyrexStore\<close>\<close>

definition pg_note_store :: "env \<Rightarrow> world NoteStore" where
  "pg_note_store E =
     \<lparr>ns_get_note = get_note E, ns_list_notes = list_notes E, ns_create_note = create_note E,
      ns_update_note = update_note E, ns_delete_note = delete_note E\<rparr>"

section \<open>Well-formedness\<close>

lemma insert_note_inv [intro]: "stmt_effect (preserves db_inv) (sql_insert_note n)"
  by (rule stmt_effectI)
    (auto simp: preserves_def sql_insert_note_def Let_def
      intro!: db_inv_insert_note split: sum.splits if_splits)

lemma update_note_inv [intro]: "stmt_effect (preserves db_inv) (sql_update_note n ts)"
  by (rule stmt_effectI)
    (auto simp: preserves_def sql_update_note_def Let_def
      intro!: db_inv_update_notes split: sum.splits option.splits)

lemma delete_note_inv [intro]: "stmt_effect (preserves db_inv) (sql_delete_note uid nid)"
  by (rule stmt_effectI)
    (auto simp: preserves_def sql_delete_note_def intro!: db_inv_update_notes)

lemmas note_store_defs = get_note_def list_notes_def create_note_def update_note_def delete_note_def

lemma note_store_inv:
  "effect (on_db (preserves db_inv)) (get_note E uid nid)"
  "effect (on_db (preserves db_inv)) (list_notes E uid)"
  "effect (on_db (preserves db_inv)) (create_note E n)"
  "effect (on_db (preserves db_inv)) (update_note E n)"
  "effect (on_db (preserves db_inv)) (delete_note E uid nid)"
  unfolding note_store_defs by (intro inv.db_effect_intros inv.stmt_effect_query
      insert_note_inv update_note_inv delete_note_inv)+

section \<open>The contract of NoteStore\<close>

text \<open>
  \<open>view s u i\<close> is the note with id \<open>i\<close> that the store shows to user \<open>u\<close>. The contract says what
  each operation answers and what it does to the view when it succeeds.
\<close>

locale note_store =
  fixes wf :: "'s \<Rightarrow> bool"
    and view :: "'s \<Rightarrow> uuid \<Rightarrow> uuid \<Rightarrow> Note option"
    and get :: "uuid \<Rightarrow> uuid \<Rightarrow> ('s, CoreError, Note option) act"
    and list :: "uuid \<Rightarrow> ('s, CoreError, Note list) act"
    and create :: "Note \<Rightarrow> ('s, CoreError, Note) act"
    and update :: "Note \<Rightarrow> ('s, CoreError, Note) act"
    and delete :: "uuid \<Rightarrow> uuid \<Rightarrow> ('s, CoreError, unit) act"
  assumes get_law: "wf s \<Longrightarrow> get u i s = (Inr x, s') \<Longrightarrow> wf s' \<and> x = view s u i \<and> view s' = view s"
    and list_law: "wf s \<Longrightarrow> list u s = (Inr ns, s') \<Longrightarrow>
      wf s' \<and> view s' = view s \<and> distinct ns \<and> set ns = {n. \<exists>i. view s u i = Some n}"
    and create_law: "wf s \<Longrightarrow> create n s = (Inr r, s') \<Longrightarrow>
      wf s' \<and> (\<forall>u i. view s' u i =
        (if u = n_user_id n \<and> i = n_id n then Some r else view s u i))"
    and update_law: "wf s \<Longrightarrow> update n s = (Inr r, s') \<Longrightarrow>
      wf s' \<and> (\<forall>u i. view s' u i =
        (if u = n_user_id n \<and> i = n_id n \<and> view s u i \<noteq> None then Some r else view s u i))"
    and delete_law: "wf s \<Longrightarrow> delete u i s = (Inr z, s') \<Longrightarrow>
      wf s' \<and> (\<forall>v j. view s' v j = (if v = u \<and> j = i then None else view s v j))"
begin

lemma create_then_get:
  assumes "wf s" and "create n s = (Inr r, s1)" and "get (n_user_id n) (n_id n) s1 = (Inr x, s2)"
  shows "x = Some r"
  using create_law [OF assms(1,2)] get_law [OF _ assms(3)] by simp

lemma delete_then_get:
  assumes "wf s" and "delete u i s = (Inr z, s1)" and "get u i s1 = (Inr x, s2)"
  shows "x = None"
  using delete_law [OF assms(1,2)] get_law [OF _ assms(3)] by simp

lemma delete_then_list:
  assumes "wf s" and "delete u i s = (Inr z, s1)" and "list u s1 = (Inr ns, s2)"
    and key: "\<And>j m. view s u j = Some m \<Longrightarrow> n_id m = j"
  shows "i \<notin> n_id ` set ns"
  using delete_law [OF assms(1,2)] list_law [OF _ assms(3)] key by auto

lemma update_deleted_stays_hidden:
  assumes "wf s" and "delete u i s = (Inr z, s1)" and "update n s1 = (Inr r, s2)"
    and "get u i s2 = (Inr x, s3)"
  shows "x = None"
proof -
  have s1: "wf s1" "view s1 u i = None" using delete_law [OF assms(1,2)] by auto
  then have "wf s2 \<and> view s2 u i = None" using update_law [OF s1(1) assms(3)] by auto
  then show ?thesis using get_law [OF _ assms(4)] by auto
qed

text \<open>No operation of one user changes what another user sees.\<close>

lemma create_isolation:
  "wf s \<Longrightarrow> create n s = (Inr r, s') \<Longrightarrow> v \<noteq> n_user_id n \<Longrightarrow> view s' v j = view s v j"
  by (drule (1) create_law) simp

lemma update_isolation:
  "wf s \<Longrightarrow> update n s = (Inr r, s') \<Longrightarrow> v \<noteq> n_user_id n \<Longrightarrow> view s' v j = view s v j"
  by (drule (1) update_law) simp

lemma delete_isolation:
  "wf s \<Longrightarrow> delete u i s = (Inr z, s') \<Longrightarrow> v \<noteq> u \<Longrightarrow> view s' v j = view s v j"
  by (drule (1) delete_law) simp

end

section \<open>The PostgreSQL store keeps the contract\<close>

lemma visible_note_alt:
  "db_inv d \<Longrightarrow> visible_note u i d =
    (case tbl_find n_id i (db_notes d) of None \<Rightarrow> None
     | Some r \<Rightarrow> if n_user_id r = u \<and> n_deleted_at r = None then Some r else None)"
  unfolding visible_note_def
  by (subst find_keyed [where key = n_id and k = i])
    (auto simp: db_inv_def split: option.split dest: tbl_find_SomeD)

lemma own_row_find:
  "db_inv d \<Longrightarrow> find (own_row u i) (db_notes d) =
    (case tbl_find n_id i (db_notes d) of None \<Rightarrow> None
     | Some r \<Rightarrow> if n_user_id r = u then Some r else None)"
  by (subst find_keyed [where key = n_id and k = i])
    (auto simp: db_inv_def own_row_def split: option.split dest: tbl_find_SomeD)

lemma visible_note_update:
  assumes "db_inv d" and "\<And>r. n_id (f r) = n_id r \<and> n_user_id (f r) = n_user_id r"
  shows "visible_note v j (d\<lparr>db_notes := tbl_update (own_row u i) f (db_notes d)\<rparr>) =
    (if v = u \<and> j = i then
       (case find (own_row u i) (db_notes d) of None \<Rightarrow> None
        | Some r \<Rightarrow> if n_deleted_at (f r) = None then Some (f r) else None)
     else visible_note v j d)"
proof -
  let ?d = "d\<lparr>db_notes := tbl_update (own_row u i) f (db_notes d)\<rparr>"
  have inv': "db_inv ?d" using assms by (intro db_inv_update_notes) auto
  have key: "n_id r = j" if "tbl_find n_id j (db_notes d) = Some r" for r
    using tbl_find_SomeD [OF that] by simp
  have found: "tbl_find n_id j (tbl_update (own_row u i) f (db_notes d)) =
      map_option (\<lambda>r. if own_row u i r then f r else r) (tbl_find n_id j (db_notes d))"
    using assms(2) by (simp add: tbl_find_update)
  show ?thesis
  proof (cases "tbl_find n_id j (db_notes d)")
    case None
    then show ?thesis
      by (auto simp: visible_note_alt [OF inv'] visible_note_alt [OF assms(1)] found
          own_row_find [OF assms(1)])
  next
    case (Some r)
    with key [OF Some] assms(2) show ?thesis
      by (auto simp: visible_note_alt [OF inv'] visible_note_alt [OF assms(1)] found
          own_row_find [OF assms(1)] own_row_def)
  qed
qed

lemma set_visible_notes:
  "set (visible_notes u d) = {r \<in> set (db_notes d). n_user_id r = u \<and> n_deleted_at r = None}"
  by (auto simp: visible_notes_def)

lemma visible_note_Some_iff:
  assumes "db_inv d"
  shows "visible_note u i d = Some r \<longleftrightarrow>
    r \<in> set (db_notes d) \<and> n_id r = i \<and> n_user_id r = u \<and> n_deleted_at r = None"
proof -
  have "visible_note u i d = Some r \<longleftrightarrow>
      tbl_find n_id i (db_notes d) = Some r \<and> n_user_id r = u \<and> n_deleted_at r = None"
    by (auto simp: visible_note_alt [OF assms] split: option.split)
  then show ?thesis
    using assms by (auto simp: db_inv_def tbl_find_Some_iff)
qed

lemma create_note_view:
  assumes "db_inv d" and "sql_insert_note n now d = Inr (r, d')"
  shows "visible_note u i d' = (if u = n_user_id n \<and> i = n_id n then Some r else visible_note u i d)"
proof -
  have "db_inv d'" using insert_note_inv assms by (auto simp: stmt_effect_def preserves_def)
  moreover from assms(2) have d': "d' = d\<lparr>db_notes := db_notes d @ [r]\<rparr>" and "n_id r = n_id n"
    "n_user_id r = n_user_id n" "n_deleted_at r = None" "n_id n \<notin> note_ids d"
    by (auto simp: sql_insert_note_def Let_def split: sum.splits if_splits)
  moreover from this(5) have "tbl_find n_id (n_id n) (db_notes d) = None"
    by (simp add: tbl_find_None_iff note_ids_def)
  ultimately show ?thesis
    using assms(1) by (auto simp: visible_note_alt tbl_find_append split: option.split)
qed

lemma update_note_view:
  assumes "db_inv d" and "sql_update_note n ts now d = Inr (r, d')"
  shows "visible_note u i d' =
    (if u = n_user_id n \<and> i = n_id n \<and> visible_note u i d \<noteq> None then Some r else visible_note u i d)"
proof -
  from assms(2) obtain fmt tgs old f where
    old: "find (own_row (n_user_id n) (n_id n)) (db_notes d) = Some old" and r: "r = f old"
    and d': "d' = d\<lparr>db_notes := tbl_update (own_row (n_user_id n) (n_id n)) f (db_notes d)\<rparr>"
    and f: "f = (\<lambda>r. r\<lparr>n_title_cipher := n_title_cipher n, n_content_cipher := n_content_cipher n,
               n_nonce := n_nonce n, n_version := n_version n, n_format := fmt, n_tags := tgs,
               n_updated_at := ts\<rparr>)"
    by (auto simp: sql_update_note_def Let_def split: sum.splits option.splits)
  have keys: "n_id (f x) = n_id x \<and> n_user_id (f x) = n_user_id x" for x by (simp add: f)
  have deleted: "n_deleted_at (f old) = n_deleted_at old" by (simp add: f)
  have "visible_note (n_user_id n) (n_id n) d = (if n_deleted_at old = None then Some old else None)"
    using old assms(1) by (auto simp: own_row_find visible_note_alt split: option.splits if_splits)
  then show ?thesis
    unfolding d' visible_note_update [OF assms(1) keys] using old deleted r by auto
qed

lemma delete_note_view:
  assumes "db_inv d" and "sql_delete_note u i now d = Inr (z, d')"
  shows "visible_note v j d' = (if v = u \<and> j = i then None else visible_note v j d)"
proof -
  have "d' = d\<lparr>db_notes := tbl_update (own_row u i) (\<lambda>r. r\<lparr>n_deleted_at := Some now\<rparr>) (db_notes d)\<rparr>"
    using assms(2) by (simp add: sql_delete_note_def)
  then show ?thesis
    using assms(1) by (simp add: visible_note_update split: option.split)
qed

lemma note_store_runs:
  "get_note E u i w = (Inr x, w') \<Longrightarrow> x = visible_note u i (w_db w) \<and> w_db w' = w_db w"
  "list_notes E u w = (Inr ns, w') \<Longrightarrow> ns = visible_notes u (w_db w) \<and> w_db w' = w_db w"
  "create_note E n w = (Inr r, w') \<Longrightarrow> \<exists>now. sql_insert_note n now (w_db w) = Inr (r, w_db w')"
  "update_note E n w = (Inr r, w') \<Longrightarrow> \<exists>ts now. sql_update_note n ts now (w_db w) = Inr (r, w_db w')"
  "delete_note E u i w = (Inr z, w') \<Longrightarrow> \<exists>now. sql_delete_note u i now (w_db w) = Inr (z, w_db w')"
  unfolding note_store_defs
  by (auto elim!: and_then_InrE map_err_InrE run_stmt_InrE simp: query_def tick_run) blast

interpretation pg: note_store "\<lambda>w. db_inv (w_db w)" "\<lambda>w u i. visible_note u i (w_db w)"
    "get_note E" "list_notes E" "create_note E" "update_note E" "delete_note E" for E
proof
  fix s s' :: world and u i r
  assume "db_inv (w_db s)" "get_note E u i s = (Inr r, s')"
  then show "db_inv (w_db s') \<and> r = visible_note u i (w_db s) \<and>
      (\<lambda>u i. visible_note u i (w_db s')) = (\<lambda>u i. visible_note u i (w_db s))"
    using note_store_runs(1) by simp
next
  fix s s' :: world and u ns
  assume s: "db_inv (w_db s)" "list_notes E u s = (Inr ns, s')"
  moreover from this(1) have "distinct (visible_notes u (w_db s))"
    by (auto simp: visible_notes_def db_inv_def distinct_map)
  ultimately show "db_inv (w_db s') \<and>
      (\<lambda>u i. visible_note u i (w_db s')) = (\<lambda>u i. visible_note u i (w_db s)) \<and>
      distinct ns \<and> set ns = {n. \<exists>i. visible_note u i (w_db s) = Some n}"
    using note_store_runs(2) [OF s(2)] by (auto simp: set_visible_notes visible_note_Some_iff)
next
  fix s s' :: world and n r
  assume s: "db_inv (w_db s)" "create_note E n s = (Inr r, s')"
  then show "db_inv (w_db s') \<and> (\<forall>u i. visible_note u i (w_db s') =
      (if u = n_user_id n \<and> i = n_id n then Some r else visible_note u i (w_db s)))"
    using note_store_runs(3) [OF s(2)] note_store_inv(3) create_note_view
    by (auto simp: effect_def on_db_def preserves_def) (metis snd_conv)+
next
  fix s s' :: world and n r
  assume s: "db_inv (w_db s)" "update_note E n s = (Inr r, s')"
  then show "db_inv (w_db s') \<and> (\<forall>u i. visible_note u i (w_db s') =
      (if u = n_user_id n \<and> i = n_id n \<and> visible_note u i (w_db s) \<noteq> None then Some r
       else visible_note u i (w_db s)))"
    using note_store_runs(4) [OF s(2)] note_store_inv(4) update_note_view
    by (auto simp: effect_def on_db_def preserves_def) (metis snd_conv)+
next
  fix s s' :: world and u i z
  assume s: "db_inv (w_db s)" "delete_note E u i s = (Inr z, s')"
  then show "db_inv (w_db s') \<and> (\<forall>v j. visible_note v j (w_db s') =
      (if v = u \<and> j = i then None else visible_note v j (w_db s)))"
    using note_store_runs(5) [OF s(2)] note_store_inv(5) delete_note_view
    by (auto simp: effect_def on_db_def preserves_def) (metis snd_conv)+
qed

text \<open>The trait's implementation, as a value, keeps the contract.\<close>

lemma pg_note_store_contract:
  "note_store (\<lambda>w. db_inv (w_db w)) (\<lambda>w u i. visible_note u i (w_db w))
     (ns_get_note (pg_note_store E)) (ns_list_notes (pg_note_store E))
     (ns_create_note (pg_note_store E)) (ns_update_note (pg_note_store E))
     (ns_delete_note (pg_note_store E))"
  unfolding pg_note_store_def NoteStore.simps by (rule pg.note_store_axioms)

end
