(* ===== verification/Demo_Env.thy ===== *)
theory Demo_Env
  imports Database
begin

text \<open>
  A concrete environment in which every library function is computable and the documented laws
  of the libraries hold. The witnesses of the properties are evaluated in it.
\<close>

definition demo_db_error_text :: "db_error \<Rightarrow> string" where
  "demo_db_error_text e = (case e of
     UniqueViolation c \<Rightarrow> ''duplicate key value violates unique constraint '' @ c
   | ForeignKeyViolation c \<Rightarrow> ''insert or update violates foreign key constraint '' @ c
   | ValueTooLong n \<Rightarrow> ''value too long''
   | InvalidByteSequence \<Rightarrow> ''invalid byte sequence''
   | RowNotFound \<Rightarrow> ''no rows returned''
   | ConnectionError m \<Rightarrow> m)"

definition demo_uuid_parse :: "string \<Rightarrow> uuid option" where
  "demo_uuid_parse s =
     (if length s = 128 \<and> set s \<subseteq> {CHR ''0'', CHR ''1''} then Some (word_of_chars s) else None)"

definition demo_jwt_encode :: "jwt_header \<Rightarrow> TokenClaims \<Rightarrow> bytes \<Rightarrow> string + string" where
  "demo_jwt_encode h c key =
     (if key = [] then Inl ''InvalidEddsaKey''
      else Inr (word_bits (tc_iat c) @ word_bits (tc_exp c) @ tc_sub c))"

definition demo_jwt_decode :: "jwt_algorithm \<Rightarrow> int \<Rightarrow> string \<Rightarrow> bytes \<Rightarrow> string + TokenClaims" where
  "demo_jwt_decode alg now s key =
     (let c = \<lparr>tc_sub = drop 128 s, tc_iat = word_of_chars (take 64 s),
               tc_exp = word_of_chars (take 64 (drop 64 s))\<rparr>
      in if length s < 128 then Inl ''InvalidToken''
         else if uint (tc_exp c) + 60 < now then Inl ''ExpiredSignature'' else Inr c)"

definition demo_env :: env where
  "demo_env =
     \<lparr>utc_now = (\<lambda>t. int t * 1000000), pg_now = (\<lambda>t. int t * 1000000),
      new_v4 = (\<lambda>t. of_nat (100 + t)), os_salt = (\<lambda>t. ''salt''), fault_at = (\<lambda>t. Healthy),
      db_error_text = demo_db_error_text, uuid_to_string = word_bits,
      uuid_parse_str = demo_uuid_parse,
      datetime_to_string = (\<lambda>t. word_bits (word_of_int t :: 64 word)),
      datetime_from_string = (\<lambda>s. Some (sint (word_of_chars s :: 64 word))), argon2_hash = (\<lambda>pw salt. Inr (''$argon2id$'' @ pw)),
      phc_parse = (\<lambda>h. if prefix ''$argon2id$'' h then Inr h else Inl ''invalid hash''),
      argon2_verify = (\<lambda>pw h. h = ''$argon2id$'' @ pw), blake3_hex = (\<lambda>s. CHR ''#'' # s),
      jwt_encode = demo_jwt_encode, jwt_decode = demo_jwt_decode,
      header_to_str = (\<lambda>bs. Some (map (\<lambda>b. char_of (unat b)) bs)), overflow_checks = True\<rparr>"

lemma demo_env_simps [simp]:
  "utc_now demo_env t = int t * 1000000"
  "pg_now demo_env t = int t * 1000000"
  "new_v4 demo_env t = of_nat (100 + t)"
  "os_salt demo_env t = ''salt''"
  "fault_at demo_env t = Healthy"
  "db_error_text demo_env = demo_db_error_text"
  "uuid_to_string demo_env = word_bits"
  "uuid_parse_str demo_env = demo_uuid_parse"
  "datetime_to_string demo_env d = word_bits (word_of_int d :: 64 word)"
  "datetime_from_string demo_env s = Some (sint (word_of_chars s :: 64 word))"
  "argon2_hash demo_env pw salt = Inr (''$argon2id$'' @ pw)"
  "phc_parse demo_env h = (if prefix ''$argon2id$'' h then Inr h else Inl ''invalid hash'')"
  "argon2_verify demo_env pw h \<longleftrightarrow> h = ''$argon2id$'' @ pw"
  "blake3_hex demo_env s = CHR ''#'' # s"
  "jwt_encode demo_env = demo_jwt_encode"
  "jwt_decode demo_env = demo_jwt_decode"
  "header_to_str demo_env bs = Some (map (\<lambda>b. char_of (unat b)) bs)"
  "overflow_checks demo_env = True"
  by (simp_all add: demo_env_def)

text \<open>The demonstration environment with the server unreachable at one tick.\<close>

definition demo_env_fault :: "nat \<Rightarrow> env" where
  "demo_env_fault t = demo_env\<lparr>fault_at := (\<lambda>i. if i = t then Unreachable ''timeout'' else Healthy)\<rparr>"

lemma demo_uuid_roundtrip [simp]: "demo_uuid_parse (word_bits u) = Some u"
proof -
  have "set (word_bits u) \<subseteq> {CHR ''0'', CHR ''1''}" by (auto simp: word_bits_def)
  then show ?thesis by (simp add: demo_uuid_parse_def)
qed

lemma word_bits_no_nul [simp]: "CHR 0x00 \<notin> set (word_bits w)"
  by (auto simp: word_bits_def)

lemma demo_jwt_roundtrip:
  assumes "demo_jwt_encode h c sk = Inr tok" and "now \<le> uint (tc_exp c) + 60"
  shows "demo_jwt_decode alg now tok pk = Inr c"
proof -
  have tok: "tok = word_bits (tc_iat c) @ word_bits (tc_exp c) @ tc_sub c"
    using assms(1) by (simp add: demo_jwt_encode_def split: if_splits)
  then have "take 64 tok = word_bits (tc_iat c)" "take 64 (drop 64 tok) = word_bits (tc_exp c)"
    "drop 128 tok = tc_sub c" "\<not> length tok < 128"
    by simp_all
  then show ?thesis
    using assms(2) by (simp add: demo_jwt_decode_def Let_def not_less)
qed

text \<open>ASCII text as header bytes, read back by the demonstration environment.\<close>

definition header_bytes :: "string \<Rightarrow> bytes" where
  "header_bytes s = map of_char s"

lemma header_chars [simp]: "map (\<lambda>b. char_of (unat b)) (header_bytes s) = s"
proof -
  have "char_of (unat (of_char c :: 8 word)) = c" for c
  proof -
    have "(of_char c :: 8 word) = of_nat (of_char c)" by (simp add: of_nat_of_char)
    then have "unat (of_char c :: 8 word) = of_char c mod 256"
      by (simp add: unat_of_nat)
    then show ?thesis by simp
  qed
  then show ?thesis by (simp add: header_bytes_def comp_def)
qed

lemma demo_header: "header_to_str demo_env (header_bytes s) = Some s"
  by simp

section \<open>A small database\<close>

definition demo_user :: User where
  "demo_user = \<lparr>u_id = 1, u_email = ''ann@x'', u_password_hash = ''$argon2id$pw'',
     u_display_name = None, u_sso_provider = None, u_sso_sub = None, u_created_at = 0,
     u_updated_at = 0\<rparr>"

definition demo_note :: Note where
  "demo_note = \<lparr>n_id = 7, n_user_id = 1, n_title_cipher = [1], n_content_cipher = [2],
     n_nonce = [3], n_version = 1, n_format = ''markdown'', n_tags = [], n_created_at = 0,
     n_updated_at = 0, n_deleted_at = None\<rparr>"

definition demo_db :: db where
  "demo_db = \<lparr>db_users = [demo_user, demo_user\<lparr>u_id := 2, u_email := ''bob@x''\<rparr>],
     db_notes = [demo_note], db_vault_entries = [], db_refresh_tokens = []\<rparr>"

definition demo_world :: world where
  "demo_world = \<lparr>w_db = demo_db, w_tick = 0\<rparr>"

lemmas demo_defs = demo_world_def demo_db_def demo_user_def demo_note_def

lemma demo_inv [simp]: "db_inv (w_db demo_world)"
  by (simp add: demo_defs db_inv_def user_ids_def note_ids_def)

end
