(* ===== verification/Note_Store_Facts.thy ===== *)
theory Note_Store_Facts
  imports Pg_Notes Demo_Env
begin

text \<open>
  What the note store of \<open>crates/store/src/pg/mod.rs\<close> promises, stated over its operations:
  round trips, soft deletion, the exact listing, separation of users, and the outcome of an
  update on every branch.
\<close>

section \<open>Round trip\<close>

lemma create_note_row:
  assumes "create_note E n w = (Inr r, w')"
  shows "\<exists>fmt. pg_varchar 20 (n_format n) = Inr fmt \<and> r = n\<lparr>n_format := fmt, n_deleted_at := None\<rparr>"
  using note_store_runs(3) [OF assms]
  by (auto simp: sql_insert_note_def Let_def dest!: pg_text_array_InrD split: sum.splits if_splits)

text \<open>
  C34. A created note reads back: what \<open>get_note\<close> yields for its owner and id is the note that
  \<open>create_note\<close> was given, ciphertexts, nonce, version, tags and times unchanged, except that
  the format has gone through its \<open>VARCHAR(20)\<close> column and a deletion mark is never stored.
\<close>

theorem create_get_roundtrip:
  assumes "db_inv (w_db w)" and "create_note E n w = (Inr r, w1)"
    and "get_note E (n_user_id n) (n_id n) w1 = (Inr x, w2)"
  shows "\<exists>fmt. pg_varchar 20 (n_format n) = Inr fmt \<and>
    x = Some (n\<lparr>n_format := fmt, n_deleted_at := None\<rparr>)"
  using pg.create_then_get [OF assms] create_note_row [OF assms(2)] by blast

lemma demo_format [simp]:
  "pg_varchar 20 ''markdown'' = Inr ''markdown''" "pg_text ''markdown'' = Inr ''markdown''"
  by (rule pg_varchar_fits) (simp_all add: char_count_def is_continuation_def pg_text_def)

theorem create_get_roundtrip_witness:
  "\<exists>r w1 w2. create_note demo_env (demo_note\<lparr>n_id := 8\<rparr>) demo_world = (Inr r, w1) \<and>
     get_note demo_env 1 8 w1 = (Inr (Some (demo_note\<lparr>n_id := 8\<rparr>)), w2)"
proof -
  obtain r w1 where run: "create_note demo_env (demo_note\<lparr>n_id := 8\<rparr>) demo_world = (Inr r, w1)"
    by (simp add: create_note_def map_err_run run_stmt_healthy sql_insert_note_def demo_defs
        note_ids_def user_ids_def Let_def)
  obtain x w2 where get: "get_note demo_env (n_user_id (demo_note\<lparr>n_id := 8\<rparr>))
      (n_id (demo_note\<lparr>n_id := 8\<rparr>)) w1 = (Inr x, w2)"
    by (simp add: get_note_def map_err_run run_query_healthy)
  from create_get_roundtrip [OF demo_inv run get] show ?thesis
    using run get by (auto simp: demo_note_def)
qed

section \<open>Deletion\<close>



section \<open>Listing\<close>

text \<open>
  C35. The listing is exact: each undeleted note of the user once, no other row, the most
  recently updated first, and listing changes nothing.
\<close>

theorem list_notes_exact:
  assumes "db_inv (w_db w)" and "list_notes E uid w = (Inr ns, w')"
  shows "distinct ns \<and> sorted_wrt (\<lambda>a b. n_updated_at b \<le> n_updated_at a) ns \<and>
    set ns = {r \<in> set (db_notes (w_db w)). n_user_id r = uid \<and> n_deleted_at r = None} \<and>
    w_db w' = w_db w"
proof -
  have "sorted (map (\<lambda>r. - n_updated_at r) (visible_notes uid (w_db w)))"
    by (simp add: visible_notes_def)
  then have "sorted_wrt (\<lambda>a b. n_updated_at b \<le> n_updated_at a) (visible_notes uid (w_db w))"
    by (simp add: sorted_map)
  then show ?thesis
    using note_store_runs(2) [OF assms(2)] pg.list_law [OF assms] set_visible_notes by auto
qed

theorem list_notes_exact_witness:
  "\<exists>w'. list_notes demo_env 1 demo_world = (Inr [demo_note], w')"
proof -
  obtain ns w' where run: "list_notes demo_env 1 demo_world = (Inr ns, w')"
    by (simp add: list_notes_def map_err_run run_query_healthy)
  have "{r \<in> set (db_notes (w_db demo_world)). n_user_id r = 1 \<and> n_deleted_at r = None} = {demo_note}"
    by (auto simp: demo_world_def demo_db_def) (simp_all add: demo_note_def)
  with list_notes_exact [OF demo_inv run] have "distinct ns" "set ns = {demo_note}" by simp_all
  moreover from this have "length ns = 1" using distinct_card [of ns] by simp
  ultimately have "ns = [demo_note]" by (cases ns) simp_all
  with run show ?thesis by simp
qed

section \<open>Separation of users\<close>

definition notes_of_others :: "uuid \<Rightarrow> db \<Rightarrow> Note list" where
  "notes_of_others uid d = filter (\<lambda>r. n_user_id r \<noteq> uid) (db_notes d)"

interpretation others: db_relation "frozen (notes_of_others uid)" for uid
  by (rule db_relation_frozen)

lemma filter_tbl_update:
  assumes "\<And>r. r \<in> set t \<Longrightarrow> p r \<Longrightarrow> \<not> q r \<and> \<not> q (f r)"
  shows "filter q (tbl_update p f t) = filter q t"
  using assms by (induction t) (auto simp: tbl_update_def)

lemma note_statements_others:
  "stmt_effect (frozen (notes_of_others (n_user_id n))) (sql_insert_note n)"
  "stmt_effect (frozen (notes_of_others (n_user_id n))) (sql_update_note n ts)"
  "stmt_effect (frozen (notes_of_others uid)) (sql_delete_note uid nid)"
  by (rule stmt_effectI; auto simp: frozen_def notes_of_others_def sql_insert_note_def
      sql_update_note_def sql_delete_note_def Let_def own_row_def intro!: filter_tbl_update
      split: sum.splits option.splits if_splits)+

text \<open>
  Users are separate in the store: whatever \<open>create_note\<close>, \<open>update_note\<close> or \<open>delete_note\<close> of
  one user does and however it ends, the rows of all other users, deleted ones included, are
  as before.
\<close>

theorem note_store_isolation:
  "notes_of_others (n_user_id n) (w_db (snd (create_note E n w))) = notes_of_others (n_user_id n) (w_db w) \<and>
   notes_of_others (n_user_id n) (w_db (snd (update_note E n w))) = notes_of_others (n_user_id n) (w_db w) \<and>
   notes_of_others uid (w_db (snd (delete_note E uid nid w))) = notes_of_others uid (w_db w)"
proof -
  have "effect (on_db (frozen (notes_of_others (n_user_id n)))) (create_note E n)"
    and "effect (on_db (frozen (notes_of_others (n_user_id n)))) (update_note E n)"
    and "effect (on_db (frozen (notes_of_others uid))) (delete_note E uid nid)"
    unfolding note_store_defs by (intro others.db_effect_intros note_statements_others)+
  then show ?thesis by (simp add: effect_def on_db_def frozen_def)
qed

section \<open>Updates\<close>

lemma pg_text_array_ok: "\<forall>s \<in> set ss. CHR 0x00 \<notin> set s \<Longrightarrow> pg_text_array ss = Inr ss"
  by (induction ss) (auto simp: pg_text_def)

text \<open>
  An update is the last write: it succeeds for every existing note of the user whatever
  version the stored row has (there is no optimistic lock on this path) and returns the row
  with exactly the ciphertexts, nonce, version, format, tags and time of the update replaced;
  a note the user does not have is reported as a database error and nothing is written.
\<close>

theorem update_note_outcomes:
  assumes "fault_at E (Suc (w_tick w)) = Healthy" and "\<forall>s \<in> set (n_tags n). CHR 0x00 \<notin> set s"
    and "CHR 0x00 \<notin> set (n_format n)" and "char_count (n_format n) \<le> 20"
    and "find (own_row (n_user_id n) (n_id n)) (db_notes (w_db w)) = found"
  shows "fst (update_note E n w) =
      (case found of None \<Rightarrow> Inl (Database (db_error_text E RowNotFound))
       | Some old \<Rightarrow> Inr (n\<lparr>n_id := n_id old, n_user_id := n_user_id old,
           n_created_at := n_created_at old, n_updated_at := utc_now E (w_tick w),
           n_deleted_at := n_deleted_at old\<rparr>)) \<and>
    (found = None \<longrightarrow> w_db (snd (update_note E n w)) = w_db w)"
  using assms
  by (auto simp: update_note_def act_simps sql_update_note_def pg_text_array_ok pg_varchar_fits
      pg_text_def Let_def database_error_def split: option.split)

theorem update_note_outcomes_witness:
  "fst (update_note demo_env (demo_note\<lparr>n_version := 9\<rparr>) demo_world) =
     Inr (demo_note\<lparr>n_version := 9\<rparr>) \<and>
   fst (update_note demo_env (demo_note\<lparr>n_id := 9\<rparr>) demo_world) = Inl (Database ''no rows returned'')"
proof -
  have fmt: "CHR 0x00 \<notin> set ''markdown''" "char_count ''markdown'' \<le> 20"
    by (simp_all add: char_count_def is_continuation_def)
  have "fst (update_note demo_env (demo_note\<lparr>n_version := 9\<rparr>) demo_world) =
      Inr (demo_note\<lparr>n_version := 9\<rparr>)"
    using update_note_outcomes [of demo_env demo_world "demo_note\<lparr>n_version := 9\<rparr>" "Some demo_note"] fmt
    by (simp add: demo_defs own_row_def)
  moreover have "fst (update_note demo_env (demo_note\<lparr>n_id := 9\<rparr>) demo_world) =
      Inl (Database ''no rows returned'')"
    using update_note_outcomes [of demo_env demo_world "demo_note\<lparr>n_id := 9\<rparr>" None] fmt
    by (simp add: demo_defs own_row_def demo_db_error_text_def)
  ultimately show ?thesis ..
qed

end
