(* ===== verification/Pg_Auth.thy ===== *)
theory Pg_Auth
  imports Pg_Notes Demo_Env
begin

text \<open>
  \<open>PgAuthStore\<close> of \<open>crates/store/src/pg/auth.rs\<close>: users and refresh tokens. The contract that
  the session handlers rely on, a store of single-use tokens, is the locale \<open>token_store\<close>; the
  interpretation \<open>pg_tokens\<close> discharges it for the PostgreSQL store.
\<close>

section \<open>Users\<close>

definition sql_insert_user :: "uuid \<Rightarrow> string \<Rightarrow> string \<Rightarrow> string option \<Rightarrow> User stmt" where
  "sql_insert_user uid email password_hash display_name = (\<lambda>now d.
     case pg_varchar 255 email of Inl e \<Rightarrow> Inl e
     | Inr em \<Rightarrow> (case pg_text password_hash of Inl e \<Rightarrow> Inl e
     | Inr ph \<Rightarrow> (case pg_nullable (pg_varchar 255) display_name of Inl e \<Rightarrow> Inl e
     | Inr dn \<Rightarrow>
        if uid \<in> user_ids d then Inl (UniqueViolation ''users_pkey'')
        else if em \<in> u_email ` set (db_users d) then Inl (UniqueViolation ''users_email_key'')
        else (let row = \<lparr>u_id = uid, u_email = em, u_password_hash = ph, u_display_name = dn,
                u_sso_provider = None, u_sso_sub = None, u_created_at = now, u_updated_at = now\<rparr>
              in Inr (row, d\<lparr>db_users := db_users d @ [row]\<rparr>)))))"

definition user_exists_text :: "string \<Rightarrow> string" where
  "user_exists_text email =
     ''User with email '' @ [CHR 0x27] @ email @ [CHR 0x27] @ '' already exists''"

definition create_user_error :: "env \<Rightarrow> string \<Rightarrow> db_error \<Rightarrow> CoreError" where
  "create_user_error E email e =
     (if contains (db_error_text E e) ''duplicate key'' then Conflict (user_exists_text email)
      else Database (db_error_text E e))"

definition create_user ::
    "env \<Rightarrow> uuid \<Rightarrow> string \<Rightarrow> string \<Rightarrow> string option \<Rightarrow> (world, CoreError, User) act" where
  "create_user E uid email password_hash display_name =
     map_err (create_user_error E email)
       (run_stmt E (sql_insert_user uid email password_hash display_name))"

definition user_by_email :: "string \<Rightarrow> db \<Rightarrow> User option" where
  "user_by_email email d = find (\<lambda>r. u_email r = email) (db_users d)"

definition sql_select_user :: "string \<Rightarrow> datetime \<Rightarrow> db \<Rightarrow> db_error + User option" where
  "sql_select_user email now d =
     (case pg_text email of Inl e \<Rightarrow> Inl e | Inr em \<Rightarrow> Inr (user_by_email em d))"

definition get_user_by_email :: "env \<Rightarrow> string \<Rightarrow> (world, CoreError, User option) act" where
  "get_user_by_email E email = map_err (database_error E) (run_stmt E (query (sql_select_user email)))"

section \<open>Refresh tokens\<close>

definition sql_insert_token :: "RefreshToken \<Rightarrow> unit stmt" where
  "sql_insert_token tok = (\<lambda>now d.
     case pg_text (rt_token_hash tok) of Inl e \<Rightarrow> Inl e
     | Inr h \<Rightarrow>
        if rt_id tok \<in> rt_id ` set (db_refresh_tokens d)
        then Inl (UniqueViolation ''refresh_tokens_pkey'')
        else if rt_user_id tok \<notin> user_ids d
        then Inl (ForeignKeyViolation ''refresh_tokens_user_id_fkey'')
        else Inr ((), d\<lparr>db_refresh_tokens := db_refresh_tokens d @ [tok\<lparr>rt_token_hash := h\<rparr>]\<rparr>))"

definition store_refresh_token :: "env \<Rightarrow> RefreshToken \<Rightarrow> (world, CoreError, unit) act" where
  "store_refresh_token E tok = map_err (database_error E) (run_stmt E (sql_insert_token tok))"

definition valid_token :: "string \<Rightarrow> datetime \<Rightarrow> RefreshToken \<Rightarrow> bool" where
  "valid_token h now r \<longleftrightarrow> rt_token_hash r = h \<and> \<not> rt_revoked r \<and> now < rt_expires_at r"

definition sql_select_token :: "string \<Rightarrow> datetime \<Rightarrow> db \<Rightarrow> db_error + RefreshToken option" where
  "sql_select_token token_hash now d =
     (case pg_text token_hash of Inl e \<Rightarrow> Inl e
      | Inr h \<Rightarrow> Inr (find (valid_token h now) (db_refresh_tokens d)))"

definition get_valid_refresh_token ::
    "env \<Rightarrow> string \<Rightarrow> (world, CoreError, RefreshToken option) act" where
  "get_valid_refresh_token E token_hash =
     map_err (database_error E) (run_stmt E (query (sql_select_token token_hash)))"

definition sql_revoke :: "(RefreshToken \<Rightarrow> bool) \<Rightarrow> unit stmt" where
  "sql_revoke p = (\<lambda>now d.
     Inr ((), d\<lparr>db_refresh_tokens :=
       tbl_update p (\<lambda>r. r\<lparr>rt_revoked := True\<rparr>) (db_refresh_tokens d)\<rparr>))"

definition revoke_refresh_token :: "env \<Rightarrow> uuid \<Rightarrow> (world, CoreError, unit) act" where
  "revoke_refresh_token E token_id =
     map_err (database_error E) (run_stmt E (sql_revoke (\<lambda>r. rt_id r = token_id)))"

definition revoke_all_user_tokens :: "env \<Rightarrow> uuid \<Rightarrow> (world, CoreError, unit) act" where
  "revoke_all_user_tokens E user_id =
     map_err (database_error E) (run_stmt E (sql_revoke (\<lambda>r. rt_user_id r = user_id)))"

lemmas auth_store_defs = create_user_def get_user_by_email_def store_refresh_token_def
  get_valid_refresh_token_def revoke_refresh_token_def revoke_all_user_tokens_def

section \<open>Well-formedness\<close>

lemma insert_user_inv [intro]:
  "stmt_effect (preserves db_inv) (sql_insert_user uid email ph dn)"
  by (rule stmt_effectI)
    (auto simp: preserves_def sql_insert_user_def Let_def
      intro!: db_inv_insert_user split: sum.splits if_splits)

lemma insert_token_inv [intro]: "stmt_effect (preserves db_inv) (sql_insert_token tok)"
  by (rule stmt_effectI)
    (auto simp: preserves_def sql_insert_token_def
      intro!: db_inv_insert_token split: sum.splits if_splits)

lemma revoke_inv [intro]: "stmt_effect (preserves db_inv) (sql_revoke p)"
  by (rule stmt_effectI)
    (auto simp: preserves_def sql_revoke_def intro!: db_inv_update_tokens)

lemma auth_store_inv:
  "effect (on_db (preserves db_inv)) (create_user E uid email ph dn)"
  "effect (on_db (preserves db_inv)) (get_user_by_email E email)"
  "effect (on_db (preserves db_inv)) (store_refresh_token E tok)"
  "effect (on_db (preserves db_inv)) (get_valid_refresh_token E h)"
  "effect (on_db (preserves db_inv)) (revoke_refresh_token E i)"
  "effect (on_db (preserves db_inv)) (revoke_all_user_tokens E u)"
  unfolding auth_store_defs by (intro inv.db_effect_intros inv.stmt_effect_query
      insert_user_inv insert_token_inv revoke_inv)+

section \<open>Revocation is final\<close>

text \<open>
  Every token that is in the table stays in it with the same owner, hash and expiry, and once
  revoked it stays revoked.
\<close>

definition token_extends :: "RefreshToken \<Rightarrow> RefreshToken \<Rightarrow> bool" where
  "token_extends r r' \<longleftrightarrow> r' = r \<or> r' = r\<lparr>rt_revoked := True\<rparr>"

definition tokens_grow :: "db \<Rightarrow> db \<Rightarrow> bool" where
  "tokens_grow d d' \<longleftrightarrow>
     (\<forall>r \<in> set (db_refresh_tokens d). \<exists>r' \<in> set (db_refresh_tokens d'). token_extends r r')"

lemma token_extends_trans: "token_extends a b \<Longrightarrow> token_extends b c \<Longrightarrow> token_extends a c"
  by (auto simp: token_extends_def)

interpretation grow: db_relation tokens_grow
proof
  fix c d e :: db
  show "tokens_grow d d" by (auto simp: tokens_grow_def token_extends_def)
  assume cd: "tokens_grow c d" and de: "tokens_grow d e"
  show "tokens_grow c e"
    unfolding tokens_grow_def
  proof
    fix r assume "r \<in> set (db_refresh_tokens c)"
    then obtain r1 where r1: "r1 \<in> set (db_refresh_tokens d)" "token_extends r r1"
      using cd by (auto simp: tokens_grow_def)
    then obtain r2 where "r2 \<in> set (db_refresh_tokens e)" "token_extends r1 r2"
      using de by (auto simp: tokens_grow_def)
    with r1 show "\<exists>r' \<in> set (db_refresh_tokens e). token_extends r r'"
      using token_extends_trans by blast
  qed
qed

lemma tokens_grow_same [simp]: "db_refresh_tokens d' = db_refresh_tokens d \<Longrightarrow> tokens_grow d d'"
  by (auto simp: tokens_grow_def token_extends_def)

lemma insert_user_grow [intro]: "stmt_effect tokens_grow (sql_insert_user uid email ph dn)"
  by (rule stmt_effectI) (auto simp: sql_insert_user_def Let_def split: sum.splits if_splits)

lemma insert_token_grow [intro]: "stmt_effect tokens_grow (sql_insert_token tok)"
  by (rule stmt_effectI)
    (auto simp: sql_insert_token_def tokens_grow_def token_extends_def split: sum.splits if_splits)

lemma revoke_grow [intro]: "stmt_effect tokens_grow (sql_revoke p)"
  by (rule stmt_effectI)
    (auto simp: sql_revoke_def tokens_grow_def token_extends_def set_tbl_update)

section \<open>The contract of the token store\<close>

text \<open>
  \<open>live s h\<close> are the ids of the tokens with hash \<open>h\<close> that have not been revoked. A token is
  only ever found while it is live, revoking ends that for good, storing makes the stored one
  live.
\<close>

locale token_store =
  fixes wf :: "'s \<Rightarrow> bool"
    and live :: "'s \<Rightarrow> string \<Rightarrow> uuid set"
    and find_valid :: "string \<Rightarrow> ('s, CoreError, RefreshToken option) act"
    and store :: "RefreshToken \<Rightarrow> ('s, CoreError, unit) act"
    and revoke :: "uuid \<Rightarrow> ('s, CoreError, unit) act"
  assumes find_law: "wf s \<Longrightarrow> find_valid h s = (Inr x, s') \<Longrightarrow>
      wf s' \<and> live s' = live s \<and> (\<forall>r. x = Some r \<longrightarrow> rt_id r \<in> live s h \<and> rt_token_hash r = h)"
    and store_law: "wf s \<Longrightarrow> store tok s = (Inr z, s') \<Longrightarrow>
      wf s' \<and> (\<forall>h. live s' h = live s h \<union>
        (if rt_token_hash tok = h \<and> \<not> rt_revoked tok then {rt_id tok} else {}))"
    and revoke_law: "wf s \<Longrightarrow> revoke i s = (Inr z, s') \<Longrightarrow>
      wf s' \<and> (\<forall>h. live s' h = live s h - {i})"
begin

text \<open>
  A token whose hash no other live token has cannot be found again once it is revoked, also
  not after a token with another hash was stored in between.
\<close>

lemma spent_token_not_found:
  assumes "wf s" and "live s h \<subseteq> {i}" and "revoke i s = (Inr z, s1)"
    and "wf s2" and "live s2 = live s1"
    and "store tok s2 = (Inr z', s3)" and "rt_token_hash tok \<noteq> h"
    and "find_valid h s3 = (Inr x, s4)"
  shows "x = None"
proof -
  have "live s2 h = {}" using revoke_law [OF assms(1,3)] assms(2,5) by auto
  with store_law [OF assms(4,6)] assms(7) have s3: "wf s3" "live s3 h = {}" by auto
  from find_law [OF s3(1) assms(8)] s3(2) show ?thesis by (cases x) auto
qed

end

definition live_tokens :: "db \<Rightarrow> string \<Rightarrow> uuid set" where
  "live_tokens d h =
     rt_id ` set (filter (\<lambda>r. rt_token_hash r = h \<and> \<not> rt_revoked r) (db_refresh_tokens d))"

lemma find_valid_tokenD:
  "find (valid_token h now) ts = Some r \<Longrightarrow>
    r \<in> set ts \<and> rt_token_hash r = h \<and> \<not> rt_revoked r \<and> now < rt_expires_at r"
  by (auto simp: find_Some_iff valid_token_def)

lemma live_insert_token:
  "sql_insert_token tok now d = Inr (z, d') \<Longrightarrow>
    live_tokens d' h = live_tokens d h \<union>
      (if rt_token_hash tok = h \<and> \<not> rt_revoked tok then {rt_id tok} else {})"
  by (auto simp: sql_insert_token_def live_tokens_def dest!: pg_text_InrD
      split: sum.splits if_splits)

lemma live_revoke:
  "sql_revoke p now d = Inr (z, d') \<Longrightarrow>
    live_tokens d' h =
      rt_id ` set (filter (\<lambda>r. rt_token_hash r = h \<and> \<not> rt_revoked r \<and> \<not> p r) (db_refresh_tokens d))"
  by (auto simp: sql_revoke_def live_tokens_def set_tbl_update split: if_splits)

lemma auth_store_runs:
  "get_user_by_email E email w = (Inr x, w') \<Longrightarrow>
     x = user_by_email email (w_db w) \<and> CHR 0x00 \<notin> set email \<and> w_db w' = w_db w"
  "get_valid_refresh_token E h w = (Inr y, w') \<Longrightarrow>
     y = find (valid_token h (pg_now E (w_tick w))) (db_refresh_tokens (w_db w)) \<and> w_db w' = w_db w"
  "store_refresh_token E tok w = (Inr z, w') \<Longrightarrow> \<exists>now. sql_insert_token tok now (w_db w) = Inr (z, w_db w')"
  "revoke_refresh_token E i w = (Inr z, w') \<Longrightarrow>
     \<exists>now. sql_revoke (\<lambda>r. rt_id r = i) now (w_db w) = Inr (z, w_db w')"
  unfolding auth_store_defs
  by (auto elim!: map_err_InrE run_stmt_InrE
      simp: query_def sql_select_user_def sql_select_token_def pg_text_def split: sum.splits if_splits)

interpretation pg_tokens: token_store "\<lambda>w. db_inv (w_db w)" "\<lambda>w. live_tokens (w_db w)"
    "get_valid_refresh_token E" "store_refresh_token E" "revoke_refresh_token E" for E
proof
  fix s s' :: world and h x
  assume s: "db_inv (w_db s)" "get_valid_refresh_token E h s = (Inr x, s')"
  from auth_store_runs(2) [OF s(2)] s(1)
  show "db_inv (w_db s') \<and> live_tokens (w_db s') = live_tokens (w_db s) \<and>
      (\<forall>r. x = Some r \<longrightarrow> rt_id r \<in> live_tokens (w_db s) h \<and> rt_token_hash r = h)"
    by (auto simp: live_tokens_def dest!: find_valid_tokenD)
next
  fix s s' :: world and tok z
  assume s: "db_inv (w_db s)" "store_refresh_token E tok s = (Inr z, s')"
  then have "db_inv (w_db s')"
    using auth_store_inv(3) [of E tok] by (auto simp: on_db_def preserves_def dest: effectD)
  then show "db_inv (w_db s') \<and> (\<forall>h. live_tokens (w_db s') h = live_tokens (w_db s) h \<union>
      (if rt_token_hash tok = h \<and> \<not> rt_revoked tok then {rt_id tok} else {}))"
    using auth_store_runs(3) [OF s(2)] live_insert_token by blast
next
  fix s s' :: world and i z
  assume s: "db_inv (w_db s)" "revoke_refresh_token E i s = (Inr z, s')"
  then have inv': "db_inv (w_db s')"
    using auth_store_inv(5) [of E i] by (auto simp: on_db_def preserves_def dest: effectD)
  from auth_store_runs(4) [OF s(2)] live_revoke
  have "live_tokens (w_db s') h = rt_id ` set (filter (\<lambda>r. rt_token_hash r = h \<and> \<not> rt_revoked r \<and>
      rt_id r \<noteq> i) (db_refresh_tokens (w_db s)))" for h by blast
  with inv' show "db_inv (w_db s') \<and> (\<forall>h. live_tokens (w_db s') h = live_tokens (w_db s) h - {i})"
    by (auto simp: live_tokens_def)
qed

end
