(* ===== verification/Api_Utils.thy ===== *)
theory Api_Utils
  imports Pg_Auth
begin

text \<open>
  The helpers of the API service: HTTP error values, the shared application state of
  \<open>main.rs\<close>, password and token hashing (\<open>auth_utils.rs\<close>) and the JWT wrappers (\<open>jwt.rs\<close>).
\<close>

section \<open>HTTP errors and application state\<close>

datatype status_code =
  OK
| CREATED
| UNAUTHORIZED
| NOT_FOUND
| METHOD_NOT_ALLOWED
| BAD_REQUEST
| PAYLOAD_TOO_LARGE
| UNSUPPORTED_MEDIA_TYPE
| CONFLICT
| UNPROCESSABLE_ENTITY
| INTERNAL_SERVER_ERROR

fun status_number :: "status_code \<Rightarrow> nat" where
  "status_number OK = 200"
| "status_number CREATED = 201"
| "status_number BAD_REQUEST = 400"
| "status_number UNAUTHORIZED = 401"
| "status_number NOT_FOUND = 404"
| "status_number METHOD_NOT_ALLOWED = 405"
| "status_number CONFLICT = 409"
| "status_number PAYLOAD_TOO_LARGE = 413"
| "status_number UNSUPPORTED_MEDIA_TYPE = 415"
| "status_number UNPROCESSABLE_ENTITY = 422"
| "status_number INTERNAL_SERVER_ERROR = 500"

lemma status_number_inject: "status_number s = status_number t \<Longrightarrow> s = t"
  by (cases s; cases t) simp_all

text \<open>Status codes are ordered by their numbers, as the type \<open>StatusCode\<close> orders them.\<close>

instantiation status_code :: linorder
begin

definition less_eq_status_code :: "status_code \<Rightarrow> status_code \<Rightarrow> bool" where
  "less_eq_status_code s t \<longleftrightarrow> status_number s \<le> status_number t"

definition less_status_code :: "status_code \<Rightarrow> status_code \<Rightarrow> bool" where
  "less_status_code s t \<longleftrightarrow> status_number s < status_number t"

instance
  by intro_classes
    (auto simp: less_eq_status_code_def less_status_code_def intro: status_number_inject)

end

type_synonym http_error = "status_code \<times> json"

text \<open>\<open>Json(serde_json::json!({ "error": msg }))\<close>\<close>

definition error_json :: "string \<Rightarrow> json" where
  "error_json msg = JObj [(''error'', JStr msg)]"

text \<open>The closure \<open>|e| (StatusCode::INTERNAL_SERVER_ERROR, ..e.to_string()..)\<close>.\<close>

definition internal_error :: "string \<Rightarrow> http_error" where
  "internal_error msg = (INTERNAL_SERVER_ERROR, error_json msg)"

record app_state =
  jwt_private_key :: bytes
  jwt_public_key :: bytes

section \<open>Password and token hashing\<close>

definition hash_password :: "env \<Rightarrow> string \<Rightarrow> (world, string, string) act" where
  "hash_password E password =
     and_then (tick (os_salt E)) (\<lambda>salt. lift_result (argon2_hash E password salt))"

definition verify_password :: "env \<Rightarrow> string \<Rightarrow> string \<Rightarrow> string + bool" where
  "verify_password E password hash =
     (case phc_parse E hash of Inl e \<Rightarrow> Inl e | Inr parsed_hash \<Rightarrow> Inr (argon2_verify E password parsed_hash))"

definition hash_token :: "env \<Rightarrow> string \<Rightarrow> string" where
  "hash_token E token = blake3_hex E token"

section \<open>Access tokens\<close>

definition encode_token :: "env \<Rightarrow> TokenClaims \<Rightarrow> bytes \<Rightarrow> string + string" where
  "encode_token E claims private_key_der =
     jwt_encode E \<lparr>jh_alg = EdDSA, jh_typ = Some ''JWT''\<rparr> claims private_key_der"

text \<open>The library compares \<open>exp\<close> with the system time, here an argument.\<close>

definition decode_token :: "env \<Rightarrow> int \<Rightarrow> string \<Rightarrow> bytes \<Rightarrow> string + TokenClaims" where
  "decode_token E now token public_key_der = jwt_decode E EdDSA now token public_key_der"

section \<open>What the libraries document\<close>

text \<open>
  \<open>uuid\<close>: parsing undoes formatting. \<open>argon2\<close>: a freshly made hash is a well-formed PHC string
  that verifies for its password and for no other. \<open>jsonwebtoken\<close>:
  decoding with the public key of the pair returns the claims of a token encoded with the
  private key until 60 seconds (the default leeway) after its expiry, and refuses it later.
\<close>

definition uuid_laws :: "env \<Rightarrow> bool" where
  "uuid_laws E \<longleftrightarrow> (\<forall>u. uuid_parse_str E (uuid_to_string E u) = Some u)"

definition argon2_laws :: "env \<Rightarrow> bool" where
  "argon2_laws E \<longleftrightarrow>
     (\<forall>pw salt h. argon2_hash E pw salt = Inr h \<longrightarrow>
        (\<exists>p. phc_parse E h = Inr p \<and> (\<forall>pw'. argon2_verify E pw' p \<longleftrightarrow> pw' = pw)))"

definition jwt_laws :: "env \<Rightarrow> app_state \<Rightarrow> bool" where
  "jwt_laws E st \<longleftrightarrow>
     (\<forall>claims token now. encode_token E claims (jwt_private_key st) = Inr token \<longrightarrow>
        (now \<le> uint (tc_exp claims) + 60 \<longrightarrow>
           decode_token E now token (jwt_public_key st) = Inr claims) \<and>
        (uint (tc_exp claims) + 60 < now \<longrightarrow>
           (\<exists>e. decode_token E now token (jwt_public_key st) = Inl e)))"

lemma demo_uuid_laws [simp]: "uuid_laws demo_env"
  by (simp add: uuid_laws_def)

lemma demo_argon2_laws [simp]: "argon2_laws demo_env"
  by (simp add: argon2_laws_def eq_commute)

definition demo_state :: app_state where
  "demo_state = \<lparr>jwt_private_key = [1], jwt_public_key = [2]\<rparr>"

lemma demo_jwt_laws [simp]: "jwt_laws demo_env demo_state"
  unfolding jwt_laws_def
proof (intro allI impI conjI)
  fix claims token and now :: int
  assume enc: "encode_token demo_env claims (jwt_private_key demo_state) = Inr token"
  show "decode_token demo_env now token (jwt_public_key demo_state) = Inr claims"
    if "now \<le> uint (tc_exp claims) + 60"
    using enc that by (auto simp: encode_token_def decode_token_def intro: demo_jwt_roundtrip)
  show "\<exists>e. decode_token demo_env now token (jwt_public_key demo_state) = Inl e"
    if "uint (tc_exp claims) + 60 < now"
    using enc that
    by (auto simp: encode_token_def decode_token_def demo_jwt_encode_def demo_jwt_decode_def
        Let_def split: if_splits)
qed

lemma verify_own_password:
  assumes "argon2_laws E" and "argon2_hash E pw salt = Inr h"
  shows "verify_password E pw' h = Inr (pw' = pw)"
proof -
  from assms obtain p where "phc_parse E h = Inr p" "\<forall>pw'. argon2_verify E pw' p \<longleftrightarrow> pw' = pw"
    unfolding argon2_laws_def by blast
  then show ?thesis by (simp add: verify_password_def)
qed

end
