(* ===== verification/Middleware.thy ===== *)
theory Middleware
  imports Api_Utils
begin

text \<open>
  \<open>services/api/src/middleware/auth.rs\<close>: \<open>require_auth\<close> reads the \<open>Authorization\<close> header,
  validates the bearer token and hands the user id it names to the rest of the request.
\<close>

record AuthUser =
  au_user_id :: uuid

definition unauthorized :: "string \<Rightarrow> http_error" where
  "unauthorized msg = (UNAUTHORIZED, error_json msg)"

text \<open>
  \<open>header\<close> is the raw value of the header, if the request has one; \<open>next\<close> the continuation
  \<open>next.run(request)\<close>, with the extension \<open>AuthUser\<close> that it receives.
\<close>

definition require_auth ::
    "env \<Rightarrow> app_state \<Rightarrow> bytes option \<Rightarrow> (AuthUser \<Rightarrow> (world, http_error, 'r) act) \<Rightarrow>
      (world, http_error, 'r) act" where
  "require_auth E st header next =
     and_then (ok_or (unauthorized ''Missing Authorization header'')
         (Option.bind header (header_to_str E))) (\<lambda>auth_header.
     and_then (ok_or (unauthorized ''Invalid Authorization format. Expected: Bearer <token>'')
         (strip_prefix ''Bearer '' auth_header)) (\<lambda>token.
     and_then (tick (utc_now E)) (\<lambda>now.
     and_then (map_err (\<lambda>e. unauthorized (''Invalid token: '' @ e))
         (lift_result (decode_token E (timestamp now) token (jwt_public_key st)))) (\<lambda>claims.
     and_then (ok_or (unauthorized ''Invalid user ID in token'') (uuid_parse_str E (tc_sub claims)))
       (\<lambda>user_id. next \<lparr>au_user_id = user_id\<rparr>)))))"

text \<open>The user a header authenticates at a given time, if any.\<close>

definition authenticated ::
    "env \<Rightarrow> app_state \<Rightarrow> bytes option \<Rightarrow> datetime \<Rightarrow> uuid option" where
  "authenticated E st header now =
     Option.bind header (\<lambda>raw. Option.bind (header_to_str E raw) (\<lambda>auth_header.
     Option.bind (strip_prefix ''Bearer '' auth_header) (\<lambda>token.
       case decode_token E (timestamp now) token (jwt_public_key st) of
         Inl e \<Rightarrow> None
       | Inr claims \<Rightarrow> uuid_parse_str E (tc_sub claims))))"

text \<open>
  The middleware meets its specification: an authenticated request is the continuation run
  with exactly the authenticated user; any other is answered 401, the continuation is not run
  and the database is not touched.
\<close>

lemma authenticated_SomeE:
  assumes "authenticated E st header now = Some uid"
  obtains raw token claims where "header = Some raw"
    and "header_to_str E raw = Some (''Bearer '' @ token)"
    and "decode_token E (timestamp now) token (jwt_public_key st) = Inr claims"
    and "uuid_parse_str E (tc_sub claims) = Some uid"
proof -
  from assms obtain raw hdr token where "header = Some raw" "header_to_str E raw = Some hdr"
      "strip_prefix ''Bearer '' hdr = Some token" and
    dec: "(case decode_token E (timestamp now) token (jwt_public_key st) of
        Inl e \<Rightarrow> None | Inr claims \<Rightarrow> uuid_parse_str E (tc_sub claims)) = Some uid"
    by (auto simp: authenticated_def bind_eq_Some_conv)
  moreover from dec obtain claims where
    "decode_token E (timestamp now) token (jwt_public_key st) = Inr claims"
    "uuid_parse_str E (tc_sub claims) = Some uid"
    by (auto split: sum.splits)
  ultimately show thesis using that by (simp add: strip_prefix_eq_Some_iff)
qed

lemma require_auth_authenticated:
  assumes "authenticated E st header (utc_now E (w_tick w)) = Some uid"
  shows "require_auth E st header next w = next \<lparr>au_user_id = uid\<rparr> (w\<lparr>w_tick := Suc (w_tick w)\<rparr>)"
  using assms by (elim authenticated_SomeE) (simp add: require_auth_def act_simps)

lemma require_auth_rejected:
  assumes "authenticated E st header (utc_now E (w_tick w)) = None"
  shows "\<exists>msg w'. require_auth E st header next w = (Inl (UNAUTHORIZED, error_json msg), w') \<and>
    w_db w' = w_db w"
proof (cases "Option.bind header (header_to_str E)")
  case None
  then show ?thesis by (auto simp: require_auth_def unauthorized_def act_simps)
next
  case hdr: (Some auth_header)
  show ?thesis
  proof (cases "strip_prefix ''Bearer '' auth_header")
    case None
    with hdr show ?thesis by (auto simp: require_auth_def unauthorized_def act_simps)
  next
    case tok: (Some token)
    show ?thesis
    proof (cases "decode_token E (timestamp (utc_now E (w_tick w))) token (jwt_public_key st)")
      case (Inl e)
      with hdr tok show ?thesis by (auto simp: require_auth_def unauthorized_def act_simps)
    next
      case (Inr claims)
      with hdr tok assms have "uuid_parse_str E (tc_sub claims) = None"
        by (auto simp: authenticated_def bind_eq_Some_conv)
      with hdr tok Inr show ?thesis by (auto simp: require_auth_def unauthorized_def act_simps)
    qed
  qed
qed

end
