(* ===== verification/Routes_Auth.thy ===== *)
theory Routes_Auth
  imports Middleware
begin

text \<open>
  \<open>services/api/src/routes/auth.rs\<close>: registration, login, refresh-token rotation and the
  creation of token pairs, each the whole handler with its early returns.
\<close>

section \<open>Token pairs\<close>

abbreviation access_expires_in :: int where
  "access_expires_in \<equiv> 900"

definition access_claims :: "env \<Rightarrow> uuid \<Rightarrow> datetime \<Rightarrow> TokenClaims" where
  "access_claims E user_id now =
     \<lparr>tc_sub = uuid_to_string E user_id,
      tc_iat = word_of_int (timestamp now),
      tc_exp = word_of_int (timestamp (now + duration_seconds access_expires_in))\<rparr>"

definition refresh_record :: "env \<Rightarrow> uuid \<Rightarrow> datetime \<Rightarrow> string \<Rightarrow> uuid \<Rightarrow> RefreshToken" where
  "refresh_record E user_id now raw_refresh_token rid =
     \<lparr>rt_id = rid, rt_user_id = user_id, rt_token_hash = hash_token E raw_refresh_token,
      rt_expires_at = now + duration_days 30, rt_revoked = False, rt_created_at = now\<rparr>"

definition generate_token_pair ::
    "env \<Rightarrow> app_state \<Rightarrow> uuid \<Rightarrow> (world, http_error, AuthResponse) act" where
  "generate_token_pair E st user_id =
     and_then (tick (utc_now E)) (\<lambda>now.
     and_then (map_err internal_error
         (lift_result (encode_token E (access_claims E user_id now) (jwt_private_key st)))) (\<lambda>access_token.
     and_then (tick (new_v4 E)) (\<lambda>raw.
     and_then (tick (new_v4 E)) (\<lambda>rid.
     and_then (map_err (\<lambda>e. internal_error (core_error_text e))
         (store_refresh_token E (refresh_record E user_id now (uuid_to_string E raw) rid))) (\<lambda>_.
       ok \<lparr>ar_access_token = access_token, ar_refresh_token = uuid_to_string E raw,
           ar_token_type = ''Bearer'', ar_expires_in = access_expires_in\<rparr>)))))"

section \<open>Handlers\<close>

definition register ::
    "env \<Rightarrow> app_state \<Rightarrow> RegisterRequest \<Rightarrow> (world, http_error, status_code \<times> AuthResponse) act" where
  "register E st body =
     and_then (attempt (get_user_by_email E (rr_email body))) (\<lambda>existing.
       case existing of
         Inr (Some _) \<Rightarrow> err (CONFLICT, error_json ''Email already registered'')
       | _ \<Rightarrow>
         and_then (map_err internal_error (hash_password E (rr_password body))) (\<lambda>password_hash.
         and_then (tick (new_v4 E)) (\<lambda>user_id.
         and_then (map_err (\<lambda>e. internal_error (core_error_text e))
             (create_user E user_id (rr_email body) password_hash (rr_display_name body))) (\<lambda>user.
         and_then (generate_token_pair E st (u_id user)) (\<lambda>auth_response.
           ok (CREATED, auth_response))))))"

definition login ::
    "env \<Rightarrow> app_state \<Rightarrow> LoginRequest \<Rightarrow> (world, http_error, status_code \<times> AuthResponse) act" where
  "login E st body =
     and_then (map_err (\<lambda>e. internal_error (core_error_text e))
         (get_user_by_email E (lr_email body))) (\<lambda>found.
     and_then (ok_or (UNAUTHORIZED, error_json ''Invalid email or password'') found) (\<lambda>user.
     and_then (map_err internal_error
         (lift_result (verify_password E (lr_password body) (u_password_hash user)))) (\<lambda>verified.
       if \<not> verified then err (UNAUTHORIZED, error_json ''Invalid email or password'')
       else
         and_then (generate_token_pair E st (u_id user)) (\<lambda>auth_response.
           ok (OK, auth_response)))))"

definition refresh ::
    "env \<Rightarrow> app_state \<Rightarrow> RefreshRequest \<Rightarrow> (world, http_error, status_code \<times> AuthResponse) act" where
  "refresh E st body =
     and_then (map_err (\<lambda>e. internal_error (core_error_text e))
         (get_valid_refresh_token E (hash_token E (rf_refresh_token body)))) (\<lambda>found.
     and_then (ok_or (UNAUTHORIZED, error_json ''Invalid or expired refresh token'') found) (\<lambda>stored_token.
     and_then (map_err (\<lambda>e. internal_error (core_error_text e))
         (revoke_refresh_token E (rt_id stored_token))) (\<lambda>_.
     and_then (generate_token_pair E st (rt_user_id stored_token)) (\<lambda>auth_response.
       ok (OK, auth_response)))))"

lemmas auth_handler_defs = generate_token_pair_def register_def login_def refresh_def hash_password_def

section \<open>What a successful call did\<close>

text \<open>
  Each handler that answers \<open>Ok\<close> has run all its statements; these rules give their effect.
\<close>

lemma internal_error_neq [simp]: "internal_error m \<noteq> (UNAUTHORIZED, j)" "internal_error m \<noteq> (CONFLICT, j)"
  by (simp_all add: internal_error_def)

lemma store_refresh_token_InrE:
  assumes "store_refresh_token E tok w = (Inr z, w')"
  obtains "w' = w\<lparr>w_tick := Suc (w_tick w),
      w_db := (w_db w)\<lparr>db_refresh_tokens := db_refresh_tokens (w_db w) @ [tok]\<rparr>\<rparr>"
    and "rt_id tok \<notin> rt_id ` set (db_refresh_tokens (w_db w))"
    and "rt_user_id tok \<in> user_ids (w_db w)"
  using assms unfolding store_refresh_token_def
  by (auto elim!: map_err_InrE run_stmt_InrE simp: sql_insert_token_def
      dest!: pg_text_InrD split: sum.splits if_splits)

lemma generate_token_pair_InrE:
  assumes "generate_token_pair E st uid w = (Inr ar, w')"
  obtains access where
    "encode_token E (access_claims E uid (utc_now E (w_tick w))) (jwt_private_key st) = Inr access"
    and "ar = \<lparr>ar_access_token = access, ar_refresh_token = uuid_to_string E (new_v4 E (Suc (w_tick w))),
      ar_token_type = ''Bearer'', ar_expires_in = 900\<rparr>"
    and "uid \<in> user_ids (w_db w)"
    and "w' = w\<lparr>w_tick := w_tick w + 4,
      w_db := (w_db w)\<lparr>db_refresh_tokens := db_refresh_tokens (w_db w) @
        [refresh_record E uid (utc_now E (w_tick w)) (ar_refresh_token ar)
          (new_v4 E (Suc (Suc (w_tick w))))]\<rparr>\<rparr>"
  using assms unfolding generate_token_pair_def
  by (auto elim!: and_then_InrE map_err_InrE store_refresh_token_InrE
      simp: tick_run lift_result_run ok_run refresh_record_def)

lemma generate_token_pair_storeE:
  assumes "generate_token_pair E st uid w = (Inr ar, w')"
  obtains w1 tok where "w_db w1 = w_db w" and "store_refresh_token E tok w1 = (Inr (), w')"
    and "rt_user_id tok = uid" and "rt_token_hash tok = hash_token E (ar_refresh_token ar)"
proof -
  let ?raw = "uuid_to_string E (new_v4 E (Suc (w_tick w)))"
  let ?w1 = "w\<lparr>w_tick := Suc (Suc (Suc (w_tick w)))\<rparr>"
  let ?tok = "refresh_record E uid (utc_now E (w_tick w)) ?raw (new_v4 E (Suc (Suc (w_tick w))))"
  have run: "store_refresh_token E ?tok ?w1 = (Inr (), w') \<and> ar_refresh_token ar = ?raw"
    using assms unfolding generate_token_pair_def
    by (auto elim!: and_then_InrE map_err_InrE simp: tick_run lift_result_run ok_run)
  show thesis
    by (rule that [of ?w1 ?tok]) (use run in \<open>auto simp: refresh_record_def\<close>)
qed

lemma login_InrE:
  assumes "login E st body w = (Inr (s, ar), w')"
  obtains user w1 where "s = OK" and "user_by_email (lr_email body) (w_db w) = Some user"
    and "verify_password E (lr_password body) (u_password_hash user) = Inr True"
    and "w_db w1 = w_db w" and "w_tick w1 = Suc (w_tick w)"
    and "generate_token_pair E st (u_id user) w1 = (Inr ar, w')"
proof -
  from assms obtain found w1 user w2 verified w3 where
    find: "get_user_by_email E (lr_email body) w = (Inr found, w1)"
    and user: "found = Some user" and w2: "w2 = w1" and w3: "w3 = w2"
    and ver: "verify_password E (lr_password body) (u_password_hash user) = Inr verified"
    and rest: "(if \<not> verified then err (UNAUTHORIZED, error_json ''Invalid email or password'')
       else and_then (generate_token_pair E st (u_id user)) (\<lambda>a. ok (OK, a))) w3 = (Inr (s, ar), w')"
    unfolding login_def
    by (auto elim!: and_then_InrE map_err_InrE simp: ok_or_run lift_result_run split: option.splits)
  from rest have verified and gen: "s = OK" "generate_token_pair E st (u_id user) w3 = (Inr ar, w')"
    by (auto simp: err_run ok_run elim!: and_then_InrE split: if_splits)
  have "w_tick w1 = Suc (w_tick w)"
    using find unfolding get_user_by_email_def by (auto elim!: map_err_InrE run_stmt_InrE)
  moreover have "w_db w1 = w_db w" "user_by_email (lr_email body) (w_db w) = Some user"
    using auth_store_runs(1) [OF find] user by auto
  ultimately show thesis
    using that [of user w1] gen ver \<open>verified\<close> w2 w3 by simp
qed

lemma refresh_InrE:
  assumes "refresh E st body w = (Inr (s, ar), w')"
  obtains tok w1 w2 where "s = OK"
    and "get_valid_refresh_token E (hash_token E (rf_refresh_token body)) w = (Inr (Some tok), w1)"
    and "revoke_refresh_token E (rt_id tok) w1 = (Inr (), w2)"
    and "generate_token_pair E st (rt_user_id tok) w2 = (Inr ar, w')"
  using assms unfolding refresh_def
  by (auto elim!: and_then_InrE map_err_InrE simp: ok_or_run ok_run split: option.splits)

lemma get_user_by_email_db:
  "get_user_by_email E email w = (r, w') \<Longrightarrow> w_db w' = w_db w \<and> w_tick w' = Suc (w_tick w)"
  unfolding get_user_by_email_def
  by (auto simp: map_err_run dest: run_query_db split: prod.splits sum.splits)

lemma create_user_InrE:
  assumes "create_user E uid email ph dn w = (Inr user, w')"
  obtains em where "pg_varchar 255 email = Inr em" and "u_id user = uid" and "u_email user = em"
    and "u_password_hash user = ph" and "em \<notin> u_email ` set (db_users (w_db w))"
    and "uid \<notin> user_ids (w_db w)"
    and "w' = w\<lparr>w_tick := Suc (w_tick w), w_db := (w_db w)\<lparr>db_users := db_users (w_db w) @ [user]\<rparr>\<rparr>"
  using assms unfolding create_user_def
  by (auto elim!: map_err_InrE run_stmt_InrE simp: sql_insert_user_def Let_def
      dest!: pg_text_InrD split: sum.splits if_splits)

lemma register_InrE:
  assumes "register E st body w = (Inr (s, ar), w')"
  obtains salt ph uid w2 user w3 where "s = CREATED"
    and "argon2_hash E (rr_password body) salt = Inr ph" and "w_db w2 = w_db w"
    and "create_user E uid (rr_email body) ph (rr_display_name body) w2 = (Inr user, w3)"
    and "generate_token_pair E st (u_id user) w3 = (Inr ar, w')"
proof -
  obtain r1 w1 where lookup: "get_user_by_email E (rr_email body) w = (r1, w1)" by fastforce
  then have w1: "w_db w1 = w_db w" using get_user_by_email_db by blast
  from assms lookup have rest: "and_then (map_err internal_error (hash_password E (rr_password body))) (\<lambda>password_hash.
         and_then (tick (new_v4 E)) (\<lambda>user_id.
         and_then (map_err (\<lambda>e. internal_error (core_error_text e))
             (create_user E user_id (rr_email body) password_hash (rr_display_name body))) (\<lambda>user.
         and_then (generate_token_pair E st (u_id user)) (\<lambda>auth_response.
           ok (CREATED, auth_response))))) w1 = (Inr (s, ar), w')"
    unfolding register_def
    by (auto simp: and_then_run [of "attempt _"] attempt_run err_run split: sum.splits option.splits)
  then obtain ph user w3 where created: "s = CREATED"
    and hash: "argon2_hash E (rr_password body) (os_salt E (w_tick w1)) = Inr ph"
    and user: "create_user E (new_v4 E (Suc (w_tick w1))) (rr_email body) ph
      (rr_display_name body) (w1\<lparr>w_tick := Suc (Suc (w_tick w1))\<rparr>) = (Inr user, w3)"
    and pair: "generate_token_pair E st (u_id user) w3 = (Inr ar, w')"
    by (auto elim!: and_then_InrE map_err_InrE
        simp: hash_password_def tick_run lift_result_run ok_run)
  show thesis by (rule that [OF created hash _ user pair]) (simp add: w1)
qed

section \<open>Failing calls that matter\<close>

lemma get_user_by_email_healthy:
  "fault_at E (w_tick w) = Healthy \<Longrightarrow> CHR 0x00 \<notin> set email \<Longrightarrow>
    get_user_by_email E email w = (Inr (user_by_email email (w_db w)), w\<lparr>w_tick := Suc (w_tick w)\<rparr>)"
  by (simp add: get_user_by_email_def map_err_run run_query_healthy sql_select_user_def pg_text_def)

lemma get_valid_refresh_token_healthy:
  "fault_at E (w_tick w) = Healthy \<Longrightarrow> CHR 0x00 \<notin> set h \<Longrightarrow>
    get_valid_refresh_token E h w =
      (Inr (find (valid_token h (pg_now E (w_tick w))) (db_refresh_tokens (w_db w))),
       w\<lparr>w_tick := Suc (w_tick w)\<rparr>)"
  by (simp add: get_valid_refresh_token_def map_err_run run_query_healthy sql_select_token_def
      pg_text_def)

text \<open>When a pair is created: all that can be in the way.\<close>

lemma generate_token_pair_succeeds:
  assumes "encode_token E (access_claims E uid (utc_now E (w_tick w))) (jwt_private_key st) = Inr access"
    and "fault_at E (w_tick w + 3) = Healthy" and "uid \<in> user_ids (w_db w)"
    and "new_v4 E (Suc (Suc (w_tick w))) \<notin> rt_id ` set (db_refresh_tokens (w_db w))"
    and "CHR 0x00 \<notin> set (hash_token E (uuid_to_string E (new_v4 E (Suc (w_tick w)))))"
  shows "\<exists>ar w'. generate_token_pair E st uid w = (Inr ar, w')"
proof -
  have tick: "w_tick w + 3 = Suc (Suc (Suc (w_tick w)))" by simp
  show ?thesis
    using assms unfolding tick
    by (simp add: generate_token_pair_def and_then_run map_err_run lift_result_run tick_run ok_run
        store_refresh_token_def run_stmt_healthy sql_insert_token_def refresh_record_def pg_text_def)
qed

lemma demo_token_pair_succeeds:
  assumes "uid \<in> user_ids (w_db w)"
    and "word_of_nat (102 + w_tick w) \<notin> rt_id ` set (db_refresh_tokens (w_db w))"
  shows "\<exists>ar w'. generate_token_pair demo_env demo_state uid w = (Inr ar, w')"
  using assms
  by (intro generate_token_pair_succeeds)
    (auto simp: encode_token_def demo_jwt_encode_def demo_state_def hash_token_def ac_simps
      simp del: of_nat_add)

end
