(* ===== verification/Sessions.thy ===== *)
theory Sessions
  imports Routes_Auth
begin

text \<open>
  The session life cycle of \<open>services/api/src/routes/auth.rs\<close>: what the tokens of a pair say
  and how long they are accepted, who can log in, that an account is registered once, and how
  refresh tokens are spent.
\<close>

section \<open>Token pairs\<close>

lemma access_claims_exact:
  assumes "0 \<le> now" and "timestamp now + 900 < 2 ^ 64"
  shows "uint (tc_iat (access_claims E uid now)) = timestamp now"
    and "uint (tc_exp (access_claims E uid now)) = timestamp now + 900"
proof -
  have "0 \<le> timestamp now" using assms(1) by (simp add: timestamp_def)
  with assms(2) show "uint (tc_iat (access_claims E uid now)) = timestamp now"
    and "uint (tc_exp (access_claims E uid now)) = timestamp now + 900"
    by (simp_all add: access_claims_def uint_word_of_int del: of_int_add)
qed

text \<open>
  The pair a session starts with. The access token is the signed encoding of claims that
  name the user, are issued now and expire exactly the advertised \<open>expires_in\<close> seconds later
  (the cast of the timestamps to \<open>usize\<close> loses nothing); and exactly one refresh token is added
  to the database: for that user, not revoked, valid for 30 days, and stored as the hash of
  the token the client gets, not as the token.
\<close>

theorem token_pair_contents:
  assumes "generate_token_pair E st uid w = (Inr ar, w')"
    and "now = utc_now E (w_tick w)" and "0 \<le> now" and "timestamp now + 900 < 2 ^ 64"
  shows "\<exists>claims record.
      encode_token E claims (jwt_private_key st) = Inr (ar_access_token ar) \<and>
      tc_sub claims = uuid_to_string E uid \<and> uint (tc_iat claims) = timestamp now \<and>
      uint (tc_exp claims) = uint (tc_iat claims) + ar_expires_in ar \<and>
      w_db w' = (w_db w)\<lparr>db_refresh_tokens := db_refresh_tokens (w_db w) @ [record]\<rparr> \<and>
      rt_user_id record = uid \<and> \<not> rt_revoked record \<and>
      rt_expires_at record = now + duration_days 30 \<and>
      rt_token_hash record = hash_token E (ar_refresh_token ar)"
proof -
  from assms(1) obtain access where
    enc: "encode_token E (access_claims E uid now) (jwt_private_key st) = Inr access"
    and ar: "ar_access_token ar = access" "ar_expires_in ar = 900"
    and w': "w_db w' = (w_db w)\<lparr>db_refresh_tokens := db_refresh_tokens (w_db w) @
      [refresh_record E uid now (ar_refresh_token ar) (new_v4 E (Suc (Suc (w_tick w))))]\<rparr>"
    by (elim generate_token_pair_InrE) (auto simp: assms(2))
  let ?claims = "access_claims E uid now"
  have "tc_sub ?claims = uuid_to_string E uid" by (simp add: access_claims_def)
  with enc ar w' access_claims_exact [OF assms(3,4)] show ?thesis
    by (intro exI [of _ ?claims] exI [of _ "refresh_record E uid now (ar_refresh_token ar)
        (new_v4 E (Suc (Suc (w_tick w))))"]) (simp add: refresh_record_def)
qed

lemma demo_token_pair:
  "\<exists>ar w'. generate_token_pair demo_env demo_state 1 demo_world = (Inr ar, w')"
  by (rule demo_token_pair_succeeds) (simp_all add: demo_defs user_ids_def)

theorem token_pair_contents_witness:
  "\<exists>ar w' (claims :: TokenClaims). generate_token_pair demo_env demo_state 1 demo_world = (Inr ar, w') \<and>
     uint (tc_exp claims) = uint (tc_iat claims) + ar_expires_in ar"
proof -
  obtain ar w' where run: "generate_token_pair demo_env demo_state 1 demo_world = (Inr ar, w')"
    using demo_token_pair by blast
  have "0 \<le> utc_now demo_env (w_tick demo_world)"
    and "timestamp (utc_now demo_env (w_tick demo_world)) + 900 < 2 ^ 64"
    by (simp_all add: demo_world_def timestamp_def)
  from token_pair_contents [OF run refl this] show ?thesis using run by blast
qed

lemma access_token_encoded:
  assumes "generate_token_pair E st uid w = (Inr ar, w')"
    and "0 \<le> utc_now E (w_tick w)" and "timestamp (utc_now E (w_tick w)) + 900 < 2 ^ 64"
  shows "encode_token E (access_claims E uid (utc_now E (w_tick w))) (jwt_private_key st) = Inr (ar_access_token ar)"
    and "uint (tc_exp (access_claims E uid (utc_now E (w_tick w)))) = timestamp (utc_now E (w_tick w)) + 900"
  using assms access_claims_exact(2) [OF assms(2,3)] by (auto elim: generate_token_pair_InrE)

lemma access_token_valid:
  assumes laws: "uuid_laws E" "jwt_laws E st"
    and pair: "generate_token_pair E st uid w = (Inr ar, w')"
    and now: "now = utc_now E (w_tick w)" "0 \<le> now" "timestamp now + 900 < 2 ^ 64"
    and header: "header_to_str E raw = Some (''Bearer '' @ ar_access_token ar)"
    and later: "timestamp later \<le> timestamp now + 960"
  shows "authenticated E st (Some raw) later = Some uid"
proof -
  note token = access_token_encoded [OF pair now(2,3) [unfolded now(1)]]
  have "decode_token E (timestamp later) (ar_access_token ar) (jwt_public_key st) = Inr (access_claims E uid now)"
    using token laws(2) later unfolding jwt_laws_def now(1) by fastforce
  then show ?thesis
    using header laws(1) by (simp add: authenticated_def uuid_laws_def access_claims_def)
qed

text \<open>
  C26. The lifetime of a session's access token, end to end: sent as a bearer token, the token
  that a pair was created with authenticates exactly the user it was created for, at every
  later time up to 60 seconds (the library's leeway) after the 15 minutes, and no user at all
  from then on.
\<close>

theorem access_token_lifetime:
  assumes laws: "uuid_laws E" "jwt_laws E st"
    and pair: "generate_token_pair E st uid w = (Inr ar, w')"
    and now: "now = utc_now E (w_tick w)" "0 \<le> now" "timestamp now + 900 < 2 ^ 64"
    and header: "header_to_str E raw = Some (''Bearer '' @ ar_access_token ar)"
  shows "authenticated E st (Some raw) later =
    (if timestamp later \<le> timestamp now + 960 then Some uid else None)"
proof (cases "timestamp later \<le> timestamp now + 960")
  case True
  then show ?thesis using access_token_valid [OF assms] by simp
next
  case False
  note token = access_token_encoded [OF pair now(2,3) [unfolded now(1)]]
  from False token laws(2) obtain e where
    "decode_token E (timestamp later) (ar_access_token ar) (jwt_public_key st) = Inl e"
    unfolding jwt_laws_def now(1) by fastforce
  with False header show ?thesis by (simp add: authenticated_def)
qed

theorem access_token_lifetime_witness:
  "\<exists>ar w'. generate_token_pair demo_env demo_state 1 demo_world = (Inr ar, w') \<and>
     authenticated demo_env demo_state
       (Some (header_bytes (''Bearer '' @ ar_access_token ar))) 959000000 = Some 1 \<and>
     authenticated demo_env demo_state
       (Some (header_bytes (''Bearer '' @ ar_access_token ar))) 961000000 = None"
proof -
  obtain ar w' where run: "generate_token_pair demo_env demo_state 1 demo_world = (Inr ar, w')"
    using demo_token_pair by blast
  have clock: "0 = utc_now demo_env (w_tick demo_world)" "(0::datetime) \<le> 0"
    "timestamp 0 + 900 < 2 ^ 64" by (simp_all add: demo_world_def timestamp_def)
  note lifetime = access_token_lifetime [OF demo_uuid_laws demo_jwt_laws run clock demo_header]
  from lifetime [of 959000000] lifetime [of 961000000] show ?thesis
    using run by (auto simp: timestamp_def)
qed

section \<open>Logging in\<close>

text \<open>
  C27. Nobody gets a session without the password: whenever \<open>login\<close> answers with tokens, for
  whatever request, database and faults, the e-mail belongs to a stored account, the password
  verifies against that account's hash, and the access token is one that authenticates as
  exactly that account.
\<close>

theorem login_grants_owner:
  assumes "login E st body w = (Inr (s, ar), w')"
    and "uuid_laws E" "jwt_laws E st"
    and clock: "now = utc_now E (Suc (w_tick w))" "0 \<le> now" "timestamp now + 900 < 2 ^ 64"
    and "header_to_str E raw = Some (''Bearer '' @ ar_access_token ar)"
  shows "s = OK \<and> (\<exists>user. user_by_email (lr_email body) (w_db w) = Some user \<and>
      u_email user = lr_email body \<and>
      verify_password E (lr_password body) (u_password_hash user) = Inr True \<and>
      authenticated E st (Some raw) now = Some (u_id user))"
proof -
  from assms(1) obtain user w1 where s: "s = OK"
    and user: "user_by_email (lr_email body) (w_db w) = Some user"
    and pw: "verify_password E (lr_password body) (u_password_hash user) = Inr True"
    and tick: "w_tick w1 = Suc (w_tick w)"
    and pair: "generate_token_pair E st (u_id user) w1 = (Inr ar, w')"
    by (elim login_InrE)
  have "authenticated E st (Some raw) now = Some (u_id user)"
    using access_token_valid [OF assms(2,3) pair _ clock(2,3) assms(7), of now] tick
    by (simp add: clock(1))
  moreover have "u_email user = lr_email body"
    using user by (auto simp: user_by_email_def find_Some_iff)
  ultimately show ?thesis using s user pw by blast
qed

lemma demo_login:
  "\<exists>ar w'. login demo_env demo_state \<lparr>lr_email = ''ann@x'', lr_password = ''pw''\<rparr> demo_world =
    (Inr (OK, ar), w')"
proof -
  let ?w = "demo_world\<lparr>w_tick := 1\<rparr>"
  obtain ar w' where "generate_token_pair demo_env demo_state 1 ?w = (Inr ar, w')"
    using demo_token_pair_succeeds [of 1 ?w] by (auto simp: demo_defs user_ids_def)
  then show ?thesis
    by (simp add: login_def act_simps get_user_by_email_healthy user_by_email_def demo_defs
        verify_password_def)
qed

theorem login_grants_owner_witness:
  "\<exists>ar w'. login demo_env demo_state \<lparr>lr_email = ''ann@x'', lr_password = ''pw''\<rparr> demo_world =
      (Inr (OK, ar), w') \<and>
    authenticated demo_env demo_state
      (Some (header_bytes (''Bearer '' @ ar_access_token ar))) 1000000 = Some 1"
proof -
  obtain ar w' where run: "login demo_env demo_state
      \<lparr>lr_email = ''ann@x'', lr_password = ''pw''\<rparr> demo_world = (Inr (OK, ar), w')"
    using demo_login by blast
  have clock: "1000000 = utc_now demo_env (Suc (w_tick demo_world))" "(0::datetime) \<le> 1000000"
    "timestamp 1000000 + 900 < 2 ^ 64" by (simp_all add: demo_world_def timestamp_def)
  from login_grants_owner [OF run demo_uuid_laws demo_jwt_laws clock demo_header]
  show ?thesis using run by (auto simp: user_by_email_def demo_defs)
qed

section \<open>Registration\<close>

lemma user_by_email_appended:
  "u_email r \<notin> u_email ` set (db_users d) \<Longrightarrow> u_email r = em \<Longrightarrow>
    user_by_email em (d\<lparr>db_users := db_users d @ [r], db_refresh_tokens := ts\<rparr>) = Some r"
proof -
  assume "u_email r \<notin> u_email ` set (db_users d)" "u_email r = em"
  then have "find (\<lambda>x. u_email x = em) (db_users d) = None"
    by (simp add: find_None_iff) (metis imageI)
  with \<open>u_email r = em\<close> show ?thesis
    using tbl_find_append [of u_email em "db_users d" r]
    by (simp add: user_by_email_def tbl_find_def)
qed

text \<open>
  C28. Registering and logging in fit together: after a successful registration the account can
  be logged into with the registered password, which leads straight to a token pair for the
  new account, and every other password is answered 401 with the database unchanged.
\<close>

theorem register_then_login:
  assumes "argon2_laws E" and "register E st body w = (Inr (s, ar), w1)"
    and "CHR 0x00 \<notin> set (rr_email body)" and "char_count (rr_email body) \<le> 255"
    and "fault_at E (w_tick w1) = Healthy"
  shows "\<exists>uid. uid \<in> user_ids (w_db w1) \<and> uid \<notin> user_ids (w_db w) \<and>
    login E st \<lparr>lr_email = rr_email body, lr_password = pw\<rparr> w1 =
      (if pw = rr_password body
       then and_then (generate_token_pair E st uid) (\<lambda>a. ok (OK, a)) (w1\<lparr>w_tick := Suc (w_tick w1)\<rparr>)
       else (Inl (UNAUTHORIZED, error_json ''Invalid email or password''),
             w1\<lparr>w_tick := Suc (w_tick w1)\<rparr>))"
proof -
  from assms(2) obtain salt ph uid w2 user w3 where
    hash: "argon2_hash E (rr_password body) salt = Inr ph" and w2: "w_db w2 = w_db w"
    and create: "create_user E uid (rr_email body) ph (rr_display_name body) w2 = (Inr user, w3)"
    and pair: "generate_token_pair E st (u_id user) w3 = (Inr ar, w1)"
    by (elim register_InrE)
  from create assms(3,4) have user: "u_id user = uid" "u_email user = rr_email body"
      "u_password_hash user = ph" "uid \<notin> user_ids (w_db w)"
      "u_email user \<notin> u_email ` set (db_users (w_db w))"
    and w3: "w_db w3 = (w_db w)\<lparr>db_users := db_users (w_db w) @ [user]\<rparr>"
    by (auto elim!: create_user_InrE simp: pg_varchar_fits w2)
  from pair obtain ts where w1: "w_db w1 = (w_db w)\<lparr>db_users := db_users (w_db w) @ [user],
      db_refresh_tokens := ts\<rparr>"
    by (elim generate_token_pair_InrE) (simp add: w3)
  have found: "user_by_email (rr_email body) (w_db w1) = Some user"
    unfolding w1 using user(5,2) by (rule user_by_email_appended)
  show ?thesis
  proof (intro exI conjI)
    show "uid \<in> user_ids (w_db w1)" using user(1) by (simp add: w1 user_ids_def)
    show "uid \<notin> user_ids (w_db w)" by (rule user(4))
    show "login E st \<lparr>lr_email = rr_email body, lr_password = pw\<rparr> w1 =
      (if pw = rr_password body
       then and_then (generate_token_pair E st uid) (\<lambda>a. ok (OK, a)) (w1\<lparr>w_tick := Suc (w_tick w1)\<rparr>)
       else (Inl (UNAUTHORIZED, error_json ''Invalid email or password''),
             w1\<lparr>w_tick := Suc (w_tick w1)\<rparr>))"
      using found user verify_own_password [OF assms(1) hash] assms(3,5)
      by (simp add: login_def act_simps get_user_by_email_healthy)
  qed
qed

abbreviation demo_registration :: RegisterRequest where
  "demo_registration \<equiv> \<lparr>rr_email = ''cy@x'', rr_password = ''secret'', rr_display_name = None\<rparr>"

lemma demo_create_user:
  "\<exists>user w'. create_user demo_env 102 ''cy@x'' ''$argon2id$secret'' None (demo_world\<lparr>w_tick := Suc (Suc (Suc 0))\<rparr>) =
    (Inr user, w')"
proof -
  have fits: "pg_varchar 255 ''cy@x'' = Inr ''cy@x''"
    by (rule pg_varchar_fits) (simp_all add: char_count_def is_continuation_def)
  have plain: "pg_text ''$argon2id$secret'' = Inr ''$argon2id$secret''"
    by (simp add: pg_text_def)
  have "\<exists>row d. sql_insert_user 102 ''cy@x'' ''$argon2id$secret'' None now demo_db = Inr (row, d)" for now
    unfolding sql_insert_user_def fits plain
    by (simp add: pg_nullable_def demo_db_def demo_user_def user_ids_def Let_def)
  then obtain row d where "sql_insert_user 102 ''cy@x'' ''$argon2id$secret'' None 3000000 demo_db =
      Inr (row, d)" by blast
  then show ?thesis
    by (simp add: create_user_def map_err_run run_stmt_healthy demo_world_def)
qed

lemma demo_register:
  "\<exists>ar w'. register demo_env demo_state demo_registration demo_world = (Inr (CREATED, ar), w')"
proof -
  obtain user w3 where user: "create_user demo_env 102 ''cy@x'' ''$argon2id$secret'' None
      (demo_world\<lparr>w_tick := Suc (Suc (Suc 0))\<rparr>) = (Inr user, w3)"
    using demo_create_user by blast
  then have "u_id user \<in> user_ids (w_db w3)" "db_refresh_tokens (w_db w3) = []"
    by (auto elim!: create_user_InrE simp: user_ids_def demo_defs)
  then obtain ar w' where "generate_token_pair demo_env demo_state (u_id user) w3 = (Inr ar, w')"
    using demo_token_pair_succeeds [of "u_id user" w3] by auto
  with user show ?thesis
    by (simp add: register_def hash_password_def act_simps get_user_by_email_healthy
        user_by_email_def demo_defs)
qed

theorem register_then_login_witness:
  "\<exists>ar w1 w2. register demo_env demo_state demo_registration demo_world = (Inr (CREATED, ar), w1) \<and>
     login demo_env demo_state \<lparr>lr_email = ''cy@x'', lr_password = ''guess''\<rparr> w1 =
       (Inl (UNAUTHORIZED, error_json ''Invalid email or password''), w2)"
proof -
  obtain ar w1 where run: "register demo_env demo_state demo_registration demo_world =
      (Inr (CREATED, ar), w1)"
    using demo_register by blast
  have "CHR 0x00 \<notin> set (rr_email demo_registration)"
    and "char_count (rr_email demo_registration) \<le> 255"
    and "fault_at demo_env (w_tick w1) = Healthy"
    by (simp_all add: char_count_def is_continuation_def)
  from register_then_login [OF demo_argon2_laws run this, of "''guess''"] run show ?thesis
    by auto
qed

text \<open>
  An e-mail is registered once: while an account with an e-mail exists (an e-mail that fits
  its column), no registration for it succeeds, whatever the faults in between and however
  the check before the insertion went, and the table of accounts stays as it is.
\<close>

theorem register_never_duplicates:
  assumes "rr_email body \<in> u_email ` set (db_users (w_db w))"
    and "char_count (rr_email body) \<le> 255"
    and "register E st body w = (r, w')"
  shows "(\<exists>e. r = Inl e) \<and> db_users (w_db w') = db_users (w_db w)"
proof -
  have nodup: "\<exists>e. sql_insert_user uid (rr_email body) ph dn now d = Inl e"
    if "db_users d = db_users (w_db w)" for uid ph dn now d
  proof (cases "CHR 0x00 \<in> set (rr_email body)")
    case True
    then show ?thesis by (simp add: sql_insert_user_def pg_varchar_def)
  next
    case False
    then have "pg_varchar 255 (rr_email body) = Inr (rr_email body)"
      using assms(2) by (rule pg_varchar_fits)
    then show ?thesis
      using assms(1) that by (simp add: sql_insert_user_def split: sum.split)
  qed
  have create: "\<exists>e. create_user E uid (rr_email body) ph dn v = (Inl e, v\<lparr>w_tick := Suc (w_tick v)\<rparr>)"
    if "db_users (w_db v) = db_users (w_db w)" for uid ph dn v
    using nodup [OF that, of uid ph dn "pg_now E (w_tick v)"]
    by (auto simp: create_user_def map_err_run run_stmt_def Let_def split: fault.split)
  obtain r1 w1 where lookup: "get_user_by_email E (rr_email body) w = (r1, w1)" by fastforce
  then have w1: "w_db w1 = w_db w" using get_user_by_email_db by blast
  show ?thesis
  proof (cases "\<exists>u. r1 = Inr (Some u)")
    case True
    with lookup w1 assms(3) show ?thesis
      by (auto simp: register_def act_simps)
  next
    case False
    let ?w2 = "w1\<lparr>w_tick := Suc (w_tick w1)\<rparr>"
    let ?w3 = "w1\<lparr>w_tick := Suc (Suc (w_tick w1))\<rparr>"
    show ?thesis
    proof (cases "argon2_hash E (rr_password body) (os_salt E (w_tick w1))")
      case (Inl e)
      with False lookup w1 assms(3) show ?thesis
        by (auto simp: register_def hash_password_def act_simps split: sum.splits option.splits)
    next
      case (Inr ph)
      obtain e where "create_user E (new_v4 E (Suc (w_tick w1))) (rr_email body) ph
          (rr_display_name body) ?w3 = (Inl e, ?w3\<lparr>w_tick := Suc (w_tick ?w3)\<rparr>)"
        using create [of ?w3] w1 by fastforce
      with False Inr lookup w1 assms(3) show ?thesis
        by (auto simp: register_def hash_password_def act_simps split: sum.splits option.splits)
    qed
  qed
qed

theorem register_never_duplicates_witness:
  "\<exists>e w'. register demo_env demo_state (demo_registration\<lparr>rr_email := ''bob@x''\<rparr>) demo_world = (Inl e, w')"
proof -
  obtain r w' where run: "register demo_env demo_state (demo_registration\<lparr>rr_email := ''bob@x''\<rparr>)
      demo_world = (r, w')" by fastforce
  have "rr_email (demo_registration\<lparr>rr_email := ''bob@x''\<rparr>) \<in> u_email ` set (db_users (w_db demo_world))"
    and "char_count (rr_email (demo_registration\<lparr>rr_email := ''bob@x''\<rparr>)) \<le> 255"
    by (simp_all add: demo_defs char_count_def is_continuation_def)
  from register_never_duplicates [OF this run] run show ?thesis by blast
qed

text \<open>
  How a duplicate is reported depends on which of the two checks sees it: found by the
  lookup it is the 409 the handler has for it; but when the lookup fails (its error is
  ignored) and the unique index catches it, \<open>create_user\<close> still says \<open>Conflict\<close>, and the
  handler answers 500 with that text.
\<close>

theorem register_duplicate_status:
  assumes "rr_email body \<in> u_email ` set (db_users (w_db w))"
    and "CHR 0x00 \<notin> set (rr_email body)" and "char_count (rr_email body) \<le> 255"
    and "rr_display_name body = None"
    and "argon2_hash E (rr_password body) (os_salt E (Suc (w_tick w))) = Inr ph" "CHR 0x00 \<notin> set ph"
    and "new_v4 E (Suc (Suc (w_tick w))) \<notin> user_ids (w_db w)"
    and "contains (db_error_text E (UniqueViolation ''users_email_key'')) ''duplicate key''"
    and "fault_at E (Suc (Suc (Suc (w_tick w)))) = Healthy"
  shows "(fault_at E (w_tick w) = Healthy \<longrightarrow>
      fst (register E st body w) = Inl (CONFLICT, error_json ''Email already registered'')) \<and>
    (fault_at E (w_tick w) = Unreachable m \<longrightarrow>
      fst (register E st body w) = Inl (INTERNAL_SERVER_ERROR,
        error_json (core_error_text (Conflict (user_exists_text (rr_email body))))))"
proof (intro conjI impI)
  assume "fault_at E (w_tick w) = Healthy"
  moreover from assms(1) obtain u where "user_by_email (rr_email body) (w_db w) = Some u"
    by (cases "user_by_email (rr_email body) (w_db w)") (auto simp: user_by_email_def find_None_iff)
  ultimately show "fst (register E st body w) = Inl (CONFLICT, error_json ''Email already registered'')"
    using assms(2) by (simp add: register_def act_simps get_user_by_email_healthy)
next
  assume "fault_at E (w_tick w) = Unreachable m"
  then have "get_user_by_email E (rr_email body) w =
      (Inl (Database (db_error_text E (ConnectionError m))), w\<lparr>w_tick := Suc (w_tick w)\<rparr>)"
    by (simp add: get_user_by_email_def map_err_run run_stmt_unreachable database_error_def)
  with assms show "fst (register E st body w) = Inl (INTERNAL_SERVER_ERROR,
        error_json (core_error_text (Conflict (user_exists_text (rr_email body)))))"
    by (simp add: register_def hash_password_def act_simps create_user_def sql_insert_user_def
        pg_varchar_fits pg_text_def pg_nullable_def create_user_error_def internal_error_def)
qed

theorem register_duplicate_status_witness:
  "fst (register (demo_env_fault 0) demo_state (demo_registration\<lparr>rr_email := ''bob@x''\<rparr>) demo_world) =
     Inl (INTERNAL_SERVER_ERROR, error_json (core_error_text (Conflict (user_exists_text ''bob@x''))))"
  using register_duplicate_status [of "demo_registration\<lparr>rr_email := ''bob@x''\<rparr>" demo_world
      "demo_env_fault 0" "''$argon2id$secret''" demo_state "''timeout''"]
  by (simp add: demo_env_fault_def demo_defs char_count_def is_continuation_def user_ids_def
      demo_db_error_text_def)

end
