(* ===== verification/Sync_Engine.thy ===== *)
theory Sync_Engine
  imports Core_Models
begin

text \<open>
  The crate \<open>crates/sync\<close>: \<open>SyncResult\<close> and \<open>SyncEngine::reconcile_note\<close>, the optimistic
  lock on the version counter of a note. The counter is an \<open>i32\<close>; with overflow checks (a
  debug build) an overflowing \<open>+=\<close> panics, without them (a release build) it wraps.
\<close>

section \<open>Results\<close>

datatype 'a SyncResult =
  Success 'a
| SyncConflict 'a
| SyncError string

section \<open>Rust addition on i32\<close>

text \<open>\<open>a + b\<close>: \<open>None\<close> is the overflow panic of a build with overflow checks.\<close>

definition add_i32 :: "bool \<Rightarrow> i32 \<Rightarrow> i32 \<Rightarrow> i32 option" where
  "add_i32 checks a b = (if checks \<and> sint (a + b) \<noteq> sint a + sint b then None else Some (a + b))"

abbreviation i32_max :: i32 where
  "i32_max \<equiv> 0x7FFFFFFF"

lemma sint_i32_bounds: "- (2 ^ 31) \<le> sint (v :: i32)" "sint (v :: i32) < 2 ^ 31"
  using sint_ge [of v] sint_lt [of v] by simp_all

lemma sint_i32_eq_max: "sint (v :: i32) = 2147483647 \<longleftrightarrow> v = i32_max"
proof
  assume "sint v = 2147483647"
  also have "(2147483647 :: int) = sint i32_max" by simp
  finally show "v = i32_max" by (simp only: signed_word_eqI)
qed simp

lemma sint_i32_Suc:
  assumes "v \<noteq> i32_max"
  shows "sint (v + 1 :: i32) = sint v + 1"
proof -
  have "sint v \<noteq> 2147483647" using assms sint_i32_eq_max by blast
  moreover have "- 2147483648 \<le> sint v" "sint v < 2147483648"
    using sint_i32_bounds [of v] by simp_all
  ultimately have "- (2 ^ 31) \<le> sint v + 1" "sint v + 1 < 2 ^ 31" by simp_all
  then have "signed_take_bit 31 (sint v + 1) = sint v + 1"
    by (simp add: signed_take_bit_int_eq_self)
  then show ?thesis by (simp add: sint_word_ariths)
qed

lemma add_i32_one:
  "add_i32 checks v 1 = (if checks \<and> v = i32_max then None else Some (v + 1))"
  by (cases "v = i32_max") (simp_all add: add_i32_def sint_i32_Suc)

section \<open>The optimistic lock\<close>

fun reconcile_note :: "bool \<Rightarrow> Note \<Rightarrow> Note option \<Rightarrow> Note SyncResult option" where
  "reconcile_note checks client_note None = Some (Success client_note)"
| "reconcile_note checks client_note (Some server) =
     (if n_version client_note = n_version server then
        (case add_i32 checks (n_version client_note) 1 of
           None \<Rightarrow> None
         | Some v \<Rightarrow> Some (Success (client_note\<lparr>n_version := v\<rparr>)))
      else Some (SyncConflict server))"

fun_cases reconcile_SuccessE: "reconcile_note checks c s = Some (Success u)"

lemma reconcile_no_error [simp]: "reconcile_note checks c s \<noteq> Some (SyncError e)"
  by (cases s) (simp_all split: option.split)

lemma reconcile_match:
  "n_version c = n_version s \<Longrightarrow> n_version s \<noteq> i32_max \<Longrightarrow>
    reconcile_note checks c (Some s) = Some (Success (c\<lparr>n_version := n_version s + 1\<rparr>))"
  by (simp add: add_i32_one)

lemma reconcile_mismatch:
  "n_version c \<noteq> n_version s \<Longrightarrow> reconcile_note checks c (Some s) = Some (SyncConflict s)"
  by simp

lemma reconcile_Conflict_iff:
  "reconcile_note checks c s = Some (SyncConflict r) \<longleftrightarrow> s = Some r \<and> n_version c \<noteq> n_version r"
  by (cases s) (auto split: option.splits)

lemma reconcile_panic_iff:
  "reconcile_note checks c s = None \<longleftrightarrow>
    checks \<and> n_version c = i32_max \<and> (\<exists>r. s = Some r \<and> n_version r = i32_max)"
  by (cases s) (auto simp: add_i32_one)

lemma reconcile_Success_id:
  "reconcile_note checks c s = Some (Success u) \<Longrightarrow>
    u = c\<lparr>n_version := n_version u\<rparr>"
  by (elim reconcile_SuccessE) (auto split: if_splits option.splits)

text \<open>
  The optimistic lock, on every branch: the client's note is accepted exactly when the
  server has no copy of it (and then unchanged) or when both carry the same version (and then
  with the version raised by one and nothing else changed); every other update is answered
  with the server's copy itself; and no answer at all comes only from the counter running
  over in a build with overflow checks.
\<close>

theorem reconcile_note_outcomes:
  "(reconcile_note checks c s = Some (Success u) \<longleftrightarrow>
      (s = None \<and> u = c) \<or>
      (\<exists>r. s = Some r \<and> n_version c = n_version r \<and> (checks, n_version r) \<noteq> (True, i32_max) \<and>
           u = c\<lparr>n_version := n_version r + 1\<rparr>)) \<and>
   (reconcile_note checks c s = Some (SyncConflict r) \<longleftrightarrow>
      s = Some r \<and> n_version c \<noteq> n_version r) \<and>
   (reconcile_note checks c s = None \<longleftrightarrow>
      checks \<and> n_version c = i32_max \<and> (\<exists>r. s = Some r \<and> n_version r = i32_max))"
  by (cases s) (auto simp: add_i32_one split: if_splits option.splits)

text \<open>
  The version counter of an accepted update is one more than the server's, as a signed
  number, as long as the server's counter is below the largest \<open>i32\<close>; at the largest \<open>i32\<close> a
  build without overflow checks accepts the update with the smallest \<open>i32\<close> as its version.
\<close>

theorem reconcile_version_counter:
  assumes "reconcile_note checks c (Some r) = Some (Success u)"
  shows "sint (n_version u) =
    (if n_version r = i32_max then - (2 ^ 31) else sint (n_version r) + 1)"
  using assms by (auto simp: add_i32_one sint_i32_Suc split: if_splits option.splits)

text \<open>A concrete note for the witnesses.\<close>

definition sample_note :: Note where
  "sample_note =
     \<lparr>n_id = 7, n_user_id = 1, n_title_cipher = [1, 2, 3], n_content_cipher = [4, 5, 6],
      n_nonce = replicate 12 0, n_version = 1, n_format = ''markdown'', n_tags = [''test''],
      n_created_at = 0, n_updated_at = 0, n_deleted_at = None\<rparr>"

theorem reconcile_version_counter_witness:
  "sint (n_version (sample_note\<lparr>n_version := 2\<rparr>)) = 2"
proof -
  have "reconcile_note True sample_note (Some sample_note) =
      Some (Success (sample_note\<lparr>n_version := 2\<rparr>))"
    by (simp add: add_i32_one sample_note_def)
  from reconcile_version_counter [OF this] show ?thesis
    by (simp add: sample_note_def)
qed

end
