(* ===== verification/Routes_Sync.thy ===== *)
theory Routes_Sync
  imports Middleware Sync_Engine
begin

text \<open>
  \<open>services/api/src/routes/sync.rs\<close>: the batch synchronisation of notes and the upload of
  vault entries, with the SQL statements the handlers issue themselves.
\<close>

section \<open>Vault entries\<close>

definition sql_insert_vault_entry :: "VaultEntry \<Rightarrow> unit stmt" where
  "sql_insert_vault_entry e = (\<lambda>now d.
     case pg_nullable (pg_varchar 100) (ve_mime_type e) of Inl x \<Rightarrow> Inl x
     | Inr mime \<Rightarrow>
        if ve_id e \<in> ve_id ` set (db_vault_entries d) then Inl (UniqueViolation ''vault_entries_pkey'')
        else if ve_note_id e \<notin> note_ids d
        then Inl (ForeignKeyViolation ''vault_entries_note_id_fkey'')
        else if ve_user_id e \<notin> user_ids d
        then Inl (ForeignKeyViolation ''vault_entries_user_id_fkey'')
        else Inr ((), d\<lparr>db_vault_entries :=
          db_vault_entries d @ [e\<lparr>ve_mime_type := mime, ve_created_at := now\<rparr>]\<rparr>))"

definition upload_vault_entry ::
    "env \<Rightarrow> AuthUser \<Rightarrow> VaultEntry \<Rightarrow> (world, 'e, uuid SyncResult) act" where
  "upload_vault_entry E session vault_entry =
     (if ve_user_id vault_entry \<noteq> au_user_id session then ok (SyncError ''Unauthorized'')
      else and_then (attempt (run_stmt E (sql_insert_vault_entry vault_entry))) (\<lambda>res.
        case res of
          Inr _ \<Rightarrow> ok (Success (ve_id vault_entry))
        | Inl e \<Rightarrow> ok (SyncError (db_error_text E e))))"

section \<open>Notes\<close>

text \<open>\<open>SELECT * FROM notes WHERE id = $1 AND user_id = $2\<close>: deleted notes included.\<close>

definition sql_select_note :: "uuid \<Rightarrow> uuid \<Rightarrow> datetime \<Rightarrow> db \<Rightarrow> db_error + Note option" where
  "sql_select_note nid uid now d = Inr (find (own_row uid nid) (db_notes d))"

text \<open>
  \<open>INSERT .. ON CONFLICT (id) DO UPDATE\<close>: the columns it names are written into the row with
  that id, whoever owns it; without one a row is inserted with the defaults of the schema in
  the columns it does not name.
\<close>

definition upsert_columns :: "Note \<Rightarrow> datetime \<Rightarrow> Note \<Rightarrow> Note" where
  "upsert_columns n now r =
     r\<lparr>n_title_cipher := n_title_cipher n, n_content_cipher := n_content_cipher n,
       n_nonce := n_nonce n, n_version := n_version n, n_updated_at := now\<rparr>"

definition inserted_row :: "Note \<Rightarrow> datetime \<Rightarrow> Note" where
  "inserted_row n now =
     n\<lparr>n_format := ''markdown'', n_tags := [], n_created_at := now, n_updated_at := now,
       n_deleted_at := None\<rparr>"

definition sql_upsert_note :: "Note \<Rightarrow> unit stmt" where
  "sql_upsert_note n = (\<lambda>now d.
     if n_id n \<in> note_ids d
     then Inr ((), d\<lparr>db_notes :=
       tbl_update (\<lambda>r. n_id r = n_id n) (upsert_columns n now) (db_notes d)\<rparr>)
     else if n_user_id n \<notin> user_ids d then Inl (ForeignKeyViolation ''notes_user_id_fkey'')
     else Inr ((), d\<lparr>db_notes := db_notes d @ [inserted_row n now]\<rparr>))"

text \<open>
  One iteration of the loop: the result pushed for one note. The error of the action is the
  overflow panic of \<open>reconcile_note\<close>, which ends the request.
\<close>

datatype panic = ArithmeticOverflow

lemma the_panic: "p = ArithmeticOverflow"
  by (cases p) simp

definition sync_note :: "env \<Rightarrow> AuthUser \<Rightarrow> Note \<Rightarrow> (world, panic, Note SyncResult) act" where
  "sync_note E session client_note =
     (if n_user_id client_note \<noteq> au_user_id session
      then ok (SyncError ''Unauthorized note ownership'')
      else and_then (attempt (run_stmt E
             (query (sql_select_note (n_id client_note) (au_user_id session))))) (\<lambda>fetched.
        let server_note = (case fetched of Inl _ \<Rightarrow> None | Inr r \<Rightarrow> r)
        in case reconcile_note (overflow_checks E) client_note server_note of
             None \<Rightarrow> err ArithmeticOverflow
           | Some (Success updated_note) \<Rightarrow>
               and_then (attempt (run_stmt E (sql_upsert_note updated_note))) (\<lambda>res.
                 case res of
                   Inr _ \<Rightarrow> ok (Success updated_note)
                 | Inl _ \<Rightarrow> ok (SyncError ''Database update failed''))
           | Some (SyncConflict server_version) \<Rightarrow> ok (SyncConflict server_version)
           | Some (SyncError e) \<Rightarrow> ok (SyncError e)))"

fun sync_loop ::
    "env \<Rightarrow> AuthUser \<Rightarrow> Note list \<Rightarrow> Note SyncResult list \<Rightarrow>
      (world, panic, Note SyncResult list) act" where
  "sync_loop E session [] results = ok results"
| "sync_loop E session (client_note # client_notes) results =
     and_then (sync_note E session client_note) (\<lambda>r.
       sync_loop E session client_notes (results @ [r]))"

definition sync_notes ::
    "env \<Rightarrow> AuthUser \<Rightarrow> Note list \<Rightarrow> (world, panic, Note SyncResult list) act" where
  "sync_notes E session client_notes = sync_loop E session client_notes []"

section \<open>Well-formedness\<close>

lemma vault_insert_inv [intro]: "stmt_effect (preserves db_inv) (sql_insert_vault_entry e)"
  by (rule stmt_effectI)
    (auto simp: preserves_def sql_insert_vault_entry_def
      intro!: db_inv_insert_vault_entry split: sum.splits if_splits)

lemma upsert_keys [simp]:
  "n_id (upsert_columns n now r) = n_id r" "n_user_id (upsert_columns n now r) = n_user_id r"
  "n_id (inserted_row n now) = n_id n" "n_user_id (inserted_row n now) = n_user_id n"
  by (simp_all add: upsert_columns_def inserted_row_def)

lemma upsert_inv [intro]: "stmt_effect (preserves db_inv) (sql_upsert_note n)"
  by (rule stmt_effectI)
    (auto simp: preserves_def sql_upsert_note_def
      intro!: db_inv_update_notes db_inv_insert_note split: if_splits)

text \<open>The same closure argument serves every relation on the tables.\<close>

context db_relation
begin

lemma effect_upload [intro]:
  assumes "\<And>e. stmt_effect R (sql_insert_vault_entry e)"
  shows "effect (on_db R) (upload_vault_entry E session v)"
  unfolding upload_vault_entry_def by (intro db_effect_intros assms)

lemma effect_sync_note:
  assumes "\<And>n. stmt_effect R (sql_upsert_note n)"
  shows "effect (on_db R) (sync_note E session c)"
  unfolding sync_note_def Let_def
  by (intro db_effect_intros stmt_effect_query)
    (auto split: SyncResult.split option.split intro!: db_effect_intros assms)

lemma effect_sync_loop:
  assumes "\<And>n. stmt_effect R (sql_upsert_note n)"
  shows "effect (on_db R) (sync_loop E session cs rs)"
  by (induction cs arbitrary: rs) (auto intro!: db_effect_intros effect_sync_note [OF assms])

lemma effect_sync_notes [intro]:
  assumes "\<And>n. stmt_effect R (sql_upsert_note n)"
  shows "effect (on_db R) (sync_notes E session cs)"
  unfolding sync_notes_def by (rule effect_sync_loop [OF assms])

end

lemma upsert_grow [intro]: "stmt_effect tokens_grow (sql_upsert_note n)"
  by (rule stmt_effectI) (auto simp: sql_upsert_note_def split: if_splits)

lemma vault_insert_grow [intro]: "stmt_effect tokens_grow (sql_insert_vault_entry e)"
  by (rule stmt_effectI) (auto simp: sql_insert_vault_entry_def split: sum.splits if_splits)

end
