(* ===== verification/Api_Main.thy ===== *)
theory Api_Main
  imports Routes_Auth Routes_Sync
begin

text \<open>
  \<open>services/api/src/main.rs\<close>: start-up from the process environment, the router with its
  public and protected routes, and the service as a whole: a request is routed, authenticated
  where the route asks for it, and handled; the states that any sequence of requests can
  reach are \<open>reachable\<close>.
\<close>

section \<open>Start-up\<close>

text \<open>
  \<open>var\<close> is \<open>std::env::var\<close> after \<open>dotenvy\<close> has run, \<open>b64\<close> the standard Base64 decoder,
  \<open>connects\<close> whether the pool can be built for a URL. \<open>Inl\<close> is the panic of an \<open>expect\<close>.
\<close>

definition startup ::
    "(string \<Rightarrow> string option) \<Rightarrow> (string \<Rightarrow> bytes option) \<Rightarrow> (string \<Rightarrow> bool) \<Rightarrow> string + app_state" where
  "startup var b64 connects =
     (case var ''DATABASE_URL'' of
        None \<Rightarrow> Inl ''DATABASE_URL environment variable must be set.''
      | Some database_url \<Rightarrow> (case var ''JWT_PRIVATE_KEY'' of
        None \<Rightarrow> Inl ''JWT_PRIVATE_KEY environment variable must be set.''
      | Some priv_key_b64 \<Rightarrow> (case var ''JWT_PUBLIC_KEY'' of
        None \<Rightarrow> Inl ''JWT_PUBLIC_KEY environment variable must be set.''
      | Some pub_key_b64 \<Rightarrow> (case b64 priv_key_b64 of
        None \<Rightarrow> Inl ''Invalid Base64 in JWT_PRIVATE_KEY''
      | Some private_key \<Rightarrow> (case b64 pub_key_b64 of
        None \<Rightarrow> Inl ''Invalid Base64 in JWT_PUBLIC_KEY''
      | Some public_key \<Rightarrow>
          if connects database_url
          then Inr \<lparr>jwt_private_key = private_key, jwt_public_key = public_key\<rparr>
          else Inl ''Failed to construct Postgres Pool. Ensure Docker is running.'')))))"

section \<open>Routes\<close>

datatype http_method = GET | HEAD | POST | OtherMethod string

datatype route = Health | Register | Login | Refresh | Me | SyncNotes | SyncVaultEntries

definition public_routes :: "(string \<times> route) list" where
  "public_routes =
     [(''/health'', Health), (''/auth/register'', Register), (''/auth/login'', Login),
      (''/auth/refresh'', Refresh)]"

definition protected_routes :: "(string \<times> route) list" where
  "protected_routes =
     [(''/me'', Me), (''/sync/notes'', SyncNotes), (''/sync/vault_entries'', SyncVaultEntries)]"

text \<open>\<open>get(..)\<close> answers GET and HEAD, \<open>post(..)\<close> answers POST.\<close>

fun method_allowed :: "route \<Rightarrow> http_method \<Rightarrow> bool" where
  "method_allowed Health m = (m = GET \<or> m = HEAD)"
| "method_allowed Me m = (m = GET \<or> m = HEAD)"
| "method_allowed r m = (m = POST)"

text \<open>
  A request, its body already read by the \<open>Json\<close> extractor: a value of one of the request
  types, or the status and the text with which the extractor refuses it. A handler without an
  extractor leaves the body unread.
\<close>

datatype body =
  RegisterBody RegisterRequest
| LoginBody LoginRequest
| RefreshBody RefreshRequest
| NotesBody "Note list"
| VaultBody VaultEntry
| RefusedBody status_code string
| Unread

record request =
  req_method :: http_method
  req_path :: string
  req_authorization :: "bytes option"
  req_body :: body

datatype payload =
  Text string
| AuthPayload AuthResponse
| JsonPayload json
| NoteResults "Note SyncResult list"
| VaultResult "uuid SyncResult"
| NoPayload

type_synonym response = "status_code \<times> payload"

text \<open>The answer of the extractor itself; a body of another type than the route's does not occur.\<close>

definition refusal :: "body \<Rightarrow> response" where
  "refusal b = (case b of RefusedBody s msg \<Rightarrow> (s, Text msg) | _ \<Rightarrow> (UNPROCESSABLE_ENTITY, Text ''''))"

definition health_check :: response where
  "health_check = (OK, Text ''Ok'')"

definition me :: "env \<Rightarrow> AuthUser \<Rightarrow> response" where
  "me E auth_user =
     (OK, JsonPayload (JObj [(''user_id'', JStr (uuid_to_string E (au_user_id auth_user)))]))"

text \<open>\<open>Result<(StatusCode, Json<..>), (StatusCode, Json<..>)>\<close> as a response.\<close>

definition into_response ::
    "(world, http_error, status_code \<times> AuthResponse) act \<Rightarrow> (world, panic, response) act" where
  "into_response m = and_then (attempt m) (\<lambda>r.
     case r of Inl (s, j) \<Rightarrow> ok (s, JsonPayload j) | Inr (s, a) \<Rightarrow> ok (s, AuthPayload a))"

definition public_handler ::
    "env \<Rightarrow> app_state \<Rightarrow> route \<Rightarrow> body \<Rightarrow> (world, panic, response) act" where
  "public_handler E st r b =
     (case (r, b) of
        (Health, _) \<Rightarrow> ok health_check
      | (Register, RegisterBody q) \<Rightarrow> into_response (register E st q)
      | (Login, LoginBody q) \<Rightarrow> into_response (login E st q)
      | (Refresh, RefreshBody q) \<Rightarrow> into_response (refresh E st q)
      | _ \<Rightarrow> ok (refusal b))"

definition protected_handler ::
    "env \<Rightarrow> route \<Rightarrow> body \<Rightarrow> AuthUser \<Rightarrow> (world, panic, response) act" where
  "protected_handler E r b session =
     (case (r, b) of
        (Me, _) \<Rightarrow> ok (me E session)
      | (SyncNotes, NotesBody ns) \<Rightarrow>
          and_then (sync_notes E session ns) (\<lambda>rs. ok (OK, NoteResults rs))
      | (SyncVaultEntries, VaultBody v) \<Rightarrow>
          and_then (upload_vault_entry E session v) (\<lambda>res. ok (OK, VaultResult res))
      | _ \<Rightarrow> ok (refusal b))"

text \<open>The router \<open>protected_routes\<close> before its layer: a path that it does not know is its fallback.\<close>

definition protected_service :: "env \<Rightarrow> request \<Rightarrow> AuthUser \<Rightarrow> (world, panic, response) act" where
  "protected_service E req session =
     (case map_of protected_routes (req_path req) of
        Some r \<Rightarrow>
          if method_allowed r (req_method req) then protected_handler E r (req_body req) session
          else ok (METHOD_NOT_ALLOWED, NoPayload)
      | None \<Rightarrow> ok (NOT_FOUND, NoPayload))"

text \<open>
  The middleware is added with \<open>layer\<close>, so it comes before the method check and the body of the
  protected routes, and before their fallback too; \<open>merge\<close> keeps the fallback of the router that is
  merged last, so every path that is not public passes the middleware. Its own error becomes
  the response; a panic of the handler ends the request without one.
\<close>

definition handle_request :: "env \<Rightarrow> app_state \<Rightarrow> request \<Rightarrow> (world, panic, response) act" where
  "handle_request E st req =
     (case map_of public_routes (req_path req) of
        Some r \<Rightarrow>
          if method_allowed r (req_method req) then public_handler E st r (req_body req)
          else ok (METHOD_NOT_ALLOWED, NoPayload)
      | None \<Rightarrow>
          and_then
            (attempt (require_auth E st (req_authorization req) (\<lambda>session.
               attempt (protected_service E req session))))
            (\<lambda>res. case res of
               Inl (s, j) \<Rightarrow> ok (s, JsonPayload j)
             | Inr r \<Rightarrow> lift_result r))"

section \<open>Which handler runs\<close>

definition route_at :: "string \<Rightarrow> route option" where
  "route_at path = map_of (public_routes @ protected_routes) path"

lemma public_routes_at:
  "map_of public_routes path = Some r \<Longrightarrow>
    r \<in> {Health, Register, Login, Refresh} \<and> route_at path = Some r \<and>
    map_of protected_routes path = None"
  by (auto simp: public_routes_def protected_routes_def route_at_def split: if_splits)

lemma protected_routes_at:
  "map_of protected_routes path = Some r \<Longrightarrow>
    r \<in> {Me, SyncNotes, SyncVaultEntries} \<and> route_at path = Some r \<and> map_of public_routes path = None"
  by (auto simp: public_routes_def protected_routes_def route_at_def split: if_splits)

text \<open>Behind the middleware: every path that is not public.\<close>

lemma layered_request:
  assumes "map_of public_routes (req_path req) = None"
  shows "handle_request E st req w =
    and_then (attempt (require_auth E st (req_authorization req) (\<lambda>session. attempt (protected_service E req session))))
      (\<lambda>res. case res of Inl (s, j) \<Rightarrow> ok (s, JsonPayload j) | Inr r \<Rightarrow> lift_result r) w"
  using assms by (simp add: handle_request_def)

lemma layered_rejected:
  assumes "map_of public_routes (req_path req) = None"
    and "authenticated E st (req_authorization req) (utc_now E (w_tick w)) = None"
  shows "\<exists>msg w'. handle_request E st req w = (Inr (UNAUTHORIZED, JsonPayload (error_json msg)), w') \<and>
    w_db w' = w_db w"
proof -
  obtain msg w' where "require_auth E st (req_authorization req)
      (\<lambda>session. attempt (protected_service E req session)) w = (Inl (UNAUTHORIZED, error_json msg), w')"
    "w_db w' = w_db w"
    using require_auth_rejected [OF assms(2)] by blast
  then show ?thesis
    by (auto simp: layered_request [OF assms(1)] and_then_run attempt_run ok_run)
qed

lemma layered_granted:
  assumes "map_of public_routes (req_path req) = None"
    and "authenticated E st (req_authorization req) (utc_now E (w_tick w)) = Some uid"
  shows "handle_request E st req w =
    protected_service E req \<lparr>au_user_id = uid\<rparr> (w\<lparr>w_tick := Suc (w_tick w)\<rparr>)"
  by (auto simp: layered_request [OF assms(1)] require_auth_authenticated [OF assms(2)]
      and_then_run attempt_run lift_result_run ok_run split: prod.split)

lemma protected_request_rejected:
  assumes "map_of protected_routes (req_path req) = Some r"
    and "authenticated E st (req_authorization req) (utc_now E (w_tick w)) = None"
  shows "\<exists>msg w'. handle_request E st req w = (Inr (UNAUTHORIZED, JsonPayload (error_json msg)), w') \<and>
    w_db w' = w_db w"
  using protected_routes_at [OF assms(1)] by (intro layered_rejected [OF _ assms(2)]) simp

lemma protected_request_granted:
  assumes "map_of protected_routes (req_path req) = Some r"
    and "authenticated E st (req_authorization req) (utc_now E (w_tick w)) = Some uid"
  shows "handle_request E st req w =
    (if method_allowed r (req_method req)
     then protected_handler E r (req_body req) \<lparr>au_user_id = uid\<rparr> (w\<lparr>w_tick := Suc (w_tick w)\<rparr>)
     else (Inr (METHOD_NOT_ALLOWED, NoPayload), w\<lparr>w_tick := Suc (w_tick w)\<rparr>))"
  using protected_routes_at [OF assms(1)] assms(1)
  by (subst layered_granted [OF _ assms(2)]) (simp_all add: protected_service_def ok_run)

lemma public_request:
  "map_of public_routes (req_path req) = Some r \<Longrightarrow> handle_request E st req =
    (if method_allowed r (req_method req) then public_handler E st r (req_body req)
     else ok (METHOD_NOT_ALLOWED, NoPayload))"
  by (simp add: handle_request_def)

lemma unknown_path:
  "route_at path = None \<longleftrightarrow> map_of public_routes path = None \<and> map_of protected_routes path = None"
  by (auto simp: route_at_def map_add_def split: option.splits)

text \<open>An unknown path is only told to be unknown to a user with a token.\<close>

lemma unknown_request:
  assumes "route_at (req_path req) = None"
  shows "case authenticated E st (req_authorization req) (utc_now E (w_tick w)) of
      None \<Rightarrow> \<exists>msg w'. handle_request E st req w = (Inr (UNAUTHORIZED, JsonPayload (error_json msg)), w') \<and>
        w_db w' = w_db w
    | Some uid \<Rightarrow> handle_request E st req w = (Inr (NOT_FOUND, NoPayload), w\<lparr>w_tick := Suc (w_tick w)\<rparr>)"
  using assms layered_rejected [of req E st w] layered_granted [of req E st w]
  by (simp add: unknown_path protected_service_def ok_run split: option.split)

section \<open>Effects of a request\<close>

text \<open>
  A relation on the tables that all statements of the API respect is respected by every
  request, whatever it is and however it ends.
\<close>

definition login_respects :: "(db \<Rightarrow> db \<Rightarrow> bool) \<Rightarrow> bool" where
  "login_respects R \<longleftrightarrow>
     (\<forall>uid email ph dn. stmt_effect R (sql_insert_user uid email ph dn)) \<and>
     (\<forall>tok. stmt_effect R (sql_insert_token tok))"

definition auth_respects :: "(db \<Rightarrow> db \<Rightarrow> bool) \<Rightarrow> bool" where
  "auth_respects R \<longleftrightarrow> login_respects R \<and> (\<forall>p. stmt_effect R (sql_revoke p))"

definition api_respects :: "(db \<Rightarrow> db \<Rightarrow> bool) \<Rightarrow> bool" where
  "api_respects R \<longleftrightarrow> auth_respects R \<and>
     (\<forall>n. stmt_effect R (sql_upsert_note n)) \<and> (\<forall>e. stmt_effect R (sql_insert_vault_entry e))"

lemma api_respectsD:
  "api_respects R \<Longrightarrow> auth_respects R" "api_respects R \<Longrightarrow> stmt_effect R (sql_upsert_note n)"
  "api_respects R \<Longrightarrow> stmt_effect R (sql_insert_vault_entry e)"
  by (simp_all add: api_respects_def)

lemma auth_respectsD:
  "auth_respects R \<Longrightarrow> login_respects R" "auth_respects R \<Longrightarrow> stmt_effect R (sql_revoke p)"
  by (simp_all add: auth_respects_def)

lemmas respects_defs = api_respects_def auth_respects_def login_respects_def

context db_relation
begin

lemma effect_login_store:
  assumes "login_respects R"
  shows "effect (on_db R) (create_user E uid email ph dn)"
    and "effect (on_db R) (get_user_by_email E email)"
    and "effect (on_db R) (store_refresh_token E tok)"
    and "effect (on_db R) (get_valid_refresh_token E h)"
  using assms unfolding auth_store_defs login_respects_def
  by (auto intro!: db_effect_intros stmt_effect_query)

lemma effect_revoke:
  "stmt_effect R (sql_revoke (\<lambda>r. rt_id r = i)) \<Longrightarrow> effect (on_db R) (revoke_refresh_token E i)"
  unfolding auth_store_defs by (intro db_effect_intros)

lemma effect_token_pair: "login_respects R \<Longrightarrow> effect (on_db R) (generate_token_pair E st uid)"
  unfolding generate_token_pair_def by (intro db_effect_intros effect_login_store)

lemmas effect_auth_store = effect_login_store [OF auth_respectsD(1)] effect_revoke [OF auth_respectsD(2)]

lemma effect_auth_routes:
  assumes "auth_respects R"
  shows "effect (on_db R) (register E st reg)"
    and "effect (on_db R) (login E st log)"
    and "effect (on_db R) (refresh E st ref)"
  unfolding auth_handler_defs
  by (intro db_effect_intros effect_auth_store [OF assms])+

lemma effect_require_auth:
  assumes "\<And>session. effect (on_db R) (next session)"
  shows "effect (on_db R) (require_auth E st header next)"
  unfolding require_auth_def by (intro db_effect_intros assms)

lemma effect_public:
  assumes "auth_respects R"
  shows "effect (on_db R) (public_handler E st r b)"
  unfolding public_handler_def into_response_def
  by (auto split: route.split body.split intro!: db_effect_intros effect_auth_routes [OF assms])

lemma effect_protected:
  assumes "api_respects R"
  shows "effect (on_db R) (protected_handler E r b session)"
  unfolding protected_handler_def
  by (auto split: route.split body.split
      intro!: db_effect_intros effect_sync_notes effect_upload api_respectsD(2,3) [OF assms])

lemma effect_request:
  assumes "api_respects R"
  shows "effect (on_db R) (handle_request E st req)"
  unfolding handle_request_def protected_service_def
  by (auto split: option.split prod.split
      intro!: db_effect_intros effect_require_auth effect_public [OF api_respectsD(1) [OF assms]]
        effect_protected [OF assms])

end

lemma api_respects_inv: "api_respects (preserves db_inv)"
  by (auto simp: respects_defs)

lemma api_respects_grow: "api_respects tokens_grow"
  by (auto simp: respects_defs)

section \<open>Reachable states\<close>

text \<open>The service answers a sequence of requests one after the other.\<close>

definition serve :: "env \<Rightarrow> app_state \<Rightarrow> request list \<Rightarrow> world \<Rightarrow> world" where
  "serve E st reqs w = fold (\<lambda>req v. snd (handle_request E st req v)) reqs w"

lemma serve_Nil [simp]: "serve E st [] w = w"
  by (simp add: serve_def)

lemma serve_Cons [simp]: "serve E st (req # reqs) w = serve E st reqs (snd (handle_request E st req w))"
  by (simp add: serve_def)

context db_relation
begin

lemma effect_serve:
  assumes "api_respects R"
  shows "R (w_db w) (w_db (serve E st reqs w))"
proof (induction reqs arbitrary: w)
  case Nil
  then show ?case by (simp add: db_refl)
next
  case (Cons req reqs)
  have "R (w_db w) (w_db (snd (handle_request E st req w)))"
    using effect_request [OF assms] by (simp add: effect_def on_db_def)
  with Cons show ?case by (auto intro: db_trans)
qed

end


inductive reachable :: "env \<Rightarrow> app_state \<Rightarrow> world \<Rightarrow> bool" for E st where
  reachable_init: "reachable E st \<lparr>w_db = empty_db, w_tick = t\<rparr>"
| reachable_request: "reachable E st w \<Longrightarrow> handle_request E st req w = (r, w') \<Longrightarrow> reachable E st w'"

lemma reachable_inv: "reachable E st w \<Longrightarrow> db_inv (w_db w)"
proof (induction rule: reachable.induct)
  case (reachable_init t)
  then show ?case by simp
next
  case (reachable_request w req r w')
  then show ?case
    using inv.effect_request [OF api_respects_inv, THEN effectD, OF reachable_request.hyps(2)]
    by (simp add: on_db_def preserves_def)
qed

lemma reachable_serve: "reachable E st w \<Longrightarrow> reachable E st (serve E st reqs w)"
  by (induction reqs arbitrary: w) (auto intro: reachable_request surjective_pairing)

end
