(* ===== verification/Token_Rotation.thy ===== *)
theory Token_Rotation
  imports Sessions Api_Main
begin

text \<open>
  Refresh-token rotation (\<open>refresh\<close> in \<open>services/api/src/routes/auth.rs\<close> over the statements
  of \<open>crates/store/src/pg/auth.rs\<close>): a refresh token is exchanged for a new pair and spent.
\<close>

section \<open>What a successful refresh does\<close>

lemma revoke_refresh_token_InrE:
  assumes "revoke_refresh_token E i w = (Inr z, w')"
  obtains "w' = w\<lparr>w_tick := Suc (w_tick w), w_db := (w_db w)\<lparr>db_refresh_tokens :=
      tbl_update (\<lambda>r. rt_id r = i) (\<lambda>r. r\<lparr>rt_revoked := True\<rparr>) (db_refresh_tokens (w_db w))\<rparr>\<rparr>"
  using assms unfolding revoke_refresh_token_def
  by (auto elim!: map_err_InrE run_stmt_InrE simp: sql_revoke_def)

lemma get_valid_refresh_token_SomeE:
  assumes "get_valid_refresh_token E h w = (Inr (Some tok), w')"
  obtains "tok \<in> set (db_refresh_tokens (w_db w))" and "valid_token h (pg_now E (w_tick w)) tok"
    and "CHR 0x00 \<notin> set h" and "w' = w\<lparr>w_tick := Suc (w_tick w)\<rparr>"
  using assms unfolding get_valid_refresh_token_def
  by (auto elim!: map_err_InrE run_stmt_InrE simp: query_def sql_select_token_def pg_text_def
      find_Some_iff split: sum.splits if_splits)

lemma refresh_effect:
  assumes "refresh E st body w = (Inr (s, ar), w')"
  obtains tok rid where "s = OK" and "tok \<in> set (db_refresh_tokens (w_db w))"
    and "valid_token (hash_token E (rf_refresh_token body)) (pg_now E (w_tick w)) tok"
    and "w_db w' = (w_db w)\<lparr>db_refresh_tokens :=
      tbl_update (\<lambda>r. rt_id r = rt_id tok) (\<lambda>r. r\<lparr>rt_revoked := True\<rparr>) (db_refresh_tokens (w_db w)) @
      [refresh_record E (rt_user_id tok) (utc_now E (w_tick w + 2)) (ar_refresh_token ar) rid]\<rparr>"
proof -
  from assms obtain tok w1 w2 where s: "s = OK"
    and get: "get_valid_refresh_token E (hash_token E (rf_refresh_token body)) w = (Inr (Some tok), w1)"
    and rev: "revoke_refresh_token E (rt_id tok) w1 = (Inr (), w2)"
    and pair: "generate_token_pair E st (rt_user_id tok) w2 = (Inr ar, w')"
    by (elim refresh_InrE)
  from get rev have w2: "w_tick w2 = w_tick w + 2" "w_db w2 = (w_db w)\<lparr>db_refresh_tokens :=
      tbl_update (\<lambda>r. rt_id r = rt_id tok) (\<lambda>r. r\<lparr>rt_revoked := True\<rparr>) (db_refresh_tokens (w_db w))\<rparr>"
    by (auto elim!: get_valid_refresh_token_SomeE revoke_refresh_token_InrE)
  from pair have "w_db w' = (w_db w2)\<lparr>db_refresh_tokens := db_refresh_tokens (w_db w2) @
      [refresh_record E (rt_user_id tok) (utc_now E (w_tick w + 2)) (ar_refresh_token ar)
        (new_v4 E (Suc (Suc (w_tick w2))))]\<rparr>"
    by (elim generate_token_pair_InrE) (simp add: w2(1))
  with s get w2(2) that show ?thesis by (auto elim!: get_valid_refresh_token_SomeE)
qed

text \<open>
  C29. Rotation: a refresh succeeds only for a stored token with the hash of the presented one
  that is neither revoked nor expired, and then the table of refresh tokens is the old one
  with that token revoked and one new token added, for the same user, valid for 30 days and
  stored as the hash of the token the client receives; nothing else in the database changes.
\<close>

theorem refresh_rotates:
  assumes "refresh E st body w = (Inr (s, ar), w')"
  shows "\<exists>tok new. s = OK \<and> tok \<in> set (db_refresh_tokens (w_db w)) \<and>
    rt_token_hash tok = hash_token E (rf_refresh_token body) \<and> \<not> rt_revoked tok \<and>
    pg_now E (w_tick w) < rt_expires_at tok \<and>
    w_db w' = (w_db w)\<lparr>db_refresh_tokens :=
      map (\<lambda>r. if rt_id r = rt_id tok then r\<lparr>rt_revoked := True\<rparr> else r) (db_refresh_tokens (w_db w))
      @ [new]\<rparr> \<and>
    rt_user_id new = rt_user_id tok \<and> \<not> rt_revoked new \<and>
    rt_token_hash new = hash_token E (ar_refresh_token ar) \<and>
    rt_expires_at new = utc_now E (w_tick w + 2) + duration_days 30"
proof -
  obtain tok rid where tok: "s = OK" "tok \<in> set (db_refresh_tokens (w_db w))"
    "valid_token (hash_token E (rf_refresh_token body)) (pg_now E (w_tick w)) tok"
    "w_db w' = (w_db w)\<lparr>db_refresh_tokens :=
      tbl_update (\<lambda>r. rt_id r = rt_id tok) (\<lambda>r. r\<lparr>rt_revoked := True\<rparr>) (db_refresh_tokens (w_db w)) @
      [refresh_record E (rt_user_id tok) (utc_now E (w_tick w + 2)) (ar_refresh_token ar) rid]\<rparr>"
    by (rule refresh_effect [OF assms])
  show ?thesis
    by (intro exI [of _ tok] exI [of _ "refresh_record E (rt_user_id tok) (utc_now E (w_tick w + 2))
        (ar_refresh_token ar) rid"])
      (use tok in \<open>simp add: valid_token_def refresh_record_def tbl_update_def\<close>)
qed

text \<open>A demonstration session: one refresh token of the first user.\<close>

definition demo_token :: RefreshToken where
  "demo_token = \<lparr>rt_id = 50, rt_user_id = 1, rt_token_hash = ''#t0'', rt_expires_at = duration_days 30,
     rt_revoked = False, rt_created_at = 0\<rparr>"

definition demo_session :: world where
  "demo_session = demo_world\<lparr>w_db := demo_db\<lparr>db_refresh_tokens := [demo_token]\<rparr>\<rparr>"

lemma demo_session_inv [simp]: "db_inv (w_db demo_session)"
  by (simp add: demo_session_def demo_token_def demo_defs db_inv_def user_ids_def note_ids_def)

lemma demo_refresh:
  "\<exists>ar w'. refresh demo_env demo_state \<lparr>rf_refresh_token = ''t0''\<rparr> demo_session = (Inr (OK, ar), w')"
proof -
  let ?w = "\<lparr>w_db = demo_db\<lparr>db_refresh_tokens := [demo_token\<lparr>rt_revoked := True\<rparr>]\<rparr>, w_tick = Suc (Suc 0)\<rparr>"
  obtain ar w' where pair: "generate_token_pair demo_env demo_state 1 ?w = (Inr ar, w')"
    using demo_token_pair_succeeds [of 1 ?w]
    by (auto simp: demo_token_def demo_db_def demo_user_def user_ids_def)
  have found: "find (valid_token ''#t0'' 0) [demo_token] = Some demo_token"
    by (simp add: demo_token_def valid_token_def duration_days_def duration_seconds_def)
  have user: "rt_user_id demo_token = 1" by (simp add: demo_token_def)
  show ?thesis
    using pair found user
    by (simp add: refresh_def act_simps hash_token_def get_valid_refresh_token_healthy
        revoke_refresh_token_def run_stmt_healthy sql_revoke_def tbl_update_def demo_session_def
        demo_world_def)
qed

theorem refresh_rotates_witness:
  "\<exists>ar w' new. refresh demo_env demo_state \<lparr>rf_refresh_token = ''t0''\<rparr> demo_session = (Inr (OK, ar), w') \<and>
     db_refresh_tokens (w_db w') = [demo_token\<lparr>rt_revoked := True\<rparr>, new] \<and> rt_user_id new = 1"
proof -
  obtain ar w' where run: "refresh demo_env demo_state \<lparr>rf_refresh_token = ''t0''\<rparr> demo_session =
      (Inr (OK, ar), w')" using demo_refresh by blast
  from refresh_rotates [OF this] show ?thesis
    using run by (fastforce simp: demo_session_def demo_token_def)
qed

section \<open>Tokens are single-use\<close>

text \<open>
  A spent token is refused: presented again right after its successful use, it is answered
  401 and nothing changes, provided no second live token has the same hash.
\<close>

theorem refresh_replay_rejected:
  assumes "db_inv (w_db w)" and "refresh E st body w = (Inr (s, ar), w')"
    and "live_tokens (w_db w) (hash_token E (rf_refresh_token body)) \<subseteq> {i}"
    and "hash_token E (ar_refresh_token ar) \<noteq> hash_token E (rf_refresh_token body)"
    and "fault_at E (w_tick w') = Healthy"
  shows "refresh E st body w' =
    (Inl (UNAUTHORIZED, error_json ''Invalid or expired refresh token''), w'\<lparr>w_tick := Suc (w_tick w')\<rparr>)"
proof -
  let ?h = "hash_token E (rf_refresh_token body)"
  from assms(2) obtain tok w1 w2 where
    get: "get_valid_refresh_token E ?h w = (Inr (Some tok), w1)"
    and rev: "revoke_refresh_token E (rt_id tok) w1 = (Inr (), w2)"
    and pair: "generate_token_pair E st (rt_user_id tok) w2 = (Inr ar, w')"
    by (elim refresh_InrE)
  from pg_tokens.find_law [OF assms(1) get] have w1: "db_inv (w_db w1)"
    "live_tokens (w_db w1) = live_tokens (w_db w)" "rt_id tok \<in> live_tokens (w_db w) ?h" by auto
  with assms(3) have only: "live_tokens (w_db w1) ?h \<subseteq> {rt_id tok}" by auto
  from pg_tokens.revoke_law [OF w1(1) rev] have w2: "db_inv (w_db w2)" by simp
  from pair obtain w3 new where w3: "w_db w3 = w_db w2"
    and store: "store_refresh_token E new w3 = (Inr (), w')"
    and new: "rt_token_hash new = hash_token E (ar_refresh_token ar)"
    by (elim generate_token_pair_storeE)
  have nul: "CHR 0x00 \<notin> set ?h" using get by (elim get_valid_refresh_token_SomeE)
  obtain x where again: "get_valid_refresh_token E ?h w' = (Inr x, w'\<lparr>w_tick := Suc (w_tick w')\<rparr>)"
    using get_valid_refresh_token_healthy [OF assms(5) nul] by blast
  have "x = None"
    by (rule pg_tokens.spent_token_not_found [OF w1(1) only rev _ _ store _ again])
      (use w2 w3 new assms(4) in simp_all)
  with again show ?thesis by (simp add: refresh_def act_simps)
qed

lemma demo_refresh_hash:
  assumes "refresh demo_env demo_state \<lparr>rf_refresh_token = ''t0''\<rparr> demo_session = (Inr (s, ar), w')"
  shows "hash_token demo_env (ar_refresh_token ar) \<noteq> hash_token demo_env ''t0''"
proof -
  from assms obtain tok w1 w2 where "s = OK"
    and "get_valid_refresh_token demo_env
      (hash_token demo_env (rf_refresh_token \<lparr>rf_refresh_token = ''t0''\<rparr>)) demo_session = (Inr (Some tok), w1)"
    and "revoke_refresh_token demo_env (rt_id tok) w1 = (Inr (), w2)"
    and "generate_token_pair demo_env demo_state (rt_user_id tok) w2 = (Inr ar, w')"
    by (elim refresh_InrE)
  from this(4) obtain u where "ar_refresh_token ar = word_bits (u :: uuid)"
    by (elim generate_token_pair_InrE) simp
  moreover have "word_bits u \<noteq> ''t0''"
  proof
    assume "word_bits u = ''t0''"
    then have "length (word_bits u) = length ''t0''" by (rule arg_cong)
    then show False by simp
  qed
  ultimately show ?thesis by (simp add: hash_token_def)
qed

theorem refresh_replay_rejected_witness:
  "\<exists>ar w'. refresh demo_env demo_state \<lparr>rf_refresh_token = ''t0''\<rparr> demo_session = (Inr (OK, ar), w') \<and>
     fst (refresh demo_env demo_state \<lparr>rf_refresh_token = ''t0''\<rparr> w') =
       Inl (UNAUTHORIZED, error_json ''Invalid or expired refresh token'')"
proof -
  obtain ar w' where run: "refresh demo_env demo_state \<lparr>rf_refresh_token = ''t0''\<rparr> demo_session =
      (Inr (OK, ar), w')" using demo_refresh by blast
  have live: "live_tokens (w_db demo_session)
      (hash_token demo_env (rf_refresh_token \<lparr>rf_refresh_token = ''t0''\<rparr>)) \<subseteq> {50}"
    by (simp add: live_tokens_def demo_session_def demo_token_def)
  have fresh: "hash_token demo_env (ar_refresh_token ar) \<noteq>
      hash_token demo_env (rf_refresh_token \<lparr>rf_refresh_token = ''t0''\<rparr>)"
    using demo_refresh_hash [OF run] by simp
  from refresh_replay_rejected [OF demo_session_inv run live fresh] run show ?thesis by auto
qed

text \<open>
  C13. Revocation is final: whatever requests follow a successful refresh, with whatever faults
  and panics, the row of the spent token is still there, unchanged but for being revoked, and
  it is the only row with its id; so no later lookup of any hash yields it.
\<close>

theorem spent_token_stays_spent:
  assumes "db_inv (w_db w)" and "refresh E st body w = (Inr (s, ar), w')"
  shows "\<exists>tok \<in> set (db_refresh_tokens (w_db w)).
    rt_token_hash tok = hash_token E (rf_refresh_token body) \<and> \<not> rt_revoked tok \<and>
    (\<forall>reqs. let d = w_db (serve E st reqs w') in
       filter (\<lambda>r. rt_id r = rt_id tok) (db_refresh_tokens d) = [tok\<lparr>rt_revoked := True\<rparr>])"
proof -
  from assms(2) obtain tok rid where
    tok: "tok \<in> set (db_refresh_tokens (w_db w))"
      "rt_token_hash tok = hash_token E (rf_refresh_token body)" "\<not> rt_revoked tok"
    and w': "w_db w' = (w_db w)\<lparr>db_refresh_tokens :=
      tbl_update (\<lambda>r. rt_id r = rt_id tok) (\<lambda>r. r\<lparr>rt_revoked := True\<rparr>) (db_refresh_tokens (w_db w)) @
      [refresh_record E (rt_user_id tok) (utc_now E (w_tick w + 2)) (ar_refresh_token ar) rid]\<rparr>"
    by (elim refresh_effect) (auto simp: valid_token_def)
  then have spent: "tok\<lparr>rt_revoked := True\<rparr> \<in> set (db_refresh_tokens (w_db w'))"
    by (auto simp: set_tbl_update)
  have inv': "db_inv (w_db w')"
    using inv.effect_auth_routes(3) [OF api_respectsD(1) [OF api_respects_inv], THEN effectD, OF assms(2)] assms(1)
    by (simp add: on_db_def preserves_def)
  have "filter (\<lambda>r. rt_id r = rt_id tok) (db_refresh_tokens (w_db (serve E st reqs w'))) =
      [tok\<lparr>rt_revoked := True\<rparr>]" for reqs
  proof (rule filter_keyed)
    show "keys_distinct rt_id (db_refresh_tokens (w_db (serve E st reqs w')))"
      using inv.effect_serve [OF api_respects_inv, of w' E st reqs] inv'
      by (simp add: preserves_def db_inv_def)
    show "tok\<lparr>rt_revoked := True\<rparr> \<in> set (db_refresh_tokens (w_db (serve E st reqs w')))"
      using grow.effect_serve [OF api_respects_grow, of w' E st reqs] spent
      by (force simp: tokens_grow_def token_extends_def)
  qed simp
  with tok show ?thesis by (auto simp: Let_def)
qed

theorem spent_token_stays_spent_witness:
  "\<exists>ar w'. refresh demo_env demo_state \<lparr>rf_refresh_token = ''t0''\<rparr> demo_session = (Inr (OK, ar), w') \<and>
     filter (\<lambda>r. rt_id r = 50) (db_refresh_tokens (w_db (serve demo_env demo_state [] w'))) =
       [demo_token\<lparr>rt_revoked := True\<rparr>]"
proof -
  obtain ar w' where run: "refresh demo_env demo_state \<lparr>rf_refresh_token = ''t0''\<rparr> demo_session =
      (Inr (OK, ar), w')" using demo_refresh by blast
  have tok: "set (db_refresh_tokens (w_db demo_session)) = {demo_token}" "rt_id demo_token = 50"
    by (simp_all add: demo_session_def demo_token_def)
  from spent_token_stays_spent [OF demo_session_inv run] tok
  have "filter (\<lambda>r. rt_id r = 50) (db_refresh_tokens (w_db (serve demo_env demo_state [] w'))) =
      [demo_token\<lparr>rt_revoked := True\<rparr>]"
    unfolding Let_def by (metis singletonD)
  with run show ?thesis by blast
qed

section \<open>Refused and failing refreshes\<close>

text \<open>
  No valid token, no session: when no stored token has the hash of the presented one, or
  every such token is revoked or expired at the server's time, a healthy refresh answers 401
  with a fixed text and leaves the database as it is; and conversely a 401 is only ever the
  answer in that case.
\<close>

theorem refresh_rejects_dead:
  assumes "fault_at E (w_tick w) = Healthy"
    and "CHR 0x00 \<notin> set (hash_token E (rf_refresh_token body))"
  shows "(\<forall>r \<in> set (db_refresh_tokens (w_db w)).
      \<not> valid_token (hash_token E (rf_refresh_token body)) (pg_now E (w_tick w)) r) \<longleftrightarrow>
    (\<exists>j w'. refresh E st body w = (Inl (UNAUTHORIZED, j), w') \<and> w_db w' = w_db w \<and>
       j = error_json ''Invalid or expired refresh token'')"
proof -
  let ?p = "valid_token (hash_token E (rf_refresh_token body)) (pg_now E (w_tick w))"
  note lookup = get_valid_refresh_token_healthy [OF assms]
  show ?thesis
  proof (cases "find ?p (db_refresh_tokens (w_db w))")
    case None
    with lookup have "refresh E st body w = (Inl (UNAUTHORIZED,
        error_json ''Invalid or expired refresh token''), w\<lparr>w_tick := Suc (w_tick w)\<rparr>)"
      by (simp add: refresh_def act_simps)
    with None show ?thesis by (simp add: find_None_iff)
  next
    case (Some tok)
    have "fst (refresh E st body w) \<noteq> Inl (UNAUTHORIZED, j)" for j
    proof
      assume "fst (refresh E st body w) = Inl (UNAUTHORIZED, j)"
      with lookup Some show False
        by (auto simp: refresh_def generate_token_pair_def act_simps split: sum.splits prod.splits)
    qed
    moreover have "\<exists>r \<in> set (db_refresh_tokens (w_db w)). ?p r"
      using Some by (metis find_Some_iff nth_mem)
    ultimately show ?thesis by (metis fst_conv)
  qed
qed

theorem refresh_rejects_dead_witness:
  "\<exists>w'. refresh demo_env demo_state \<lparr>rf_refresh_token = ''t1''\<rparr> demo_session =
     (Inl (UNAUTHORIZED, error_json ''Invalid or expired refresh token''), w')"
proof -
  have fault: "fault_at demo_env (w_tick demo_session) = Healthy"
    and nul: "CHR 0x00 \<notin> set (hash_token demo_env (rf_refresh_token \<lparr>rf_refresh_token = ''t1''\<rparr>))"
    by (simp_all add: hash_token_def)
  have "\<forall>r \<in> set (db_refresh_tokens (w_db demo_session)). \<not> valid_token
      (hash_token demo_env (rf_refresh_token \<lparr>rf_refresh_token = ''t1''\<rparr>))
      (pg_now demo_env (w_tick demo_session)) r"
    by (simp add: demo_session_def demo_token_def valid_token_def hash_token_def)
  with refresh_rejects_dead [OF fault nul, of demo_state] show ?thesis by blast
qed

text \<open>
  Rotation is not atomic: the old token is revoked in one statement and the new one stored
  in another, so a database failure between the two costs the user the session; the answer is
  500, the presented token is spent and no token has been added.
\<close>

theorem refresh_not_atomic:
  assumes "find (valid_token (hash_token E (rf_refresh_token body)) (pg_now E (w_tick w)))
      (db_refresh_tokens (w_db w)) = Some tok"
    and "CHR 0x00 \<notin> set (hash_token E (rf_refresh_token body))"
    and "fault_at E (w_tick w) = Healthy" and "fault_at E (Suc (w_tick w)) = Healthy"
    and "fault_at E (w_tick w + 5) = Unreachable m"
  shows "\<exists>j w'. refresh E st body w = (Inl (INTERNAL_SERVER_ERROR, j), w') \<and>
    w_db w' = (w_db w)\<lparr>db_refresh_tokens := map (\<lambda>r. if rt_id r = rt_id tok
      then r\<lparr>rt_revoked := True\<rparr> else r) (db_refresh_tokens (w_db w))\<rparr>"
proof -
  have tick: "w_tick w + 5 = Suc (Suc (Suc (Suc (Suc (w_tick w)))))" by simp
  show ?thesis
    using assms unfolding tick
    by (auto simp: refresh_def generate_token_pair_def act_simps get_valid_refresh_token_healthy
        revoke_refresh_token_def sql_revoke_def store_refresh_token_def internal_error_def
        tbl_update_def split: sum.split)
qed

theorem refresh_not_atomic_witness:
  "\<exists>j w'. refresh (demo_env_fault 5) demo_state \<lparr>rf_refresh_token = ''t0''\<rparr> demo_session =
     (Inl (INTERNAL_SERVER_ERROR, j), w') \<and>
     db_refresh_tokens (w_db w') = [demo_token\<lparr>rt_revoked := True\<rparr>]"
proof -
  let ?E = "demo_env_fault 5" and ?body = "\<lparr>rf_refresh_token = ''t0''\<rparr>"
  have found: "find (valid_token (hash_token ?E (rf_refresh_token ?body)) (pg_now ?E (w_tick demo_session)))
      (db_refresh_tokens (w_db demo_session)) = Some demo_token"
    by (simp add: demo_env_fault_def demo_session_def demo_token_def valid_token_def hash_token_def
        demo_world_def duration_days_def duration_seconds_def)
  have faults: "CHR 0x00 \<notin> set (hash_token ?E (rf_refresh_token ?body))"
    "fault_at ?E (w_tick demo_session) = Healthy" "fault_at ?E (Suc (w_tick demo_session)) = Healthy"
    "fault_at ?E (w_tick demo_session + 5) = Unreachable ''timeout''"
    by (simp_all add: demo_env_fault_def hash_token_def demo_session_def demo_world_def)
  obtain j w' where "refresh ?E demo_state ?body demo_session = (Inl (INTERNAL_SERVER_ERROR, j), w')"
    "w_db w' = (w_db demo_session)\<lparr>db_refresh_tokens := map (\<lambda>r. if rt_id r = rt_id demo_token
      then r\<lparr>rt_revoked := True\<rparr> else r) (db_refresh_tokens (w_db demo_session))\<rparr>"
    using refresh_not_atomic [OF found faults, of demo_state] by blast
  then show ?thesis by (simp add: demo_session_def)
qed

end
