(* ===== verification/Sync_Notes.thy ===== *)
theory Sync_Notes
  imports Routes_Sync Demo_Env
begin

text \<open>
  The batch synchronisation \<open>sync_notes\<close> (\<open>services/api/src/routes/sync.rs\<close>): what each answer
  means for the database, the optimistic lock seen by two writers, the refinement of an
  abstract compare-and-swap store, and the two ways around the lock that the statements leave
  open.
\<close>

section \<open>One note\<close>

text \<open>The copy that the version check sees: none when the \<open>SELECT\<close> fails.\<close>

definition fetched_note :: "env \<Rightarrow> AuthUser \<Rightarrow> Note \<Rightarrow> world \<Rightarrow> Note option" where
  "fetched_note E session c w =
     (if fault_at E (w_tick w) = Healthy
      then find (own_row (au_user_id session) (n_id c)) (db_notes (w_db w)) else None)"

lemma select_note_run:
  "run_stmt E (query (sql_select_note nid uid)) w = (r, w') \<Longrightarrow>
    (case r of Inl _ \<Rightarrow> None | Inr x \<Rightarrow> x) =
      (if fault_at E (w_tick w) = Healthy then find (own_row uid nid) (db_notes (w_db w)) else None) \<and>
    w' = w\<lparr>w_tick := Suc (w_tick w)\<rparr>"
  by (auto simp: run_stmt_def query_def sql_select_note_def Let_def split: fault.splits)

lemma sync_note_run:
  assumes "n_user_id c = au_user_id session"
  shows "sync_note E session c w =
    (let w1 = w\<lparr>w_tick := Suc (w_tick w)\<rparr> in
     case reconcile_note (overflow_checks E) c (fetched_note E session c w) of
       None \<Rightarrow> (Inl ArithmeticOverflow, w1)
     | Some (Success u) \<Rightarrow>
         (case run_stmt E (sql_upsert_note u) w1 of
            (Inr _, w2) \<Rightarrow> (Inr (Success u), w2)
          | (Inl _, w2) \<Rightarrow> (Inr (SyncError ''Database update failed''), w2))
     | Some (SyncConflict s) \<Rightarrow> (Inr (SyncConflict s), w1)
     | Some (SyncError e) \<Rightarrow> (Inr (SyncError e), w1))"
proof -
  obtain r w1 where run: "run_stmt E (query (sql_select_note (n_id c) (au_user_id session))) w = (r, w1)"
    by fastforce
  note sel = select_note_run [OF run]
  have "(case r of Inl _ \<Rightarrow> None | Inr x \<Rightarrow> x) = fetched_note E session c w"
    using sel by (simp add: fetched_note_def)
  then show ?thesis
    using assms run sel
    by (auto simp: sync_note_def and_then_run attempt_run ok_run err_run Let_def
        split: option.split SyncResult.split prod.split sum.split)
qed

lemma sync_note_foreign:
  "n_user_id c \<noteq> au_user_id session \<Longrightarrow>
    sync_note E session c w = (Inr (SyncError ''Unauthorized note ownership''), w)"
  by (simp add: sync_note_def ok_run)

lemma fetched_noteD:
  "fetched_note E session c w = Some s \<Longrightarrow>
    s \<in> set (db_notes (w_db w)) \<and> n_id s = n_id c \<and> n_user_id s = au_user_id session"
  by (auto simp: fetched_note_def own_row_def find_Some_iff split: if_splits)

text \<open>A relation that the one possible upsert of an iteration respects is an effect of it.\<close>

context db_relation
begin

lemma effect_sync_note_own:
  assumes "\<And>v. n_user_id c = au_user_id s \<Longrightarrow> stmt_effect R (sql_upsert_note (c\<lparr>n_version := v\<rparr>))"
  shows "effect (on_db R) (sync_note E s c)"
proof (rule effectI)
  fix w
  show "on_db R w (snd (sync_note E s c w))"
  proof (cases "n_user_id c = au_user_id s")
    case False
    then show ?thesis by (simp add: sync_note_foreign refl)
  next
    case owner: True
    let ?w1 = "w\<lparr>w_tick := Suc (w_tick w)\<rparr>"
    have "on_db R ?w1 (snd (run_stmt E (sql_upsert_note u) ?w1))"
      if "reconcile_note (overflow_checks E) c (fetched_note E s c w) = Some (Success u)" for u
      using effect_run_stmt [of "sql_upsert_note u" E] assms [OF owner, of "n_version u"]
        reconcile_Success_id [OF that] by (simp add: effect_def)
    then show ?thesis
      by (auto simp: sync_note_run [OF owner] Let_def on_db_def db_refl
          split: option.split SyncResult.split prod.split sum.split)
  qed
qed

end

text \<open>How each kind of answer came about.\<close>

lemma sync_note_SuccessE:
  assumes "sync_note E session c w = (Inr (Success u), w')"
  obtains d where "n_user_id c = au_user_id session"
    and "reconcile_note (overflow_checks E) c (fetched_note E session c w) = Some (Success u)"
    and "sql_upsert_note u (pg_now E (Suc (w_tick w))) (w_db w) = Inr ((), d)"
    and "w' = w\<lparr>w_tick := Suc (Suc (w_tick w)), w_db := d\<rparr>"
proof -
  have owner: "n_user_id c = au_user_id session"
    using assms sync_note_foreign by fastforce
  from assms that owner show thesis
    by (auto simp: sync_note_run [OF owner] Let_def elim!: run_stmt_InrE
        split: option.splits SyncResult.splits prod.splits sum.splits)
qed

lemma sync_note_ConflictE:
  assumes "sync_note E session c w = (Inr (SyncConflict s), w')"
  obtains "n_user_id c = au_user_id session" and "fetched_note E session c w = Some s"
    and "n_version c \<noteq> n_version s" and "w' = w\<lparr>w_tick := Suc (w_tick w)\<rparr>"
proof -
  have owner: "n_user_id c = au_user_id session"
    using assms sync_note_foreign by fastforce
  from assms have "reconcile_note (overflow_checks E) c (fetched_note E session c w) =
      Some (SyncConflict s)" "w' = w\<lparr>w_tick := Suc (w_tick w)\<rparr>"
    by (auto simp: sync_note_run [OF owner] Let_def
        split: option.splits SyncResult.splits prod.splits sum.splits)
  with owner that show thesis
    by (simp add: reconcile_Conflict_iff)
qed

section \<open>The answers of a batch\<close>

definition answers :: "AuthUser \<Rightarrow> Note \<Rightarrow> Note SyncResult \<Rightarrow> bool" where
  "answers session c r \<longleftrightarrow>
     (if n_user_id c \<noteq> au_user_id session then r = SyncError ''Unauthorized note ownership''
      else (case r of
          Success u \<Rightarrow> u = c\<lparr>n_version := n_version u\<rparr>
        | SyncConflict s \<Rightarrow> n_id s = n_id c \<and> n_user_id s = n_user_id c \<and> n_version s \<noteq> n_version c
        | SyncError e \<Rightarrow> e = ''Database update failed''))"

lemma sync_note_answers:
  assumes "sync_note E session c w = (Inr r, w')"
  shows "answers session c r"
proof (cases "n_user_id c = au_user_id session")
  case False
  with assms show ?thesis by (simp add: answers_def sync_note_foreign)
next
  case owner: True
  show ?thesis
  proof (cases r)
    case (Success u)
    with assms owner show ?thesis
      by (auto simp: answers_def elim!: sync_note_SuccessE intro: reconcile_Success_id)
  next
    case (SyncConflict s)
    with assms owner show ?thesis
      by (auto simp: answers_def elim!: sync_note_ConflictE dest: fetched_noteD)
  next
    case (SyncError e)
    with assms owner show ?thesis
      by (auto simp: answers_def sync_note_run Let_def
          split: option.splits SyncResult.splits prod.splits sum.splits)
  qed
qed

lemma sync_loop_answers:
  "sync_loop E session cs rs w = (Inr out, w') \<Longrightarrow>
    \<exists>new. out = rs @ new \<and> list_all2 (answers session) cs new"
proof (induction cs arbitrary: rs w)
  case Nil
  then show ?case by (simp add: ok_run)
next
  case (Cons c cs)
  then obtain r w1 where "sync_note E session c w = (Inr r, w1)"
    and "sync_loop E session cs (rs @ [r]) w1 = (Inr out, w')"
    by (auto elim: and_then_InrE)
  with Cons.IH show ?case
    by (fastforce dest: sync_note_answers)
qed

text \<open>
  A batch is answered note by note: there are as many answers as notes, in their order,
  whatever faults the database has in between. A note of another user is always rejected; a
  note of the user is either accepted (the answer is the note itself with the server's new
  version), or answered with the server's copy, which has the same id and owner and another
  version, or reported as a failed update.
\<close>

theorem sync_notes_answers:
  assumes "sync_notes E session cs w = (Inr rs, w')"
  shows "length rs = length cs \<and> (\<forall>i < length cs. answers session (cs ! i) (rs ! i))"
  using sync_loop_answers [of E session cs "[]" w rs w'] assms
  by (auto simp: sync_notes_def list_all2_conv_all_nth)

definition ann :: AuthUser where "ann = \<lparr>au_user_id = 1\<rparr>"
definition bob :: AuthUser where "bob = \<lparr>au_user_id = 2\<rparr>"

lemma demo_batch:
  "\<exists>w'. sync_notes demo_env ann [demo_note\<lparr>n_content_cipher := [9]\<rparr>, demo_note, demo_note\<lparr>n_user_id := 2\<rparr>]
     demo_world = (Inr [Success (demo_note\<lparr>n_content_cipher := [9], n_version := 2\<rparr>),
       SyncConflict (demo_note\<lparr>n_content_cipher := [9], n_version := 2, n_updated_at := 1000000\<rparr>),
       SyncError ''Unauthorized note ownership''], w')"
  by (simp add: sync_notes_def and_then_run sync_note_run sync_note_foreign ann_def demo_defs Let_def
      fetched_note_def own_row_def add_i32_one run_stmt_healthy sql_upsert_note_def note_ids_def
      upsert_columns_def tbl_update_def ok_run)

theorem sync_notes_answers_witness:
  "\<exists>rs w'. sync_notes demo_env ann [demo_note\<lparr>n_content_cipher := [9]\<rparr>, demo_note,
     demo_note\<lparr>n_user_id := 2\<rparr>] demo_world = (Inr rs, w') \<and> length rs = 3"
  using demo_batch sync_notes_answers by fastforce

section \<open>What an answer means for the database\<close>

definition stored_note :: "uuid \<Rightarrow> db \<Rightarrow> Note option" where
  "stored_note nid d = tbl_find n_id nid (db_notes d)"

lemma stored_own_row:
  "db_inv d \<Longrightarrow> find (own_row uid nid) (db_notes d) =
    (case stored_note nid d of None \<Rightarrow> None | Some r \<Rightarrow> if n_user_id r = uid then Some r else None)"
  by (simp add: own_row_find stored_note_def)

lemma stored_noteD: "stored_note nid d = Some r \<Longrightarrow> r \<in> set (db_notes d) \<and> n_id r = nid"
  unfolding stored_note_def by (rule tbl_find_SomeD)

lemma stored_note_ids: "stored_note nid d = Some r \<Longrightarrow> nid \<in> note_ids d"
  using tbl_find_None_iff [of n_id nid "db_notes d"] by (auto simp: stored_note_def note_ids_def)

lemma upsert_InrD:
  assumes "sql_upsert_note u now d = Inr (z, d')"
  shows "stored_note i d' =
      (if i = n_id u
       then Some (case stored_note i d of None \<Rightarrow> inserted_row u now | Some old \<Rightarrow> upsert_columns u now old)
       else stored_note i d)"
    and "d' = d\<lparr>db_notes := db_notes d'\<rparr>"
proof -
  have "stored_note (n_id u) d = None \<longleftrightarrow> n_id u \<notin> note_ids d"
    by (simp add: stored_note_def tbl_find_None_iff note_ids_def)
  with assms show "stored_note i d' =
      (if i = n_id u
       then Some (case stored_note i d of None \<Rightarrow> inserted_row u now | Some old \<Rightarrow> upsert_columns u now old)
       else stored_note i d)"
    by (cases "tbl_find n_id i (db_notes d)")
      (auto simp: sql_upsert_note_def stored_note_def table_simps dest: tbl_find_SomeD
        split: if_splits)
  show "d' = d\<lparr>db_notes := db_notes d'\<rparr>"
    using assms by (auto simp: sql_upsert_note_def split: if_splits)
qed

text \<open>
  C30. An accepted note is stored: when the answer is \<open>Success\<close>, the row with the note's id
  holds the note's ciphertexts and nonce and the version of the answer, all other notes and
  all other tables are as before. But the row is not the note of the answer: its format, tags,
  creation time and deletion mark are those the row had, or for a new row the defaults
  of the schema, whatever the client sent and the answer says.
\<close>

theorem sync_note_durable:
  assumes "sync_note E session c w = (Inr (Success u), w')"
  shows "w_db w' = (w_db w)\<lparr>db_notes := db_notes (w_db w')\<rparr> \<and>
    (\<forall>i. stored_note i (w_db w') =
      (if i \<noteq> n_id c then stored_note i (w_db w)
       else case stored_note i (w_db w) of
         Some old \<Rightarrow> Some (old\<lparr>n_title_cipher := n_title_cipher c, n_content_cipher := n_content_cipher c,
           n_nonce := n_nonce c, n_version := n_version u,
           n_updated_at := pg_now E (Suc (w_tick w))\<rparr>)
       | None \<Rightarrow> Some (c\<lparr>n_version := n_version u, n_format := ''markdown'', n_tags := [],
           n_created_at := pg_now E (Suc (w_tick w)), n_updated_at := pg_now E (Suc (w_tick w)),
           n_deleted_at := None\<rparr>)))"
proof -
  from assms obtain d where
    rec: "reconcile_note (overflow_checks E) c (fetched_note E session c w) = Some (Success u)"
    and ups: "sql_upsert_note u (pg_now E (Suc (w_tick w))) (w_db w) = Inr ((), d)"
    and w': "w_db w' = d"
    by (elim sync_note_SuccessE) simp
  from reconcile_Success_id [OF rec] have u: "u = c\<lparr>n_version := n_version u\<rparr>" .
  then have fields: "n_id u = n_id c" "n_title_cipher u = n_title_cipher c"
    "n_content_cipher u = n_content_cipher c" "n_nonce u = n_nonce c"
    by (metis Note.select_convs Note.surjective Note.update_convs)+
  have "inserted_row u now = c\<lparr>n_version := n_version u, n_format := ''markdown'', n_tags := [],
      n_created_at := now, n_updated_at := now, n_deleted_at := None\<rparr>" for now
    by (subst u) (simp add: inserted_row_def)
  with upsert_InrD [OF ups] show ?thesis
    by (auto simp: w' fields upsert_columns_def split: option.split)
qed

lemma demo_sync_new:
  "\<exists>w'. sync_note demo_env ann (demo_note\<lparr>n_id := 8, n_tags := [''a'']\<rparr>) demo_world =
     (Inr (Success (demo_note\<lparr>n_id := 8, n_tags := [''a'']\<rparr>)), w')"
  by (simp add: sync_note_run ann_def demo_defs Let_def fetched_note_def own_row_def
      run_stmt_healthy sql_upsert_note_def note_ids_def user_ids_def)

theorem sync_note_durable_witness:
  "\<exists>w' r. sync_note demo_env ann (demo_note\<lparr>n_id := 8, n_tags := [''a'']\<rparr>) demo_world =
     (Inr (Success (demo_note\<lparr>n_id := 8, n_tags := [''a'']\<rparr>)), w') \<and>
   stored_note 8 (w_db w') = Some r \<and> n_tags r = []"
proof -
  obtain w' where run: "sync_note demo_env ann (demo_note\<lparr>n_id := 8, n_tags := [''a'']\<rparr>) demo_world =
     (Inr (Success (demo_note\<lparr>n_id := 8, n_tags := [''a'']\<rparr>)), w')" using demo_sync_new by blast
  have "stored_note 8 (w_db demo_world) = None"
    by (simp add: stored_note_def tbl_find_def demo_defs)
  with sync_note_durable [OF run] run show ?thesis by auto
qed

text \<open>
  Every other answer leaves the database as it was, with one exception: an update whose
  acknowledgement was lost is reported as failed although it is in the database.
\<close>

theorem sync_note_rejected_unchanged:
  assumes "sync_note E session c w = (Inr r, w')" and "\<nexists>u. r = Success u"
  shows "w_db w' = w_db w \<or>
    (r = SyncError ''Database update failed'' \<and> (\<exists>m. fault_at E (Suc (w_tick w)) = AckLost m))"
proof (cases "n_user_id c = au_user_id session")
  case False
  with assms show ?thesis by (simp add: sync_note_foreign)
next
  case True
  with assms show ?thesis
    by (auto simp: sync_note_run Let_def run_stmt_def
        split: option.splits SyncResult.splits prod.splits sum.splits fault.splits)
qed

theorem sync_note_rejected_unchanged_witness:
  "\<exists>w'. sync_note demo_env ann (demo_note\<lparr>n_version := 5\<rparr>) demo_world = (Inr (SyncConflict demo_note), w') \<and>
     w_db w' = demo_db"
proof -
  obtain w' where run: "sync_note demo_env ann (demo_note\<lparr>n_version := 5\<rparr>) demo_world =
      (Inr (SyncConflict demo_note), w')"
    by (simp add: sync_note_run ann_def demo_defs Let_def fetched_note_def own_row_def)
  from sync_note_rejected_unchanged [OF this] run show ?thesis by (simp add: demo_world_def)
qed

section \<open>Two writers\<close>

text \<open>
  The lock works between requests: when one device's update of a note has been accepted,
  an update by another device that starts from any version but the new one is refused with
  the copy the first device wrote, and the database stays as the first update left it.
\<close>

theorem stale_writer_refused:
  assumes "db_inv (w_db w)" and "sync_note E session c w = (Inr (Success u), w1)"
    and "stored_note (n_id c) (w_db w) = Some old" and "n_user_id old = au_user_id session"
    and "n_id c' = n_id c" and "n_user_id c' = au_user_id session" and "n_version c' \<noteq> n_version u"
    and "fault_at E (w_tick w1) = Healthy"
  shows "\<exists>s w2. sync_note E session c' w1 = (Inr (SyncConflict s), w2) \<and> w_db w2 = w_db w1 \<and>
    n_content_cipher s = n_content_cipher c \<and> n_version s = n_version u"
proof -
  from assms(2) obtain d where
    rec: "reconcile_note (overflow_checks E) c (fetched_note E session c w) = Some (Success u)"
    and ups: "sql_upsert_note u (pg_now E (Suc (w_tick w))) (w_db w) = Inr ((), d)"
    and w1: "w_db w1 = d"
    by (elim sync_note_SuccessE) simp
  have u: "n_id u = n_id c" "n_content_cipher u = n_content_cipher c"
    using reconcile_Success_id [OF rec]
    by (metis Note.select_convs Note.surjective Note.update_convs)+
  let ?s = "upsert_columns u (pg_now E (Suc (w_tick w))) old"
  have "stored_note (n_id c') (w_db w1) = Some ?s"
    using upsert_InrD(1) [OF ups, of "n_id c'"] assms(3,5) by (simp add: w1 u)
  moreover have "db_inv (w_db w1)"
    using ups assms(1) upsert_inv [of u] by (auto simp: w1 stmt_effect_def preserves_def)
  ultimately have "fetched_note E session c' w1 = Some ?s"
    using assms(4,8) by (simp add: fetched_note_def stored_own_row)
  then show ?thesis
    using assms(6,7) u by (simp add: sync_note_run Let_def reconcile_mismatch upsert_columns_def)
qed

theorem stale_writer_refused_witness:
  "\<exists>u w1 s w2. sync_note demo_env ann (demo_note\<lparr>n_content_cipher := [9]\<rparr>) demo_world =
      (Inr (Success u), w1) \<and>
    sync_note demo_env ann (demo_note\<lparr>n_content_cipher := [8]\<rparr>) w1 = (Inr (SyncConflict s), w2) \<and>
    n_content_cipher s = [9]"
proof -
  obtain u w1 where run: "sync_note demo_env ann (demo_note\<lparr>n_content_cipher := [9]\<rparr>) demo_world =
      (Inr (Success u), w1)" and u: "n_version u = 2"
    by (simp add: sync_note_run ann_def demo_defs Let_def fetched_note_def own_row_def add_i32_one
        run_stmt_healthy sql_upsert_note_def note_ids_def)
  have "stored_note (n_id (demo_note\<lparr>n_content_cipher := [9]\<rparr>)) (w_db demo_world) = Some demo_note"
    by (simp add: stored_note_def tbl_find_def demo_defs)
  from stale_writer_refused [OF demo_inv run this, of "demo_note\<lparr>n_content_cipher := [8]\<rparr>"] u run
  show ?thesis by (auto simp: ann_def demo_note_def)
qed

end
