(* ===== verification/Sync_Refinement.thy ===== *)
theory Sync_Refinement
  imports Sync_Notes
begin

text \<open>
  The promise of \<open>crates/sync\<close>, optimistic locking on a version counter, as an abstract
  compare-and-swap store of one user's notes, and the proof that a batch of \<open>sync_notes\<close>
  implements it.
\<close>

section \<open>The specification\<close>

type_synonym blob = "bytes \<times> bytes \<times> bytes"
type_synonym cas_store = "uuid \<rightharpoonup> i32 \<times> blob"

datatype verdict = Accepted i32 | Stale i32 blob | NotOwner

definition blob_of :: "Note \<Rightarrow> blob" where
  "blob_of n = (n_title_cipher n, n_content_cipher n, n_nonce n)"

text \<open>
  A write carries the version it is based on. It is accepted for an unknown id, or when that
  version is the stored one, which then goes up by one; otherwise the stored value is the answer.
  With overflow \<open>checks\<close>, a counter that cannot go up any further ends the batch (\<open>None\<close>), and the
  writes before it stay.
\<close>

definition cas_step :: "bool \<Rightarrow> uuid \<Rightarrow> Note \<Rightarrow> cas_store \<Rightarrow> (verdict \<times> cas_store) option" where
  "cas_step checks uid c m =
     (if n_user_id c \<noteq> uid then Some (NotOwner, m)
      else case m (n_id c) of
        None \<Rightarrow> Some (Accepted (n_version c), m(n_id c \<mapsto> (n_version c, blob_of c)))
      | Some (v, b) \<Rightarrow>
          if n_version c \<noteq> v then Some (Stale v b, m)
          else if checks \<and> v = i32_max then None
          else Some (Accepted (v + 1), m(n_id c \<mapsto> (v + 1, blob_of c))))"

fun cas_batch :: "bool \<Rightarrow> uuid \<Rightarrow> Note list \<Rightarrow> cas_store \<Rightarrow> verdict list option \<times> cas_store" where
  "cas_batch checks uid [] m = (Some [], m)"
| "cas_batch checks uid (c # cs) m =
     (case cas_step checks uid c m of
        None \<Rightarrow> (None, m)
      | Some (v, m') \<Rightarrow>
          (case cas_batch checks uid cs m' of (vs, m'') \<Rightarrow> (map_option ((#) v) vs, m'')))"

lemma cas_step_wraps: "cas_step False uid c m \<noteq> None"
  by (auto simp: cas_step_def split: option.split)

lemma cas_batch_wraps: "fst (cas_batch False uid cs m) \<noteq> None"
proof (induction cs arbitrary: m)
  case (Cons c cs)
  obtain v m1 where "cas_step False uid c m = Some (v, m1)"
    using cas_step_wraps [of uid c m] by auto
  with Cons.IH [of m1] show ?case by (simp split: prod.split) (metis fst_conv)
qed simp

section \<open>The abstraction\<close>

definition abs_store :: "uuid \<Rightarrow> db \<Rightarrow> cas_store" where
  "abs_store uid d i =
     (case stored_note i d of None \<Rightarrow> None
      | Some r \<Rightarrow> if n_user_id r = uid then Some (n_version r, blob_of r) else None)"

fun abs_result :: "Note SyncResult \<Rightarrow> verdict" where
  "abs_result (Success u) = Accepted (n_version u)"
| "abs_result (SyncConflict s) = Stale (n_version s) (blob_of s)"
| "abs_result (SyncError e) = NotOwner"

fun abs_answer :: "panic + Note SyncResult list \<Rightarrow> verdict list option" where
  "abs_answer (Inl p) = None"
| "abs_answer (Inr rs) = Some (map abs_result rs)"

text \<open>The ids of the batch that are already taken belong to the user.\<close>

definition no_foreign_id :: "uuid \<Rightarrow> Note \<Rightarrow> db \<Rightarrow> bool" where
  "no_foreign_id uid c d \<longleftrightarrow> (\<forall>r. stored_note (n_id c) d = Some r \<longrightarrow> n_user_id r = uid)"

definition sync_ready :: "uuid \<Rightarrow> Note list \<Rightarrow> db \<Rightarrow> bool" where
  "sync_ready uid cs d \<longleftrightarrow> db_inv d \<and> uid \<in> user_ids d \<and> (\<forall>c \<in> set cs. no_foreign_id uid c d)"

definition healthy :: "env \<Rightarrow> bool" where
  "healthy E \<longleftrightarrow> (\<forall>t. fault_at E t = Healthy)"

section \<open>The simulation\<close>

lemma fetched_note_abs:
  assumes "healthy E" and "db_inv (w_db w)" and "no_foreign_id (au_user_id s) c (w_db w)"
  shows "fetched_note E s c w = stored_note (n_id c) (w_db w)"
  using assms
  by (auto simp: fetched_note_def healthy_def stored_own_row no_foreign_id_def split: option.split)

lemma abs_store_upsert:
  assumes "sql_upsert_note u now d = Inr (z, d')" and "n_user_id u = uid"
    and "no_foreign_id uid u d"
  shows "abs_store uid d' = (abs_store uid d)(n_id u \<mapsto> (n_version u, blob_of u))"
    and "no_foreign_id uid c d \<Longrightarrow> no_foreign_id uid c d'"
    and "user_ids d' = user_ids d"
proof -
  note row = upsert_InrD(1) [OF assms(1)]
  have cols: "blob_of (inserted_row u now) = blob_of u" "n_version (inserted_row u now) = n_version u"
    "blob_of (upsert_columns u now r) = blob_of u" "n_version (upsert_columns u now r) = n_version u" for r
    by (simp_all add: blob_of_def inserted_row_def upsert_columns_def)
  show "abs_store uid d' = (abs_store uid d)(n_id u \<mapsto> (n_version u, blob_of u))"
    using assms(2,3)
    by (auto simp: fun_eq_iff abs_store_def row cols no_foreign_id_def split: option.split)
  show "no_foreign_id uid c d'" if "no_foreign_id uid c d"
    using that assms(2,3) by (auto simp: no_foreign_id_def row split: if_splits option.splits)
  show "user_ids d' = user_ids d"
    using upsert_InrD(2) [OF assms(1)] by (metis user_ids_def db.select_convs(1) db.surjective
        db.update_convs(2))
qed

lemma upsert_possible:
  assumes "n_user_id u \<in> user_ids d"
  obtains d' where "sql_upsert_note u now d = Inr ((), d')"
  using assms by (cases "n_id u \<in> note_ids d") (auto simp: sql_upsert_note_def)

lemma commit_simulates:
  assumes "healthy E" and "n_user_id u = uid" and "no_foreign_id uid u (w_db v)"
    and "sync_ready uid cs (w_db v)"
  shows "\<exists>v'. run_stmt E (sql_upsert_note u) v = (Inr (), v') \<and> sync_ready uid cs (w_db v') \<and>
    abs_store uid (w_db v') = (abs_store uid (w_db v))(n_id u \<mapsto> (n_version u, blob_of u))"
proof -
  let ?now = "pg_now E (w_tick v)" and ?d = "w_db v"
  have ready: "db_inv ?d" "uid \<in> user_ids ?d" "\<forall>c \<in> set cs. no_foreign_id uid c ?d"
    using assms(4) by (simp_all add: sync_ready_def)
  then obtain d' where ups: "sql_upsert_note u ?now ?d = Inr ((), d')"
    using assms(2) upsert_possible [of u ?d ?now] by auto
  moreover have "db_inv d'"
    using ups ready(1) upsert_inv [of u] by (auto simp: stmt_effect_def preserves_def)
  ultimately show ?thesis
    using assms(1) ready abs_store_upsert [OF ups assms(2,3)]
    by (simp add: run_stmt_healthy healthy_def sync_ready_def)
qed

lemma sync_note_simulates:
  assumes "healthy E" and "sync_ready (au_user_id s) (c # cs) (w_db w)"
    and "sync_note E s c w = (r, w')"
  shows "sync_ready (au_user_id s) cs (w_db w') \<and>
    (case r of
       Inl p \<Rightarrow> cas_step (overflow_checks E) (au_user_id s) c (abs_store (au_user_id s) (w_db w)) = None \<and>
         w_db w' = w_db w
     | Inr a \<Rightarrow> cas_step (overflow_checks E) (au_user_id s) c (abs_store (au_user_id s) (w_db w)) =
         Some (abs_result a, abs_store (au_user_id s) (w_db w')))"
proof (cases "n_user_id c = au_user_id s")
  case False
  with assms show ?thesis by (auto simp: sync_note_foreign cas_step_def sync_ready_def)
next
  case owner: True
  let ?uid = "au_user_id s" and ?d = "w_db w"
  have ready: "db_inv ?d" "?uid \<in> user_ids ?d" "no_foreign_id ?uid c ?d" "\<forall>c \<in> set cs. no_foreign_id ?uid c ?d"
    using assms(2) by (simp_all add: sync_ready_def)
  have fetched: "fetched_note E s c w = stored_note (n_id c) ?d"
    by (rule fetched_note_abs [OF assms(1) ready(1,3)])
  have commit: "\<exists>w'. run_stmt E (sql_upsert_note u) (w\<lparr>w_tick := Suc (w_tick w)\<rparr>) = (Inr (), w') \<and>
      sync_ready ?uid cs (w_db w') \<and>
      abs_store ?uid (w_db w') = (abs_store ?uid ?d)(n_id c \<mapsto> (n_version u, blob_of c))"
    if u: "u = c\<lparr>n_version := v\<rparr>" for u v
  proof -
    have "n_user_id u = ?uid" "no_foreign_id ?uid u ?d" "sync_ready ?uid cs ?d"
      using u owner ready by (simp_all add: no_foreign_id_def sync_ready_def)
    from commit_simulates [OF assms(1) this(1), of "w\<lparr>w_tick := Suc (w_tick w)\<rparr>" cs] this(2,3) u
    show ?thesis by (simp add: blob_of_def)
  qed
  show ?thesis
  proof (cases "stored_note (n_id c) ?d")
    case None
    with commit [of c "n_version c"] owner fetched assms(3) show ?thesis
      by (auto simp: sync_note_run Let_def cas_step_def abs_store_def)
  next
    case (Some r')
    then have abs: "abs_store ?uid ?d (n_id c) = Some (n_version r', blob_of r')"
      using ready(3) by (simp add: abs_store_def no_foreign_id_def)
    show ?thesis
    proof (cases "n_version c = n_version r'")
      case True
      with commit [of "c\<lparr>n_version := n_version r' + 1\<rparr>" "n_version r' + 1"] owner fetched Some abs
        assms(3) ready
      show ?thesis
        by (auto simp: sync_note_run Let_def cas_step_def add_i32_one sync_ready_def split: if_splits)
    next
      case False
      with owner fetched Some abs ready assms(3) show ?thesis
        by (auto simp: sync_note_run Let_def cas_step_def sync_ready_def)
    qed
  qed
qed

lemma sync_loop_simulates:
  assumes "healthy E" and "sync_ready (au_user_id s) cs (w_db w)" and "sync_loop E s cs rs w = (r, w')"
  shows "(map_option ((@) (map abs_result rs))
      (fst (cas_batch (overflow_checks E) (au_user_id s) cs (abs_store (au_user_id s) (w_db w)))),
     snd (cas_batch (overflow_checks E) (au_user_id s) cs (abs_store (au_user_id s) (w_db w)))) =
    (abs_answer r, abs_store (au_user_id s) (w_db w'))"
  using assms(2,3)
proof (induction cs arbitrary: rs w)
  case Nil
  then show ?case by (auto simp: ok_run)
next
  case (Cons c cs)
  obtain a w1 where step: "sync_note E s c w = (a, w1)" by fastforce
  note sim = sync_note_simulates [OF assms(1) Cons.prems(1) step]
  show ?case
  proof (cases a)
    case (Inl p)
    with sim step Cons.prems(2) show ?thesis by (auto simp: and_then_run)
  next
    case (Inr x)
    with step Cons.prems(2) have rest: "sync_loop E s cs (rs @ [x]) w1 = (r, w')"
      by (simp add: and_then_run)
    from Cons.IH [OF _ rest] sim Inr show ?thesis
      by (auto split: prod.splits simp: option.map_comp comp_def)
  qed
qed

lemma sync_notes_simulates:
  assumes "healthy E" and "sync_ready (au_user_id s) cs (w_db w)" and "sync_notes E s cs w = (r, w')"
  shows "cas_batch (overflow_checks E) (au_user_id s) cs (abs_store (au_user_id s) (w_db w)) =
    (abs_answer r, abs_store (au_user_id s) (w_db w'))"
  using sync_loop_simulates [of E s cs w "[]" r w'] assms
  by (auto simp: sync_notes_def append_fun option.map_ident prod_eq_iff)

lemma sync_notes_returns:
  assumes "healthy E" and "\<not> overflow_checks E" and "sync_ready (au_user_id s) cs (w_db w)"
  shows "\<exists>rs w'. sync_notes E s cs w = (Inr rs, w')"
proof -
  obtain r w' where run: "sync_notes E s cs w = (r, w')" by fastforce
  from sync_notes_simulates [OF assms(1,3) run] assms(2)
    cas_batch_wraps [of "au_user_id s" cs "abs_store (au_user_id s) (w_db w)"]
  show ?thesis using run by (cases r) auto
qed

text \<open>The concrete setting of the witnesses: the first user's stored note, and a release build.\<close>

abbreviation release_env :: env where
  "release_env \<equiv> demo_env\<lparr>overflow_checks := False\<rparr>"

lemma release_env_ok: "healthy release_env" "\<not> overflow_checks release_env"
  by (simp_all add: healthy_def)

lemma demo_stored: "stored_note 7 (w_db demo_world) = Some demo_note"
  by (simp add: stored_note_def tbl_find_def demo_defs)

lemma demo_own_ids: "set cs \<subseteq> {demo_note} \<Longrightarrow> \<forall>c \<in> set cs. no_foreign_id (au_user_id ann) c (w_db demo_world)"
  using demo_stored by (fastforce simp: no_foreign_id_def ann_def demo_note_def)

lemma demo_ready: "set cs \<subseteq> {demo_note} \<Longrightarrow> sync_ready (au_user_id ann) cs (w_db demo_world)"
  using demo_own_ids [of cs] demo_inv
  by (simp add: sync_ready_def) (simp add: ann_def user_ids_def demo_defs)

text \<open>
  C1. Refinement: on a healthy database, for an existing user whose batch names no id that
  another user's note has, the answers of \<open>sync_notes\<close> and its effect on the user's notes are
  exactly those of the abstract compare-and-swap store run on the batch in order. In a build with
  overflow checks \<open>sync_notes\<close> panics just when the abstract store runs out of versions, and
  what was written until then stays; without them it always returns.
\<close>

theorem sync_notes_refines_cas:
  assumes "healthy E" and "sync_ready (au_user_id s) cs (w_db w)"
  shows "\<exists>r w'. sync_notes E s cs w = (r, w') \<and>
    cas_batch (overflow_checks E) (au_user_id s) cs (abs_store (au_user_id s) (w_db w)) =
      (abs_answer r, abs_store (au_user_id s) (w_db w')) \<and>
    (overflow_checks E \<or> (\<exists>rs. r = Inr rs))"
proof -
  obtain r w' where run: "sync_notes E s cs w = (r, w')" by fastforce
  with sync_notes_simulates [OF assms run] sync_notes_returns [OF assms(1) _ assms(2)] show ?thesis by force
qed

theorem sync_notes_refines_cas_witness:
  "(\<exists>rs w'. sync_notes demo_env ann [demo_note, demo_note] demo_world = (Inr rs, w') \<and>
     map abs_result rs = [Accepted 2, Stale 2 ([1], [2], [3])])"
proof -
  have ready: "sync_ready (au_user_id ann) [demo_note, demo_note] (w_db demo_world)"
    by (rule demo_ready) simp
  have "healthy demo_env" by (simp add: healthy_def)
  from sync_notes_refines_cas [OF this ready] obtain r w' where
    run: "sync_notes demo_env ann [demo_note, demo_note] demo_world = (r, w')" and
    cas: "fst (cas_batch True (au_user_id ann) [demo_note, demo_note]
      (abs_store (au_user_id ann) (w_db demo_world))) = abs_answer r" by auto
  have "fst (cas_batch True (au_user_id ann) [demo_note, demo_note]
      (abs_store (au_user_id ann) (w_db demo_world))) = Some [Accepted 2, Stale 2 ([1], [2], [3])]"
    using demo_stored by (simp add: cas_step_def abs_store_def ann_def demo_note_def blob_of_def)
  with cas run show ?thesis by (cases r) auto
qed

end
