(* ===== verification/Sync_Gaps.thy ===== *)
theory Sync_Gaps
  imports Sync_Refinement Note_Store_Facts
begin

text \<open>
  How far the synchronisation routes separate users and protect against lost updates: the
  condition under which a batch touches nobody else's notes, and the gaps that the statements
  of \<open>services/api/src/routes/sync.rs\<close> leave.
\<close>

section \<open>Separation of users\<close>

text \<open>Given that the ids of \<open>cs\<close> are not foreign, that stays so and other users keep their rows.\<close>

definition keeps_others :: "uuid \<Rightarrow> Note list \<Rightarrow> db \<Rightarrow> db \<Rightarrow> bool" where
  "keeps_others uid cs d d' \<longleftrightarrow>
     ((\<forall>c \<in> set cs. no_foreign_id uid c d) \<and> db_inv d \<longrightarrow>
      (\<forall>c \<in> set cs. no_foreign_id uid c d') \<and> db_inv d' \<and> notes_of_others uid d' = notes_of_others uid d)"

interpretation kept: db_relation "keeps_others uid cs" for uid cs
  by unfold_locales (auto simp: keeps_others_def)

lemma upsert_keeps_others:
  assumes "c \<in> set cs" and "n_user_id c = uid"
  shows "stmt_effect (keeps_others uid cs) (sql_upsert_note (c\<lparr>n_version := v\<rparr>))"
proof (rule stmt_effectI)
  fix now d z d'
  let ?u = "c\<lparr>n_version := v\<rparr>"
  assume ups: "sql_upsert_note ?u now d = Inr (z, d')"
  show "keeps_others uid cs d d'"
    unfolding keeps_others_def
  proof (intro impI, elim conjE)
    assume none: "\<forall>c \<in> set cs. no_foreign_id uid c d" and inv: "db_inv d"
    then have own: "no_foreign_id uid ?u d" using assms(1) by (auto simp: no_foreign_id_def)
    have "db_inv d'" using ups inv upsert_inv [of ?u] by (auto simp: stmt_effect_def preserves_def)
    moreover have "\<forall>c \<in> set cs. no_foreign_id uid c d'"
      using none abs_store_upsert(2) [OF ups _ own] assms(2) by auto
    moreover have "n_user_id r = uid" if "r \<in> set (db_notes d)" "n_id r = n_id c" for r
      using that own inv by (auto simp: no_foreign_id_def stored_note_def db_inv_def tbl_find_Some_iff)
    then have "notes_of_others uid d' = notes_of_others uid d"
      using ups assms(2)
      by (auto simp: sql_upsert_note_def notes_of_others_def
          intro!: filter_tbl_update split: if_splits)
    ultimately show "(\<forall>c \<in> set cs. no_foreign_id uid c d') \<and> db_inv d' \<and>
        notes_of_others uid d' = notes_of_others uid d" by blast
  qed
qed

lemma sync_loop_keeps_others:
  "set ds \<subseteq> set cs \<Longrightarrow> effect (on_db (keeps_others (au_user_id s) cs)) (sync_loop E s ds rs)"
  by (induction ds arbitrary: rs)
    (auto intro!: kept.db_effect_intros kept.effect_sync_note_own upsert_keeps_others)

text \<open>
  C17. A batch whose own notes carry no id of another user's note leaves the notes of all other
  users as they are, whatever faults happen, whether the batch is answered or panics, and
  whatever notes of others the batch claims.
\<close>

theorem sync_notes_isolation:
  assumes "db_inv (w_db w)" and "\<forall>c \<in> set cs. no_foreign_id (au_user_id s) c (w_db w)"
  shows "notes_of_others (au_user_id s) (w_db (snd (sync_notes E s cs w))) =
    notes_of_others (au_user_id s) (w_db w)"
  using sync_loop_keeps_others [of cs cs s E "[]"] assms
  by (simp add: sync_notes_def effect_def on_db_def keeps_others_def)

theorem sync_notes_isolation_witness:
  "notes_of_others 2 (w_db (snd (sync_notes demo_env bob [demo_note\<lparr>n_id := 8, n_user_id := 2\<rparr>] demo_world))) =
    [demo_note]"
proof -
  have "\<forall>c \<in> set [demo_note\<lparr>n_id := 8, n_user_id := 2\<rparr>]. no_foreign_id (au_user_id bob) c (w_db demo_world)"
    by (simp add: no_foreign_id_def stored_note_def tbl_find_def demo_defs)
  from sync_notes_isolation [OF demo_inv this, of demo_env] show ?thesis
    by (simp add: bob_def demo_defs notes_of_others_def)
qed

section \<open>Writing over another user's note\<close>

text \<open>
  C18. The condition is needed: the upsert's \<open>ON CONFLICT (id)\<close> does not ask whose row it is. A
  user who sends a note of their own with the id of another user's note is answered
  \<open>Success\<close>, and the other user's row now holds the sender's ciphertexts, nonce and version.
\<close>

theorem sync_overwrites_foreign_note:
  assumes "db_inv (w_db w)" and "stored_note (n_id c) (w_db w) = Some victim"
    and "n_user_id victim \<noteq> au_user_id s" and "n_user_id c = au_user_id s"
    and "fault_at E (Suc (w_tick w)) = Healthy"
  shows "\<exists>w'. sync_note E s c w = (Inr (Success c), w') \<and>
    stored_note (n_id c) (w_db w') = Some (victim\<lparr>n_title_cipher := n_title_cipher c,
      n_content_cipher := n_content_cipher c, n_nonce := n_nonce c, n_version := n_version c,
      n_updated_at := pg_now E (Suc (w_tick w))\<rparr>)"
proof -
  have none: "fetched_note E s c w = None"
    using assms(1-3) by (simp add: fetched_note_def stored_own_row)
  have "n_id c \<in> note_ids (w_db w)"
    by (rule stored_note_ids [OF assms(2)])
  then obtain d' where ups: "sql_upsert_note c (pg_now E (Suc (w_tick w))) (w_db w) = Inr ((), d')"
    by (simp add: sql_upsert_note_def)
  with none assms(4,5) have "sync_note E s c w =
      (Inr (Success c), w\<lparr>w_tick := Suc (Suc (w_tick w)), w_db := d'\<rparr>)"
    by (simp add: sync_note_run Let_def run_stmt_healthy)
  then show ?thesis
    using upsert_InrD(1) [OF ups, of "n_id c"] assms(2) by (simp add: upsert_columns_def)
qed

theorem sync_overwrites_foreign_note_witness:
  "\<exists>w' r. sync_note demo_env bob (demo_note\<lparr>n_user_id := 2, n_content_cipher := [66]\<rparr>) demo_world =
     (Inr (Success (demo_note\<lparr>n_user_id := 2, n_content_cipher := [66]\<rparr>)), w') \<and>
   stored_note 7 (w_db w') = Some r \<and> n_user_id r = 1 \<and> n_content_cipher r = [66]"
proof -
  let ?c = "demo_note\<lparr>n_user_id := 2, n_content_cipher := [66]\<rparr>"
  have stored: "stored_note (n_id ?c) (w_db demo_world) = Some demo_note"
    by (simp add: stored_note_def tbl_find_def demo_defs)
  have users: "n_user_id demo_note \<noteq> au_user_id bob" "n_user_id ?c = au_user_id bob"
    by (simp_all add: demo_note_def bob_def)
  from sync_overwrites_foreign_note [OF demo_inv stored users, of demo_env]
  show ?thesis by (auto simp: demo_note_def)
qed

section \<open>Losing the lock to a fault\<close>

text \<open>
  C31. A failing \<open>SELECT\<close> disables the lock: its error is treated as if the server had no copy,
  so a stale update is then accepted, and the version counter of the row becomes the stale
  one; with the same database and a healthy \<open>SELECT\<close> the answer is the conflict.
\<close>

theorem failed_select_skips_lock:
  assumes "db_inv (w_db w)" and "stored_note (n_id c) (w_db w) = Some old"
    and "n_user_id old = au_user_id s" and "n_user_id c = au_user_id s"
    and "n_version c \<noteq> n_version old" and "fault_at E (Suc (w_tick w)) = Healthy"
  shows "(fault_at E (w_tick w) = Healthy \<longrightarrow> fst (sync_note E s c w) = Inr (SyncConflict old)) \<and>
    (fault_at E (w_tick w) = Unreachable m \<longrightarrow>
      (\<exists>w' r. sync_note E s c w = (Inr (Success c), w') \<and> stored_note (n_id c) (w_db w') = Some r \<and>
         n_content_cipher r = n_content_cipher c \<and> n_version r = n_version c))"
proof (intro conjI impI)
  assume "fault_at E (w_tick w) = Healthy"
  then have "fetched_note E s c w = Some old"
    using assms(1-3) by (simp add: fetched_note_def stored_own_row)
  then show "fst (sync_note E s c w) = Inr (SyncConflict old)"
    using assms(4,5) by (simp add: sync_note_run Let_def reconcile_mismatch)
next
  assume "fault_at E (w_tick w) = Unreachable m"
  then have none: "fetched_note E s c w = None" by (simp add: fetched_note_def)
  have "n_id c \<in> note_ids (w_db w)"
    by (rule stored_note_ids [OF assms(2)])
  then obtain d' where ups: "sql_upsert_note c (pg_now E (Suc (w_tick w))) (w_db w) = Inr ((), d')"
    by (simp add: sql_upsert_note_def)
  then have "sync_note E s c w = (Inr (Success c), w\<lparr>w_tick := Suc (Suc (w_tick w)), w_db := d'\<rparr>)"
    using none assms(4,6) by (simp add: sync_note_run Let_def run_stmt_healthy)
  then show "\<exists>w' r. sync_note E s c w = (Inr (Success c), w') \<and>
      stored_note (n_id c) (w_db w') = Some r \<and> n_content_cipher r = n_content_cipher c \<and>
      n_version r = n_version c"
    using upsert_InrD(1) [OF ups, of "n_id c"] assms(2) by (simp add: upsert_columns_def)
qed

theorem failed_select_skips_lock_witness:
  "\<exists>w' r. sync_note (demo_env_fault 0) ann (demo_note\<lparr>n_version := 0\<rparr>) demo_world =
     (Inr (Success (demo_note\<lparr>n_version := 0\<rparr>)), w') \<and>
   stored_note 7 (w_db w') = Some r \<and> n_version r = 0"
proof -
  let ?c = "demo_note\<lparr>n_version := 0\<rparr>"
  have stored: "stored_note (n_id ?c) (w_db demo_world) = Some demo_note"
    by (simp add: stored_note_def tbl_find_def demo_defs)
  have users: "n_user_id demo_note = au_user_id ann" "n_user_id ?c = au_user_id ann"
    "n_version ?c \<noteq> n_version demo_note" by (simp_all add: demo_note_def ann_def)
  have faults: "fault_at (demo_env_fault 0) (Suc (w_tick demo_world)) = Healthy"
    "fault_at (demo_env_fault 0) (w_tick demo_world) = Unreachable ''timeout''"
    by (simp_all add: demo_env_fault_def demo_world_def)
  from failed_select_skips_lock [OF demo_inv stored users faults(1), of "''timeout''"] faults(2)
  obtain w' r where "sync_note (demo_env_fault 0) ann ?c demo_world = (Inr (Success ?c), w')"
    "stored_note (n_id ?c) (w_db w') = Some r" "n_version r = n_version ?c" by blast
  then show ?thesis by (auto simp: demo_note_def)
qed

section \<open>Batches that end in a panic\<close>

text \<open>
  C38. A batch is not a transaction: when the version counter overflows at one note, the request
  ends without an answer, the notes before it stay committed and those after it are not
  looked at; and such a panic only ever happens at a note whose stored version is the largest
  \<open>i32\<close>, in a build with overflow checks.
\<close>

theorem sync_batch_panic:
  assumes "sync_notes E s cs w = (Inr rs, w1)" and "sync_note E s c w1 = (Inl p, w2)"
  shows "sync_notes E s (cs @ c # ds) w = (Inl p, w2) \<and> w_db w2 = w_db w1 \<and> overflow_checks E \<and>
    (\<exists>old \<in> set (db_notes (w_db w1)). n_id old = n_id c \<and> n_version old = i32_max)"
proof -
  have loop: "sync_loop E s (xs @ ys) r0 v =
      and_then (sync_loop E s xs r0) (\<lambda>r. sync_loop E s ys r) v" for xs ys r0 v
    by (induction xs arbitrary: r0 v) (auto simp: and_then_run ok_run split: prod.split sum.split)
  have owner: "n_user_id c = au_user_id s"
    using assms(2) sync_note_foreign by fastforce
  have panic: "reconcile_note (overflow_checks E) c (fetched_note E s c w1) = None"
    and w2: "w_db w2 = w_db w1"
    using assms(2) by (auto simp: sync_note_run [OF owner] Let_def
        split: option.splits SyncResult.splits prod.splits sum.splits)
  from assms loop [of cs "c # ds" "[]" w]
  have "sync_notes E s (cs @ c # ds) w = (Inl p, w2)"
    by (simp add: sync_notes_def and_then_run)
  with panic w2 show ?thesis
    by (auto simp: reconcile_panic_iff dest!: fetched_noteD)
qed

theorem sync_batch_panic_witness:
  "\<exists>w1 w2. sync_notes demo_env ann [demo_note\<lparr>n_id := 8\<rparr>, demo_note\<lparr>n_version := i32_max\<rparr>]
      (demo_world\<lparr>w_db := demo_db\<lparr>db_notes := [demo_note\<lparr>n_version := i32_max\<rparr>]\<rparr>\<rparr>) =
      (Inl ArithmeticOverflow, w2) \<and> length (db_notes (w_db w2)) = 2"
proof -
  let ?max = "demo_note\<lparr>n_version := i32_max\<rparr>"
  let ?w = "demo_world\<lparr>w_db := demo_db\<lparr>db_notes := [?max]\<rparr>\<rparr>"
  obtain rs w1 where one: "sync_notes demo_env ann [demo_note\<lparr>n_id := 8\<rparr>] ?w = (Inr rs, w1)"
    and w1: "db_notes (w_db w1) = [?max, inserted_row (demo_note\<lparr>n_id := 8\<rparr>) 1000000]"
    by (simp add: sync_notes_def and_then_run sync_note_run ann_def demo_defs Let_def fetched_note_def
        own_row_def run_stmt_healthy sql_upsert_note_def note_ids_def user_ids_def ok_run)
  have "fetched_note demo_env ann ?max w1 = Some ?max"
    by (simp add: fetched_note_def w1 own_row_def ann_def demo_note_def)
  then obtain w2 where two: "sync_note demo_env ann ?max w1 = (Inl ArithmeticOverflow, w2)"
    by (simp add: sync_note_run ann_def demo_note_def Let_def add_i32_one)
  from sync_batch_panic [OF one two, of "[]"] w1 show ?thesis by auto
qed

section \<open>Vault entries\<close>

text \<open>
  C36. An upload is accepted exactly when the entry is the caller's, its id is new, its MIME type
  fits and its note exists, whoever owns that note; then the entry is stored with the
  server's time. In every other case the answer is an error and nothing is stored.
\<close>

theorem upload_vault_entry_outcomes:
  assumes "fault_at E (w_tick w) = Healthy" and "db_inv (w_db w)" and "au_user_id s \<in> user_ids (w_db w)"
    and "upload_vault_entry E s v w = (r, w')"
    and "accepted \<longleftrightarrow> ve_user_id v = au_user_id s \<and> ve_id v \<notin> ve_id ` set (db_vault_entries (w_db w)) \<and>
      ve_note_id v \<in> note_ids (w_db w) \<and> (\<exists>m. pg_nullable (pg_varchar 100) (ve_mime_type v) = Inr m)"
  shows "(accepted \<longleftrightarrow> r = Inr (Success (ve_id v))) \<and> (\<not> accepted \<longleftrightarrow> (\<exists>e. r = Inr (SyncError e))) \<and>
    (\<not> accepted \<longrightarrow> w_db w' = w_db w) \<and>
    (accepted \<longrightarrow> (\<exists>m. pg_nullable (pg_varchar 100) (ve_mime_type v) = Inr m \<and>
       w_db w' = (w_db w)\<lparr>db_vault_entries := db_vault_entries (w_db w) @
         [v\<lparr>ve_mime_type := m, ve_created_at := pg_now E (w_tick w)\<rparr>]\<rparr>))"
proof (cases "ve_user_id v = au_user_id s")
  case False
  with assms show ?thesis by (auto simp: upload_vault_entry_def ok_run)
next
  case True
  with assms show ?thesis
    by (cases "pg_nullable (pg_varchar 100) (ve_mime_type v)")
      (auto simp: upload_vault_entry_def act_simps sql_insert_vault_entry_def split: if_splits)
qed

theorem upload_vault_entry_outcomes_witness:
  "\<exists>w'. upload_vault_entry demo_env bob \<lparr>ve_id = 3, ve_note_id = 7, ve_user_id = 2, ve_file_cipher = [],
     ve_nonce = [], ve_mime_type = None, ve_file_size = 0, ve_created_at = 0\<rparr> demo_world =
     (Inr (Success 3) :: panic + uuid SyncResult, w')"
proof -
  let ?v = "\<lparr>ve_id = 3, ve_note_id = 7, ve_user_id = 2, ve_file_cipher = [],
     ve_nonce = [], ve_mime_type = None, ve_file_size = 0, ve_created_at = 0\<rparr>"
  obtain r :: "panic + uuid SyncResult" and w' where
    run: "upload_vault_entry demo_env bob ?v demo_world = (r, w')" by fastforce
  have pre: "fault_at demo_env (w_tick demo_world) = Healthy" "au_user_id bob \<in> user_ids (w_db demo_world)"
    by (simp_all add: bob_def demo_defs user_ids_def)
  have "True \<longleftrightarrow> ve_user_id ?v = au_user_id bob \<and>
      ve_id ?v \<notin> ve_id ` set (db_vault_entries (w_db demo_world)) \<and>
      ve_note_id ?v \<in> note_ids (w_db demo_world) \<and>
      (\<exists>m. pg_nullable (pg_varchar 100) (ve_mime_type ?v) = Inr m)"
    by (simp add: bob_def demo_defs note_ids_def pg_nullable_def)
  from upload_vault_entry_outcomes [OF pre(1) demo_inv pre(2) run this] run show ?thesis by auto
qed

end
