(* ===== verification/Service_Facts.thy ===== *)
theory Service_Facts
  imports Api_Main Sync_Gaps Token_Rotation
begin

text \<open>
  The API as a whole (\<open>services/api/src/main.rs\<close>): which requests are let through to which
  handler, what no request can change, and that the database stays well-formed.
\<close>

section \<open>Access control\<close>

text \<open>
  C12. The guard of the protected routes: a request whose \<open>Authorization\<close> header does not
  authenticate a user at that moment is answered 401 with a reason, whatever its method and
  body, and the database is not changed; one that authenticates user \<open>uid\<close> is handled with
  exactly that user as its session, or answered 405 when the method is wrong.
\<close>

theorem protected_routes_guarded:
  assumes "map_of protected_routes (req_path req) = Some r"
    and "authenticated E st (req_authorization req) (utc_now E (w_tick w)) = caller"
  shows "(caller = None \<longrightarrow> (\<exists>msg w'. handle_request E st req w =
      (Inr (UNAUTHORIZED, JsonPayload (error_json msg)), w') \<and> w_db w' = w_db w)) \<and>
    (\<forall>uid. caller = Some uid \<longrightarrow> handle_request E st req w =
      (if method_allowed r (req_method req)
       then protected_handler E r (req_body req) \<lparr>au_user_id = uid\<rparr> (w\<lparr>w_tick := Suc (w_tick w)\<rparr>)
       else (Inr (METHOD_NOT_ALLOWED, NoPayload), w\<lparr>w_tick := Suc (w_tick w)\<rparr>)))"
  using protected_request_rejected [OF assms(1)] protected_request_granted [OF assms(1)] assms(2)
  by auto

definition demo_sync_request :: "bytes option \<Rightarrow> request" where
  "demo_sync_request auth = \<lparr>req_method = POST, req_path = ''/sync/notes'', req_authorization = auth,
     req_body = NotesBody [demo_note\<lparr>n_content_cipher := [9]\<rparr>]\<rparr>"

theorem protected_routes_guarded_witness:
  "\<exists>msg w'. handle_request demo_env demo_state (demo_sync_request None) demo_world =
     (Inr (UNAUTHORIZED, JsonPayload (error_json msg)), w') \<and> w_db w' = demo_db"
proof -
  have route: "map_of protected_routes (req_path (demo_sync_request None)) = Some SyncNotes"
    by (simp add: protected_routes_def demo_sync_request_def)
  have "authenticated demo_env demo_state (req_authorization (demo_sync_request None))
      (utc_now demo_env (w_tick demo_world)) = None"
    by (simp add: authenticated_def demo_sync_request_def)
  from protected_routes_guarded [OF route this] show ?thesis by (simp add: demo_world_def)
qed

text \<open>The notes and attachments of all users.\<close>

definition user_data :: "db \<Rightarrow> Note list \<times> VaultEntry list" where
  "user_data d = (db_notes d, db_vault_entries d)"

interpretation data: db_relation "frozen user_data"
  by (rule db_relation_frozen)

lemma auth_respects_data: "auth_respects (frozen user_data)"
  unfolding auth_respects_def login_respects_def
  by (intro conjI allI; rule stmt_effectI) (auto simp: frozen_def user_data_def sql_insert_user_def
      sql_insert_token_def sql_revoke_def Let_def split: sum.splits if_splits)

lemmas public_handler_data = data.effect_public [OF auth_respects_data]

text \<open>
  No data without a token: a request that does not authenticate a user leaves every note and
  every attachment as it is, on every path (the public routes included), with every method and
  body, and under every fault.
\<close>

theorem unauthenticated_request_keeps_data:
  assumes "authenticated E st (req_authorization req) (utc_now E (w_tick w)) = None"
  shows "user_data (w_db (snd (handle_request E st req w))) = user_data (w_db w)"
proof (cases "map_of public_routes (req_path req)")
  case (Some r)
  have "effect (on_db (frozen user_data)) (if method_allowed r (req_method req)
      then public_handler E st r (req_body req) else ok (METHOD_NOT_ALLOWED, NoPayload))"
    by (intro data.db_effect_intros public_handler_data)
  with Some show ?thesis by (simp add: handle_request_def effect_def on_db_def frozen_def)
next
  case None
  from layered_rejected [OF this assms] show ?thesis by auto
qed

theorem unauthenticated_request_keeps_data_witness:
  "user_data (w_db (snd (handle_request demo_env demo_state (demo_sync_request None) demo_world))) =
     ([demo_note], [])"
  using unauthenticated_request_keeps_data [of demo_env demo_state "demo_sync_request None" demo_world]
  by (simp add: authenticated_def demo_sync_request_def demo_world_def demo_db_def user_data_def)

section \<open>What no request can change\<close>

text \<open>The columns that identify a note and those that the synchronisation does not write.\<close>

definition note_frame :: "Note \<Rightarrow> uuid \<times> uuid \<times> string \<times> string list \<times> datetime \<times> datetime option" where
  "note_frame r = (n_id r, n_user_id r, n_format r, n_tags r, n_created_at r, n_deleted_at r)"

text \<open>
  Rows are only ever appended to the tables of accounts, notes and attachments; accounts and
  attachments never change, notes not in the columns above; and a note comes in undeleted, with
  the default format and without tags.
\<close>

definition append_only :: "db \<Rightarrow> db \<Rightarrow> bool" where
  "append_only d d' \<longleftrightarrow>
     prefix (db_users d) (db_users d') \<and> prefix (db_vault_entries d) (db_vault_entries d') \<and>
     (\<exists>rows. map note_frame (db_notes d') = map note_frame (db_notes d) @ rows \<and>
        (\<forall>(i, u, fmt, tgs, created, deleted) \<in> set rows.
           fmt = ''markdown'' \<and> tgs = [] \<and> deleted = None))"

interpretation appending: db_relation append_only
proof
  fix c d e :: db
  show "append_only d d" by (simp add: append_only_def)
  assume "append_only c d" and "append_only d e"
  then show "append_only c e"
    unfolding append_only_def
    by (elim conjE exE, intro conjI) (auto intro: prefix_order.trans)
qed

lemma append_only_same_notes [intro]:
  "db_notes d' = db_notes d \<Longrightarrow> prefix (db_users d) (db_users d') \<Longrightarrow>
    prefix (db_vault_entries d) (db_vault_entries d') \<Longrightarrow> append_only d d'"
  by (simp add: append_only_def)

lemma note_frame_upsert: "map note_frame (tbl_update p (upsert_columns n now) t) = map note_frame t"
  by (simp add: tbl_update_def note_frame_def upsert_columns_def)

lemma upsert_append_only: "stmt_effect append_only (sql_upsert_note n)"
  by (rule stmt_effectI)
    (auto simp: sql_upsert_note_def append_only_def note_frame_upsert inserted_row_def
      note_frame_def split: if_splits)

lemma api_respects_append_only: "api_respects append_only"
  unfolding respects_defs
  by (intro conjI allI upsert_append_only; rule stmt_effectI)
    (auto simp: sql_insert_user_def sql_insert_token_def sql_revoke_def sql_insert_vault_entry_def
      Let_def split: sum.splits if_splits)

text \<open>
  C2. What the API cannot do: over any sequence of requests, with any faults, clocks and panics,
  accounts and attachments are only added, never changed or removed; no note disappears, changes
  its id, owner, format, tags or creation time, is marked as deleted or loses that mark; and
  every new note is undeleted, untagged and in the default format.
\<close>

theorem service_append_only:
  "append_only (w_db w) (w_db (serve E st reqs w))"
  by (rule appending.effect_serve [OF api_respects_append_only])

text \<open>
  Well-formedness: whatever requests the service has answered since it started on an empty
  schema, primary keys and e-mails are unique and every note, attachment and refresh token
  belongs to an existing account, every attachment to an existing note.
\<close>

theorem reachable_database_wf:
  assumes "reachable E st w"
  shows "db_inv (w_db w)"
  using assms by (rule reachable_inv)

definition demo_register_request :: request where
  "demo_register_request = \<lparr>req_method = POST, req_path = ''/auth/register'', req_authorization = None,
     req_body = RegisterBody demo_registration\<rparr>"

theorem reachable_database_wf_witness:
  "db_inv (w_db (serve demo_env demo_state [demo_register_request] \<lparr>w_db = empty_db, w_tick = 0\<rparr>))"
  by (rule reachable_database_wf [of demo_env demo_state]) (rule reachable_serve [OF reachable_init])

section \<open>Start-up\<close>

text \<open>
  The service starts only when it can work: the state it starts with exists exactly when the
  database URL and both keys are set, both keys decode, and the pool connects; the keys
  are then the decoded ones, and otherwise the process ends with a message.
\<close>

theorem startup_exact:
  "(startup var b64 connects = Inr st \<longleftrightarrow>
     (\<exists>url sk pk. var ''DATABASE_URL'' = Some url \<and> connects url \<and>
        var ''JWT_PRIVATE_KEY'' = Some sk \<and> b64 sk = Some (jwt_private_key st) \<and>
        var ''JWT_PUBLIC_KEY'' = Some pk \<and> b64 pk = Some (jwt_public_key st))) \<and>
   ((\<exists>v \<in> {''DATABASE_URL'', ''JWT_PRIVATE_KEY'', ''JWT_PUBLIC_KEY''}. var v = None) \<longrightarrow>
      (\<exists>v \<in> {''DATABASE_URL'', ''JWT_PRIVATE_KEY'', ''JWT_PUBLIC_KEY''}. var v = None \<and>
        startup var b64 connects = Inl (v @ '' environment variable must be set.'')))"
  by (cases st) (auto simp: startup_def split: option.splits)

theorem startup_exact_witness:
  "startup (\<lambda>v. if v = ''DATABASE_URL'' then None else Some ''AA=='') (\<lambda>s. Some [0]) (\<lambda>u. True) =
     Inl ''DATABASE_URL environment variable must be set.''"
  using startup_exact [of "\<lambda>v. if v = ''DATABASE_URL'' then None else Some ''AA==''" "\<lambda>s. Some [0]" "\<lambda>u. True"]
  by auto

end
