(* ===== verification/Scheduling.thy ===== *)
theory Scheduling
  imports Prelude
begin

text \<open>
  Concurrent executions in general: several processes on a shared world, any of which may take
  the next step. A process whose steps run out (locale \<open>process\<close>) is finished by every schedule
  that gives it its turns; schedules, safety and liveness are stated here once for all kinds of
  processes.
\<close>

section \<open>Interleavings and schedules\<close>

type_synonym ('t, 'w) step = "'t \<Rightarrow> 'w \<Rightarrow> 't \<times> 'w"

inductive interleave :: "('t, 'w) step \<Rightarrow> 'w \<times> 't list \<Rightarrow> 'w \<times> 't list \<Rightarrow> bool" for step where
  interleave_step: "i < length ts \<Longrightarrow> step (ts ! i) w = (t, w') \<Longrightarrow>
    interleave step (w, ts) (w', ts[i := t])"

inductive_cases interleaveE: "interleave step (w, ts) (w', ts')"
inductive_simps interleave_simp: "interleave step (w, ts) s'"

text \<open>A schedule names the process that takes each step.\<close>

fun run_schedule :: "('t, 'w) step \<Rightarrow> nat list \<Rightarrow> 'w \<times> 't list \<Rightarrow> 'w \<times> 't list" where
  "run_schedule step [] s = s"
| "run_schedule step (i # is) (w, ts) =
     (if i < length ts
      then (case step (ts ! i) w of (t, w') \<Rightarrow> run_schedule step is (w', ts[i := t]))
      else run_schedule step is (w, ts))"

lemma run_schedule_append:
  "run_schedule step (is @ js) s = run_schedule step js (run_schedule step is s)"
  by (induction step "is" s rule: run_schedule.induct) (auto split: prod.split)

lemma run_schedule_length [simp]:
  "length (snd (run_schedule step is s)) = length (snd s)"
  by (induction step "is" s rule: run_schedule.induct) (auto split: prod.split)

lemma run_schedule_interleaves: "(interleave step)\<^sup>*\<^sup>* s (run_schedule step is s)"
proof (induction step "is" s rule: run_schedule.induct)
  case (1 step s)
  then show ?case by simp
next
  case (2 step i "is" w ts)
  show ?case
  proof (cases "i < length ts")
    case True
    obtain t w' where step: "step (ts ! i) w = (t, w')" by fastforce
    with True have "interleave step (w, ts) (w', ts[i := t])" by (rule interleave_step)
    with 2(1) [OF True step [symmetric]] show ?thesis by (simp add: True step)
  next
    case False
    with 2(2) show ?thesis by simp
  qed
qed

text \<open>Every interleaving is the run of a schedule.\<close>

lemma interleaving_is_scheduled:
  "(interleave step)\<^sup>*\<^sup>* s s' \<Longrightarrow> \<exists>is. s' = run_schedule step is s"
proof (induction rule: rtranclp_induct)
  case base
  have "s = run_schedule step [] s" by simp
  then show ?case ..
next
  case (step s1 s2)
  from step.IH obtain "is" where s1: "s1 = run_schedule step is s" ..
  from step.hyps(2) obtain i w ts t w' where "s1 = (w, ts)" "s2 = (w', ts[i := t])" "i < length ts"
    "step (ts ! i) w = (t, w')" by (cases rule: interleave.cases)
  then have "s2 = run_schedule step [i] s1" by simp
  with s1 have "s2 = run_schedule step (is @ [i]) s" by (simp add: run_schedule_append)
  then show ?case ..
qed

text \<open>A property of the schedule so far and of the state it has led to.\<close>

lemma schedule_invariant:
  assumes "run_schedule step is (w, ts) = (w', ts')" and "I [] w ts"
    and "\<And>js v bs i t v'. I js v bs \<Longrightarrow> run_schedule step js (w, ts) = (v, bs) \<Longrightarrow> i < length bs \<Longrightarrow>
      step (bs ! i) v = (t, v') \<Longrightarrow> I (js @ [i]) v' (bs[i := t])"
    and "\<And>js v bs i. I js v bs \<Longrightarrow> I (js @ [i]) v bs"
  shows "I is w' ts'"
  using assms(1)
proof (induction "is" arbitrary: w' ts' rule: rev_induct)
  case Nil
  with assms(2) show ?case by simp
next
  case (snoc i js)
  obtain v bs where run: "run_schedule step js (w, ts) = (v, bs)" by fastforce
  obtain t v' where step: "step (bs ! i) v = (t, v')" by fastforce
  from snoc.prems run step show ?case
    using assms(3) [OF snoc.IH [OF run] run _ step] assms(4) [OF snoc.IH [OF run], of i]
    by (auto simp: run_schedule_append split: if_splits)
qed

text \<open>An invariant of the steps is an invariant of the interleavings.\<close>

lemma interleave_invariant:
  assumes "(interleave step)\<^sup>*\<^sup>* (w, ts) (w', ts')" and "I w ts"
    and "\<And>w ts i t w'. I w ts \<Longrightarrow> i < length ts \<Longrightarrow> step (ts ! i) w = (t, w') \<Longrightarrow> I w' (ts[i := t])"
  shows "I w' ts'"
  using assms(1)
proof (induction rule: rtranclp_induct2)
  case refl
  show ?case by (rule assms(2))
next
  case (step w1 ts1 w2 ts2)
  then show ?case by (auto elim!: interleaveE intro: assms(3))
qed

text \<open>The interleavings whose every state satisfies a condition on the processes, such as a lock.\<close>

definition interleave_within ::
    "('t list \<Rightarrow> bool) \<Rightarrow> ('t, 'w) step \<Rightarrow> 'w \<times> 't list \<Rightarrow> 'w \<times> 't list \<Rightarrow> bool" where
  "interleave_within P step s s' \<longleftrightarrow> interleave step s s' \<and> P (snd s')"

lemma within_invariant:
  assumes "(interleave_within P step)\<^sup>*\<^sup>* (w, ts) (w', ts')" and "I w ts"
    and "\<And>w ts i t w'. I w ts \<Longrightarrow> i < length ts \<Longrightarrow> step (ts ! i) w = (t, w') \<Longrightarrow> P (ts[i := t]) \<Longrightarrow>
      I w' (ts[i := t])"
  shows "I w' ts'"
  using assms(1)
proof (induction rule: rtranclp_induct2)
  case refl
  show ?case by (rule assms(2))
next
  case (step w1 ts1 w2 ts2)
  then show ?case by (auto simp: interleave_within_def elim!: interleaveE intro: assms(3))
qed

text \<open>A process that runs alone, for a number of steps.\<close>

fun run_alone :: "('t, 'w) step \<Rightarrow> nat \<Rightarrow> 't \<Rightarrow> 'w \<Rightarrow> 't \<times> 'w" where
  "run_alone step 0 t w = (t, w)"
| "run_alone step (Suc n) t w = (case step t w of (t', w') \<Rightarrow> run_alone step n t' w')"

lemma run_alone_add:
  "run_alone step (m + n) t w = (case run_alone step m t w of (t', w') \<Rightarrow> run_alone step n t' w')"
  by (induction m arbitrary: t w) (auto split: prod.split)

lemma within_run_alone:
  assumes "i < length ts" and "\<And>t. P (ts[i := t])" and "run_alone step n (ts ! i) w = (t, w')"
  shows "(interleave_within P step)\<^sup>*\<^sup>* (w, ts) (w', ts[i := t])"
  using assms
proof (induction n arbitrary: w ts)
  case 0
  then show ?case by auto
next
  case (Suc n)
  obtain t1 w1 where step: "step (ts ! i) w = (t1, w1)" by fastforce
  have "(interleave_within P step)\<^sup>*\<^sup>* (w1, ts[i := t1]) (w', ts[i := t1, i := t])"
    using Suc.prems step by (intro Suc.IH) simp_all
  moreover have "interleave_within P step (w, ts) (w1, ts[i := t1])"
    using Suc.prems(1,2) step by (simp add: interleave_within_def interleave_step)
  ultimately show ?case by simp
qed

section \<open>Processes that end\<close>

text \<open>
  \<open>left t\<close> bounds the steps that \<open>t\<close> still has to take; at 0 it is finished and its steps do
  nothing.
\<close>

locale process =
  fixes step :: "('t, 'w) step" and left :: "'t \<Rightarrow> nat"
  assumes progress: "0 < left t \<Longrightarrow> step t w = (t', w') \<Longrightarrow> left t' < left t"
    and idle: "left t = 0 \<Longrightarrow> step t w = (t, w)"
begin

lemma step_left: "step t w = (t', w') \<Longrightarrow> left t' \<le> left t - 1"
  using progress [of t w t' w'] idle [of t w] by (cases "left t = 0") auto

text \<open>Every turn of a process takes it a step nearer to its end.\<close>

lemma left_bound:
  "i < length ts \<Longrightarrow>
    left (snd (run_schedule step is (w, ts)) ! i) \<le> left (ts ! i) - count_list is i"
proof (induction "is" arbitrary: w ts)
  case Nil
  then show ?case by simp
next
  case (Cons j "is")
  show ?case
  proof (cases "j < length ts")
    case True
    obtain t w1 where step: "step (ts ! j) w = (t, w1)" by fastforce
    have "left (ts[j := t] ! i) \<le> left (ts ! i) - (if j = i then 1 else 0)"
      using step_left [OF step] True by (auto simp: nth_list_update)
    with Cons.IH [of "ts[j := t]" w1] Cons.prems show ?thesis
      by (simp add: True step split: if_splits)
  next
    case False
    with Cons show ?thesis by auto
  qed
qed

lemma schedule_finishes:
  assumes "\<forall>i < length ts. left (ts ! i) \<le> count_list is i"
  shows "\<forall>t \<in> set (snd (run_schedule step is (w, ts))). left t = 0"
proof
  fix t assume "t \<in> set (snd (run_schedule step is (w, ts)))"
  then obtain i where "i < length ts" "t = snd (run_schedule step is (w, ts)) ! i"
    by (auto simp: in_set_conv_nth)
  with left_bound [of i ts "is" w] assms show "left t = 0" by (simp add: diff_is_0_eq')
qed

text \<open>One process is finished by its own turns, whatever turns the others get.\<close>

lemma turns_finish:
  "i < length ts \<Longrightarrow> left (ts ! i) \<le> count_list is i \<Longrightarrow> left (snd (run_schedule step is (w, ts)) ! i) = 0"
  using left_bound [of i ts "is" w] by simp

text \<open>Finished processes stay as they are, and when all are finished nothing changes any more.\<close>

lemma finished_stays:
  "i < length ts \<Longrightarrow> left (ts ! i) = 0 \<Longrightarrow> snd (run_schedule step is (w, ts)) ! i = ts ! i"
proof (induction "is" arbitrary: w ts)
  case Nil
  then show ?case by simp
next
  case (Cons j "is")
  obtain t w1 where step: "step (ts ! j) w = (t, w1)" by fastforce
  with idle [of "ts ! j" w] Cons.prems have "ts[j := t] ! i = ts ! i"
    by (cases "j = i") auto
  with Cons.IH [of "ts[j := t]" w1] Cons.IH [of ts w] Cons.prems step show ?case by simp
qed

lemma all_finished_quiescent:
  assumes "\<forall>t \<in> set ts. left t = 0" and "interleave step (w, ts) s'"
  shows "s' = (w, ts)"
proof -
  from assms(2) obtain i t w' where i: "i < length ts" "step (ts ! i) w = (t, w')"
    and s': "s' = (w', ts[i := t])" by (auto simp: interleave_simp)
  with assms(1) have "(t, w') = (ts ! i, w)" using idle [of "ts ! i" w] by simp
  with s' show ?thesis by simp
qed

text \<open>A fair schedule, one that never forgets a process, finishes them all.\<close>

lemma enough_turns:
  assumes "infinite {k :: nat. \<sigma> k = i}"
  shows "\<exists>n. \<forall>m \<ge> n. b \<le> count_list (map \<sigma> [0..<m]) i"
proof -
  from assms obtain B where B: "finite B" "card B = b" "B \<subseteq> {k. \<sigma> k = i}"
    using infinite_arbitrarily_large by blast
  show ?thesis
  proof (intro exI allI impI)
    fix m assume "Suc (Max (insert 0 B)) \<le> m"
    moreover have "k \<le> Max (insert 0 B)" if "k \<in> B" for k
      using that B(1) by (intro Max_ge) simp_all
    ultimately have "\<And>k. k \<in> B \<Longrightarrow> k < m" by fastforce
    with B(3) have "B \<subseteq> {k. k < m \<and> \<sigma> k = i}" by blast
    then have "b \<le> card {k. k < m \<and> \<sigma> k = i}"
      using card_mono [of "{k. k < m \<and> \<sigma> k = i}" B] B(2) by simp
    also have "\<dots> = count_list (map \<sigma> [0..<m]) i"
    proof (induction m)
      case 0
      then show ?case by simp
    next
      case (Suc m)
      have "{k. k < Suc m \<and> \<sigma> k = i} = {k. k < m \<and> \<sigma> k = i} \<union> (if \<sigma> m = i then {m} else {})"
        by (auto simp: less_Suc_eq)
      with Suc show ?case by simp
    qed
    finally show "b \<le> count_list (map \<sigma> [0..<m]) i" .
  qed
qed

lemma fair_turns_finish:
  assumes "i < length ts" and "infinite {k :: nat. \<sigma> k = i}"
  shows "\<exists>n. \<forall>m \<ge> n. left (snd (run_schedule step (map \<sigma> [0..<m]) (w, ts)) ! i) = 0"
  using turns_finish [OF assms(1)] enough_turns [OF assms(2), of "left (ts ! i)"] by blast

lemma fair_schedule_finishes:
  assumes fair: "\<And>i. i < length ts \<Longrightarrow> infinite {k :: nat. \<sigma> k = i}"
  shows "\<exists>n. \<forall>m \<ge> n. \<forall>t \<in> set (snd (run_schedule step (map \<sigma> [0..<m]) (w, ts))). left t = 0"
proof -
  have "\<forall>i. \<exists>n. i < length ts \<longrightarrow> (\<forall>m \<ge> n. left (ts ! i) \<le> count_list (map \<sigma> [0..<m]) i)"
    using enough_turns [OF fair] by blast
  then obtain N where N: "\<And>i m. i < length ts \<Longrightarrow> N i \<le> m \<Longrightarrow>
      left (ts ! i) \<le> count_list (map \<sigma> [0..<m]) i" by metis
  show ?thesis
  proof (intro exI allI impI)
    fix m assume "Max (insert 0 (N ` {..<length ts})) \<le> m"
    then have "\<forall>i < length ts. left (ts ! i) \<le> count_list (map \<sigma> [0..<m]) i"
      using N by simp
    then show "\<forall>t \<in> set (snd (run_schedule step (map \<sigma> [0..<m]) (w, ts))). left t = 0"
      by (rule schedule_finishes)
  qed
qed

text \<open>Alone, a process ends after at most \<open>left\<close> steps.\<close>

lemma run_alone_finished: "left t = 0 \<Longrightarrow> run_alone step n t w = (t, w)"
  by (induction n) (simp_all add: idle)

lemma alone_finishes: "left t \<le> n \<Longrightarrow> left (fst (run_alone step n t w)) = 0"
proof (induction n arbitrary: t w)
  case 0
  then show ?case by simp
next
  case (Suc n)
  obtain t' w' where step: "step t w = (t', w')" by fastforce
  with step_left [OF step] Suc.prems have "left t' \<le> n" by simp
  with Suc.IH step show ?case by simp
qed

end

end
