(* ===== verification/Races.thy ===== *)
theory Races
  imports Service_Facts Scheduling
begin

text \<open>
  Concurrent requests. The server runs handlers concurrently, and between two statements of one
  request any statement of another may run (no handler opens a transaction). A request in
  progress is a \<open>task\<close>; \<open>task_step\<close> executes it up to and including its next statement; the
  states of several requests in progress are linked by the step relation \<open>interleave\<close>.
\<close>

section \<open>Requests in progress\<close>

datatype task =
  Syncing AuthUser "Note list" "Note SyncResult list"
| Committing AuthUser Note "Note list" "Note SyncResult list"
| Synced "Note SyncResult list"
| Panicked
| Presenting RefreshRequest
| Spending RefreshToken
| Issuing RefreshToken
| Answered "http_error + status_code \<times> AuthResponse"

text \<open>The loop body of \<open>sync_notes\<close> up to its \<open>SELECT\<close>, and from its upsert to the next note.\<close>

definition sync_fetch :: "env \<Rightarrow> AuthUser \<Rightarrow> Note \<Rightarrow> Note list \<Rightarrow> Note SyncResult list \<Rightarrow> world \<Rightarrow> task \<times> world" where
  "sync_fetch E s c cs rs w =
     (if n_user_id c \<noteq> au_user_id s then (Syncing s cs (rs @ [SyncError ''Unauthorized note ownership'']), w)
      else case run_stmt E (query (sql_select_note (n_id c) (au_user_id s))) w of (fetched, w') \<Rightarrow>
        (case reconcile_note (overflow_checks E) c (case fetched of Inl _ \<Rightarrow> None | Inr r \<Rightarrow> r) of
           None \<Rightarrow> (Panicked, w')
         | Some (Success u) \<Rightarrow> (Committing s u cs rs, w')
         | Some (SyncConflict v) \<Rightarrow> (Syncing s cs (rs @ [SyncConflict v]), w')
         | Some (SyncError e) \<Rightarrow> (Syncing s cs (rs @ [SyncError e]), w')))"

definition sync_commit :: "env \<Rightarrow> AuthUser \<Rightarrow> Note \<Rightarrow> Note list \<Rightarrow> Note SyncResult list \<Rightarrow> world \<Rightarrow> task \<times> world" where
  "sync_commit E s u cs rs w =
     (case run_stmt E (sql_upsert_note u) w of
        (Inr _, w') \<Rightarrow> (Syncing s cs (rs @ [Success u]), w')
      | (Inl _, w') \<Rightarrow> (Syncing s cs (rs @ [SyncError ''Database update failed'']), w'))"

text \<open>\<open>refresh\<close> up to each of its three statements.\<close>

definition refresh_lookup :: "env \<Rightarrow> RefreshRequest \<Rightarrow> world \<Rightarrow> task \<times> world" where
  "refresh_lookup E body w =
     (case get_valid_refresh_token E (hash_token E (rf_refresh_token body)) w of
        (Inl e, w') \<Rightarrow> (Answered (Inl (internal_error (core_error_text e))), w')
      | (Inr None, w') \<Rightarrow>
          (Answered (Inl (UNAUTHORIZED, error_json ''Invalid or expired refresh token'')), w')
      | (Inr (Some tok), w') \<Rightarrow> (Spending tok, w'))"

definition refresh_spend :: "env \<Rightarrow> RefreshToken \<Rightarrow> world \<Rightarrow> task \<times> world" where
  "refresh_spend E tok w =
     (case revoke_refresh_token E (rt_id tok) w of
        (Inl e, w') \<Rightarrow> (Answered (Inl (internal_error (core_error_text e))), w')
      | (Inr _, w') \<Rightarrow> (Issuing tok, w'))"

definition refresh_issue :: "env \<Rightarrow> app_state \<Rightarrow> RefreshToken \<Rightarrow> world \<Rightarrow> task \<times> world" where
  "refresh_issue E st tok w =
     (case generate_token_pair E st (rt_user_id tok) w of
        (Inl e, w') \<Rightarrow> (Answered (Inl e), w')
      | (Inr a, w') \<Rightarrow> (Answered (Inr (OK, a)), w'))"

fun task_step :: "env \<Rightarrow> app_state \<Rightarrow> task \<Rightarrow> world \<Rightarrow> task \<times> world" where
  "task_step E st (Syncing s [] rs) w = (Synced rs, w)"
| "task_step E st (Syncing s (c # cs) rs) w = sync_fetch E s c cs rs w"
| "task_step E st (Committing s u cs rs) w = sync_commit E s u cs rs w"
| "task_step E st (Presenting body) w = refresh_lookup E body w"
| "task_step E st (Spending tok) w = refresh_spend E tok w"
| "task_step E st (Issuing tok) w = refresh_issue E st tok w"
| "task_step E st (Synced rs) w = (Synced rs, w)"
| "task_step E st Panicked w = (Panicked, w)"
| "task_step E st (Answered r) w = (Answered r, w)"

text \<open>The statements a task has still to run, at most, and one step to end a batch.\<close>

fun task_left :: "task \<Rightarrow> nat" where
  "task_left (Syncing s cs rs) = 2 * length cs + 1"
| "task_left (Committing s u cs rs) = 2 * length cs + 2"
| "task_left (Presenting body) = 3"
| "task_left (Spending tok) = 2"
| "task_left (Issuing tok) = 1"
| "task_left _ = 0"

interpretation tasks: process "task_step E st" task_left for E st
proof
  fix t w t' w'
  assume "0 < task_left t" and step: "task_step E st t w = (t', w')"
  then show "task_left t' < task_left t"
    by (cases "(E, st, t, w)" rule: task_step.cases)
      (auto simp: sync_fetch_def sync_commit_def refresh_lookup_def refresh_spend_def refresh_issue_def
        split: if_splits prod.splits option.splits sum.splits SyncResult.splits)
next
  fix t w
  assume "task_left t = 0"
  then show "task_step E st t w = (t, w)" by (cases t) simp_all
qed

lemma run_final_task [simp]:
  "run_alone (task_step E st) n (Synced rs) w = (Synced rs, w)"
  "run_alone (task_step E st) n Panicked w = (Panicked, w)"
  "run_alone (task_step E st) n (Answered r) w = (Answered r, w)"
  by (simp_all add: tasks.run_alone_finished)

section \<open>Tasks run alone are the handlers\<close>

definition loop_outcome :: "(panic + Note SyncResult list) \<times> world \<Rightarrow> task \<times> world" where
  "loop_outcome x = (case x of (Inl p, w) \<Rightarrow> (Panicked, w) | (Inr rs, w) \<Rightarrow> (Synced rs, w))"

lemma run_sync_loop:
  "2 * length cs < n \<Longrightarrow>
    run_alone (task_step E st) n (Syncing s cs rs) w = loop_outcome (sync_loop E s cs rs w)"
proof (induction cs arbitrary: n rs w)
  case Nil
  then show ?case by (cases n) (simp_all add: ok_run loop_outcome_def)
next
  case (Cons c cs)
  then obtain k where n: "n = Suc (Suc k)" and k: "2 * length cs < k"
    by (cases n; cases "n - 1") auto
  have IH: "run_alone (task_step E st) k (Syncing s cs rs') w' = loop_outcome (sync_loop E s cs rs' w')"
    "run_alone (task_step E st) (Suc k) (Syncing s cs rs') w' = loop_outcome (sync_loop E s cs rs' w')" for rs' w'
    using Cons.IH [of k rs' w'] Cons.IH [of "Suc k" rs' w'] k by simp_all
  show ?case
  proof (cases "n_user_id c = au_user_id s")
    case False
    then show ?thesis
      using IH(2) by (simp add: n sync_fetch_def sync_note_foreign and_then_run del: run_alone.simps(2))
        (simp add: sync_fetch_def)
  next
    case owner: True
    obtain fetched w1 where
      sel: "run_stmt E (query (sql_select_note (n_id c) (au_user_id s))) w = (fetched, w1)" by fastforce
    from select_note_run [OF sel] have
      f: "(case fetched of Inl _ \<Rightarrow> None | Inr x \<Rightarrow> x) = fetched_note E s c w"
      and w1: "w1 = w\<lparr>w_tick := Suc (w_tick w)\<rparr>" by (simp_all add: fetched_note_def)
    have fetch: "task_step E st (Syncing s (c # cs) rs) w =
        (case reconcile_note (overflow_checks E) c (fetched_note E s c w) of
           None \<Rightarrow> (Panicked, w1)
         | Some (Success u) \<Rightarrow> (Committing s u cs rs, w1)
         | Some (SyncConflict v) \<Rightarrow> (Syncing s cs (rs @ [SyncConflict v]), w1)
         | Some (SyncError e) \<Rightarrow> (Syncing s cs (rs @ [SyncError e]), w1))"
      by (simp add: sync_fetch_def owner sel f)
    have step: "run_alone (task_step E st) n (Syncing s (c # cs) rs) w =
        (case task_step E st (Syncing s (c # cs) rs) w of (t', w') \<Rightarrow> run_alone (task_step E st) (Suc k) t' w')"
      unfolding n by (rule run_alone.simps(2))
    show ?thesis
      unfolding step fetch
      by (auto simp: and_then_run sync_note_run [OF owner] Let_def w1 [symmetric] IH(2)
          loop_outcome_def [of "(Inl _, _)"] sync_commit_def IH(1)
          simp del: run_alone.simps(2) simp: run_alone.simps(2) [of "task_step E st" k "Committing _ _ _ _"]
          split: option.split SyncResult.split prod.split sum.split)
  qed
qed

lemma run_refresh:
  "run_alone (task_step E st) (Suc (Suc (Suc n))) (Presenting body) w =
    (Answered (fst (refresh E st body w)), snd (refresh E st body w))"
  by (simp add: refresh_def and_then_run map_err_run ok_or_run ok_run refresh_lookup_def
      refresh_spend_def refresh_issue_def split: prod.split sum.split option.split)

section \<open>Interleavings\<close>

text \<open>The note that a task writes with its next statement.\<close>

fun committing :: "task \<Rightarrow> Note set" where
  "committing (Committing s u cs rs) = {u}"
| "committing t = {}"

context db_relation
begin

lemma task_step_effect:
  assumes "login_respects R" and "task_step E st t w = (t', w')"
    and stmts: "\<And>u. u \<in> committing t \<Longrightarrow> stmt_effect R (sql_upsert_note u)"
    and spends: "\<And>tok. t = Spending tok \<Longrightarrow> stmt_effect R (sql_revoke (\<lambda>r. rt_id r = rt_id tok))"
  shows "on_db R w w'"
proof (cases t)
  case (Syncing s cs rs)
  then show ?thesis
    using assms(2) effectD [OF effect_run_stmt [OF stmt_effect_query]]
    by (cases cs) (auto simp: sync_fetch_def refl
        split: if_splits prod.splits option.splits SyncResult.splits)
next
  case (Committing s u cs rs)
  then show ?thesis
    using assms(2) effectD [OF effect_run_stmt [OF stmts]]
    by (auto simp: sync_commit_def split: prod.splits sum.splits)
next
  case (Presenting body)
  then show ?thesis
    using assms(2) effectD [OF effect_login_store(4) [OF assms(1)]]
    by (auto simp: refresh_lookup_def split: prod.splits sum.splits option.splits)
next
  case (Spending tok)
  then show ?thesis
    using assms(2) effectD [OF effect_revoke [OF spends]]
    by (auto simp: refresh_spend_def split: prod.splits sum.splits)
next
  case (Issuing tok)
  then show ?thesis
    using assms(2) effectD [OF effect_token_pair [OF assms(1)]]
    by (auto simp: refresh_issue_def split: prod.splits sum.splits)
qed (use assms(2) in \<open>simp_all add: refl\<close>)

lemma interleave_effect:
  assumes "\<And>t w t' w'. step t w = (t', w') \<Longrightarrow> R (w_db w) (w_db w')"
    and "(interleave step)\<^sup>*\<^sup>* (w, ts) (w', ts')"
  shows "R (w_db w) (w_db w')"
  using interleave_invariant [OF assms(2), of "\<lambda>v ts. R (w_db w) (w_db v)"] assms(1)
  by (blast intro: db_refl db_trans)

end

section \<open>The lock is lost between two statements\<close>

lemma healthyD [simp]: "healthy E \<Longrightarrow> fault_at E t = Healthy"
  by (simp add: healthy_def)

lemma fetch_matching:
  assumes "healthy E" and "db_inv (w_db w)" and "stored_note (n_id c) (w_db w) = Some old"
    and "n_user_id old = au_user_id s" and "n_user_id c = au_user_id s"
    and "n_version c = n_version old" and "n_version old \<noteq> i32_max"
  shows "sync_fetch E s c cs rs w =
    (Committing s (c\<lparr>n_version := n_version old + 1\<rparr>) cs rs, w\<lparr>w_tick := Suc (w_tick w)\<rparr>)"
  using assms
  by (simp add: sync_fetch_def run_query_healthy sql_select_note_def stored_own_row reconcile_match
      del: reconcile_note.simps)

lemma commit_existing:
  assumes "healthy E" and "stored_note (n_id u) (w_db w) = Some old"
  shows "\<exists>w'. sync_commit E s u cs rs w = (Syncing s cs (rs @ [Success u]), w') \<and>
    w_tick w' = Suc (w_tick w) \<and>
    stored_note (n_id u) (w_db w') = Some (upsert_columns u (pg_now E (w_tick w)) old)"
proof -
  have "n_id u \<in> note_ids (w_db w)" by (rule stored_note_ids [OF assms(2)])
  then obtain d' where ups: "sql_upsert_note u (pg_now E (w_tick w)) (w_db w) = Inr ((), d')"
    by (simp add: sql_upsert_note_def)
  with upsert_InrD(1) [OF ups, of "n_id u"] assms show ?thesis
    by (simp add: sync_commit_def run_stmt_healthy)
qed

text \<open>
  C14. Lost update: two devices that start from the stored version and send their changes at the
  same time can both be told that theirs was accepted, both with the same new version, although
  nothing failed; the row then holds the second device's content and the first's is gone. (One
  after the other, the second would get the conflict.)
\<close>

theorem concurrent_sync_loses_update:
  assumes "healthy E" and "db_inv (w_db w)" and "stored_note i (w_db w) = Some old"
    and "n_user_id old = au_user_id s" and "n_version old \<noteq> i32_max"
    and "n_id c1 = i" "n_user_id c1 = au_user_id s" "n_version c1 = n_version old"
    and "n_id c2 = i" "n_user_id c2 = au_user_id s" "n_version c2 = n_version old"
  shows "\<exists>w' r. (interleave (task_step E st))\<^sup>*\<^sup>* (w, [Syncing s [c1] [], Syncing s [c2] []])
      (w', [Syncing s [] [Success (c1\<lparr>n_version := n_version old + 1\<rparr>)],
            Syncing s [] [Success (c2\<lparr>n_version := n_version old + 1\<rparr>)]]) \<and>
    stored_note i (w_db w') = Some r \<and> n_version r = n_version old + 1 \<and>
    n_content_cipher r = n_content_cipher c2 \<and> n_title_cipher r = n_title_cipher c2"
proof -
  let ?v = "n_version old + 1" and ?ts = "[Syncing s [c1] [], Syncing s [c2] []]"
  let ?w2 = "w\<lparr>w_tick := Suc (Suc (w_tick w))\<rparr>"
  have f1: "sync_fetch E s c1 [] [] w = (Committing s (c1\<lparr>n_version := ?v\<rparr>) [] [], w\<lparr>w_tick := Suc (w_tick w)\<rparr>)"
    using assms by (intro fetch_matching) simp_all
  have f2: "sync_fetch E s c2 [] [] (w\<lparr>w_tick := Suc (w_tick w)\<rparr>) =
      (Committing s (c2\<lparr>n_version := ?v\<rparr>) [] [], ?w2)"
    using fetch_matching [of E "w\<lparr>w_tick := Suc (w_tick w)\<rparr>" c2 old s] assms by simp
  obtain w3 where c1: "sync_commit E s (c1\<lparr>n_version := ?v\<rparr>) [] [] ?w2 =
      (Syncing s [] [Success (c1\<lparr>n_version := ?v\<rparr>)], w3)"
    and s3: "\<exists>r. stored_note i (w_db w3) = Some r"
    using commit_existing [of E "c1\<lparr>n_version := ?v\<rparr>" ?w2 old s "[]" "[]"] assms by auto
  from s3 obtain r3 where "stored_note i (w_db w3) = Some r3" ..
  then obtain w4 r where c2: "sync_commit E s (c2\<lparr>n_version := ?v\<rparr>) [] [] w3 =
      (Syncing s [] [Success (c2\<lparr>n_version := ?v\<rparr>)], w4)"
    and s4: "stored_note i (w_db w4) = Some r" "n_version r = ?v"
      "n_content_cipher r = n_content_cipher c2" "n_title_cipher r = n_title_cipher c2"
    using commit_existing [of E "c2\<lparr>n_version := ?v\<rparr>" w3 r3 s "[]" "[]"] assms
    by (auto simp: upsert_columns_def)
  have "run_schedule (task_step E st) [0, 1, 0, 1] (w, ?ts) = (w4,
      [Syncing s [] [Success (c1\<lparr>n_version := ?v\<rparr>)], Syncing s [] [Success (c2\<lparr>n_version := ?v\<rparr>)]])"
    using f1 f2 c1 c2 by simp
  with run_schedule_interleaves [of "task_step E st" "(w, ?ts)" "[0, 1, 0, 1]"] s4 show ?thesis by auto
qed

theorem concurrent_sync_loses_update_witness:
  "\<exists>w' ts' r. (interleave (task_step demo_env demo_state))\<^sup>*\<^sup>*
      (demo_world, [Syncing ann [demo_note\<lparr>n_content_cipher := [8]\<rparr>] [],
                    Syncing ann [demo_note\<lparr>n_content_cipher := [9]\<rparr>] []]) (w', ts') \<and>
    stored_note 7 (w_db w') = Some r \<and> n_content_cipher r = [9] \<and> n_version r = 2"
proof -
  have stored: "stored_note 7 (w_db demo_world) = Some demo_note"
    by (simp add: stored_note_def tbl_find_def demo_defs)
  have ours: "n_user_id demo_note = au_user_id ann" "n_version demo_note \<noteq> i32_max"
    "n_id (demo_note\<lparr>n_content_cipher := x\<rparr>) = 7"
    "n_user_id (demo_note\<lparr>n_content_cipher := x\<rparr>) = au_user_id ann"
    "n_version (demo_note\<lparr>n_content_cipher := x\<rparr>) = n_version demo_note"
    "n_version demo_note + 1 = 2" for x
    by (simp_all add: demo_note_def ann_def)
  have "healthy demo_env" by (simp add: healthy_def)
  from concurrent_sync_loses_update [OF this demo_inv stored ours(1,2) ours(3,4,5) ours(3,4,5),
      of demo_state "[8]" "[9]"]
  show ?thesis unfolding ours(6) by (auto simp: demo_note_def)
qed

section \<open>A refresh token spent twice\<close>

lemma refresh_issue_runs:
  assumes "healthy E" and "\<forall>u. CHR 0x00 \<notin> set (hash_token E (uuid_to_string E u))"
    and "\<forall>claims. \<exists>a. encode_token E claims (jwt_private_key st) = Inr a"
    and "rt_user_id tok \<in> user_ids (w_db w)"
    and "new_v4 E (w_tick w + 2) \<notin> rt_id ` set (db_refresh_tokens (w_db w))"
  shows "\<exists>a n. refresh_issue E st tok w = (Answered (Inr (OK, a)), w\<lparr>w_tick := w_tick w + 4,
      w_db := (w_db w)\<lparr>db_refresh_tokens := db_refresh_tokens (w_db w) @ [n]\<rparr>\<rparr>) \<and>
    rt_id n = new_v4 E (w_tick w + 2) \<and> \<not> rt_revoked n \<and> rt_user_id n = rt_user_id tok \<and>
    rt_token_hash n = hash_token E (ar_refresh_token a)"
proof -
  have tick: "w_tick w + 2 = Suc (Suc (w_tick w))" by simp
  obtain access where enc: "encode_token E (access_claims E (rt_user_id tok) (utc_now E (w_tick w)))
      (jwt_private_key st) = Inr access" using assms(3) by blast
  from assms(5) have fresh: "new_v4 E (Suc (Suc (w_tick w))) \<notin> rt_id ` set (db_refresh_tokens (w_db w))"
    unfolding tick .
  obtain a w' where run: "generate_token_pair E st (rt_user_id tok) w = (Inr a, w')"
    using generate_token_pair_succeeds [OF enc _ assms(4) fresh] assms(1,2) by auto
  let ?n = "refresh_record E (rt_user_id tok) (utc_now E (w_tick w)) (ar_refresh_token a)
      (new_v4 E (w_tick w + 2))"
  have "w' = w\<lparr>w_tick := w_tick w + 4,
      w_db := (w_db w)\<lparr>db_refresh_tokens := db_refresh_tokens (w_db w) @ [?n]\<rparr>\<rparr>"
    using run unfolding tick by (elim generate_token_pair_InrE)
  with run have "refresh_issue E st tok w = (Answered (Inr (OK, a)), w\<lparr>w_tick := w_tick w + 4,
      w_db := (w_db w)\<lparr>db_refresh_tokens := db_refresh_tokens (w_db w) @ [?n]\<rparr>\<rparr>)"
    by (simp add: refresh_issue_def)
  then show ?thesis
    by (intro exI [of _ a] exI [of _ ?n]) (simp add: refresh_record_def)
qed

text \<open>
  C15. Single use does not hold under concurrency: when the same valid token is presented twice
  at the same time, both lookups can come before either revocation; then both requests succeed
  and the table holds two new valid tokens of the user, so one token has become two sessions.
\<close>

theorem concurrent_refresh_forks_session:
  assumes "healthy E" and "db_inv (w_db w)"
    and h: "h = hash_token E (rf_refresh_token body)" "CHR 0x00 \<notin> set h"
    and "find (valid_token h (pg_now E (w_tick w))) (db_refresh_tokens (w_db w)) = Some tok"
    and "find (valid_token h (pg_now E (Suc (w_tick w)))) (db_refresh_tokens (w_db w)) = Some tok"
    and lib: "\<forall>u. CHR 0x00 \<notin> set (hash_token E (uuid_to_string E u))"
      "\<forall>claims. \<exists>a. encode_token E claims (jwt_private_key st) = Inr a"
    and "new_v4 E (w_tick w + 6) \<notin> rt_id ` set (db_refresh_tokens (w_db w))"
    and "new_v4 E (w_tick w + 10) \<notin> rt_id ` set (db_refresh_tokens (w_db w))"
    and "new_v4 E (w_tick w + 6) \<noteq> new_v4 E (w_tick w + 10)"
  shows "\<exists>w' a1 a2 n1 n2. (interleave (task_step E st))\<^sup>*\<^sup>* (w, [Presenting body, Presenting body])
      (w', [Answered (Inr (OK, a1)), Answered (Inr (OK, a2))]) \<and>
    {n1, n2} \<subseteq> set (db_refresh_tokens (w_db w')) \<and> rt_id n1 \<noteq> rt_id n2 \<and>
    \<not> rt_revoked n1 \<and> \<not> rt_revoked n2 \<and> rt_user_id n1 = rt_user_id tok \<and> rt_user_id n2 = rt_user_id tok \<and>
    rt_token_hash n1 = hash_token E (ar_refresh_token a1) \<and>
    rt_token_hash n2 = hash_token E (ar_refresh_token a2)"
proof -
  let ?t = "w_tick w" and ?ts = "[Presenting body, Presenting body]"
  let ?rev = "tbl_update (\<lambda>r. rt_id r = rt_id tok) (\<lambda>r. r\<lparr>rt_revoked := True\<rparr>)"
  define spent where "spent = ?rev (?rev (db_refresh_tokens (w_db w)))"
  define w4 where "w4 = w\<lparr>w_tick := Suc (Suc (Suc (Suc ?t))), w_db := (w_db w)\<lparr>db_refresh_tokens := spent\<rparr>\<rparr>"
  have ids: "rt_id ` set spent = rt_id ` set (db_refresh_tokens (w_db w))"
    unfolding spent_def by (simp add: image_tbl_update)
  have "tok \<in> set (db_refresh_tokens (w_db w))" using assms(5) by (auto simp: find_Some_iff)
  then have user: "rt_user_id tok \<in> user_ids (w_db w)"
    using assms(2) by (auto simp: db_inv_def)
  have w4: "w_tick w4 = ?t + 4" "db_users (w_db w4) = db_users (w_db w)"
    "db_refresh_tokens (w_db w4) = spent" by (simp_all add: w4_def)
  have fresh1: "new_v4 E (w_tick w4 + 2) \<notin> rt_id ` set (db_refresh_tokens (w_db w4))"
    "w_tick w4 + 2 = ?t + 6" "w_tick w4 + 4 = ?t + 8"
    using assms(9) ids by (simp_all add: w4 add.commute)
  obtain a1 n1 w5 where i1: "refresh_issue E st tok w4 = (Answered (Inr (OK, a1)), w5)"
    and w5: "w_tick w5 = ?t + 8" "db_users (w_db w5) = db_users (w_db w)"
      "db_refresh_tokens (w_db w5) = spent @ [n1]"
    and n1: "rt_id n1 = new_v4 E (?t + 6)" "\<not> rt_revoked n1" "rt_user_id n1 = rt_user_id tok"
      "rt_token_hash n1 = hash_token E (ar_refresh_token a1)"
    using refresh_issue_runs [OF assms(1) lib _ fresh1(1), of tok] user w4
    unfolding fresh1(2,3) by (auto simp: user_ids_def)
  have fresh2: "new_v4 E (w_tick w5 + 2) \<notin> rt_id ` set (db_refresh_tokens (w_db w5))"
    "w_tick w5 + 2 = ?t + 10"
    using assms(10,11) ids n1(1) by (simp_all add: w5 add.commute)
  obtain a2 n2 w6 where i2: "refresh_issue E st tok w5 = (Answered (Inr (OK, a2)), w6)"
    and w6: "db_refresh_tokens (w_db w6) = spent @ [n1, n2]"
    and n2: "rt_id n2 = new_v4 E (?t + 10)" "\<not> rt_revoked n2" "rt_user_id n2 = rt_user_id tok"
      "rt_token_hash n2 = hash_token E (ar_refresh_token a2)"
    using refresh_issue_runs [OF assms(1) lib _ fresh2(1), of tok] user w5
    unfolding fresh2(2) by (auto simp: user_ids_def)
  have "run_schedule (task_step E st) [0, 1, 0, 1, 0, 1] (w, ?ts) =
      (w6, [Answered (Inr (OK, a1)), Answered (Inr (OK, a2))])"
    using assms(1,5,6) h i1 i2
    by (simp add: refresh_lookup_def get_valid_refresh_token_healthy refresh_spend_def
        revoke_refresh_token_def map_err_run run_stmt_healthy sql_revoke_def spent_def w4_def)
  with run_schedule_interleaves [of "task_step E st" "(w, ?ts)" "[0, 1, 0, 1, 0, 1]"]
  have run: "(interleave (task_step E st))\<^sup>*\<^sup>* (w, ?ts) (w6, [Answered (Inr (OK, a1)), Answered (Inr (OK, a2))])"
    by simp
  show ?thesis
    by (intro exI [of _ w6] exI [of _ a1] exI [of _ a2] exI [of _ n1] exI [of _ n2])
      (use run w6 n1 n2 assms(11) in simp)
qed

theorem concurrent_refresh_forks_session_witness:
  "\<exists>w' a1 a2. (interleave (task_step demo_env demo_state))\<^sup>*\<^sup>*
      (demo_session, [Presenting \<lparr>rf_refresh_token = ''t0''\<rparr>, Presenting \<lparr>rf_refresh_token = ''t0''\<rparr>])
      (w', [Answered (Inr (OK, a1)), Answered (Inr (OK, a2))])"
proof -
  let ?body = "\<lparr>rf_refresh_token = ''t0''\<rparr>" and ?ts = "db_refresh_tokens (w_db demo_session)"
  have tokens: "?ts = [demo_token]" "w_tick demo_session = 0"
    by (simp_all add: demo_session_def demo_world_def)
  have env: "healthy demo_env" "\<forall>u. CHR 0x00 \<notin> set (hash_token demo_env (uuid_to_string demo_env u))"
    "\<forall>claims. \<exists>a. encode_token demo_env claims (jwt_private_key demo_state) = Inr a"
    by (simp_all add: healthy_def hash_token_def encode_token_def demo_jwt_encode_def demo_state_def)
  have h: "''#t0'' = hash_token demo_env (rf_refresh_token ?body)" "CHR 0x00 \<notin> set ''#t0''"
    by (simp_all add: hash_token_def)
  have found: "find (valid_token ''#t0'' (pg_now demo_env (w_tick demo_session))) ?ts = Some demo_token"
    "find (valid_token ''#t0'' (pg_now demo_env (Suc (w_tick demo_session)))) ?ts = Some demo_token"
    by (simp_all add: tokens valid_token_def demo_token_def duration_days_def duration_seconds_def)
  have ids: "new_v4 demo_env (w_tick demo_session + 6) \<notin> rt_id ` set ?ts"
    "new_v4 demo_env (w_tick demo_session + 10) \<notin> rt_id ` set ?ts"
    "new_v4 demo_env (w_tick demo_session + 6) \<noteq> new_v4 demo_env (w_tick demo_session + 10)"
    by (simp_all add: tokens demo_token_def)
  from concurrent_refresh_forks_session [OF env(1) demo_session_inv h found env(2,3) ids]
  show ?thesis by blast
qed

end
