(* ===== verification/Concurrent_Api.thy ===== *)
theory Concurrent_Api
  imports Races
begin

text \<open>
  The whole API under concurrency: an \<open>activity\<close> is a request from its arrival to its end, and \<open>api_step\<close> takes it through routing and authentication to its next statement. Batches and
  refreshes are the tasks of \<open>Races\<close>; registrations, logins and uploads are split here.
\<close>

section \<open>A request from arrival to its end\<close>

text \<open>
  \<open>Ended (Inr r)\<close> is a request that was answered with \<open>r\<close>; \<open>Ended (Inl p)\<close> is one whose handler has
  panicked, and whose connection is closed without a response.
\<close>

datatype activity =
  Arriving request
| Registering RegisterRequest
| Creating RegisterRequest
| LoggingIn LoginRequest
| Pairing status_code uuid
| Uploading AuthUser VaultEntry
| Running task
| Ended "panic + response"

text \<open>What the result of an \<open>auth\<close> handler becomes.\<close>

definition answer :: "http_error + status_code \<times> AuthResponse \<Rightarrow> panic + response" where
  "answer r = Inr (case r of Inl (s, j) \<Rightarrow> (s, JsonPayload j) | Inr (s, a) \<Rightarrow> (s, AuthPayload a))"

lemma into_response_run: "into_response m w = (case m w of (r, w') \<Rightarrow> (answer r, w'))"
  by (auto simp: into_response_def and_then_run attempt_run ok_run answer_def
      split: prod.split sum.split)

text \<open>The route's handler, before its first statement.\<close>

definition start_public :: "route \<Rightarrow> body \<Rightarrow> activity" where
  "start_public r b =
     (case (r, b) of
        (Health, _) \<Rightarrow> Ended (Inr health_check)
      | (Register, RegisterBody q) \<Rightarrow> Registering q
      | (Login, LoginBody q) \<Rightarrow> LoggingIn q
      | (Refresh, RefreshBody q) \<Rightarrow> Running (Presenting q)
      | _ \<Rightarrow> Ended (Inr (refusal b)))"

definition start_protected :: "env \<Rightarrow> route \<Rightarrow> body \<Rightarrow> AuthUser \<Rightarrow> activity" where
  "start_protected E r b session =
     (case (r, b) of
        (Me, _) \<Rightarrow> Ended (Inr (me E session))
      | (SyncNotes, NotesBody ns) \<Rightarrow> Running (Syncing session ns [])
      | (SyncVaultEntries, VaultBody v) \<Rightarrow> Uploading session v
      | _ \<Rightarrow> Ended (Inr (refusal b)))"

text \<open>Behind the middleware, as in \<open>protected_service\<close>.\<close>

definition start_guarded :: "env \<Rightarrow> request \<Rightarrow> AuthUser \<Rightarrow> activity" where
  "start_guarded E req session =
     (case map_of protected_routes (req_path req) of
        Some r \<Rightarrow>
          if method_allowed r (req_method req) then start_protected E r (req_body req) session
          else Ended (Inr (METHOD_NOT_ALLOWED, NoPayload))
      | None \<Rightarrow> Ended (Inr (NOT_FOUND, NoPayload)))"

definition arrive :: "env \<Rightarrow> app_state \<Rightarrow> request \<Rightarrow> world \<Rightarrow> activity \<times> world" where
  "arrive E st req w =
     (case map_of public_routes (req_path req) of
        Some r \<Rightarrow>
          (if method_allowed r (req_method req) then start_public r (req_body req)
           else Ended (Inr (METHOD_NOT_ALLOWED, NoPayload)), w)
      | None \<Rightarrow>
         (case require_auth E st (req_authorization req) (\<lambda>session. ok (start_guarded E req session)) w of
            (Inl (s, j), w') \<Rightarrow> (Ended (Inr (s, JsonPayload j)), w')
          | (Inr a, w') \<Rightarrow> (a, w')))"

text \<open>\<open>register\<close>: the look-up, the new account, the token pair.\<close>

definition register_lookup :: "env \<Rightarrow> RegisterRequest \<Rightarrow> world \<Rightarrow> activity \<times> world" where
  "register_lookup E body w =
     (case get_user_by_email E (rr_email body) w of
        (Inr (Some _), w') \<Rightarrow>
          (Ended (answer (Inl (CONFLICT, error_json ''Email already registered''))), w')
      | (_, w') \<Rightarrow> (Creating body, w'))"

definition create_account :: "env \<Rightarrow> RegisterRequest \<Rightarrow> (world, http_error, User) act" where
  "create_account E body =
     and_then (map_err internal_error (hash_password E (rr_password body))) (\<lambda>password_hash.
     and_then (tick (new_v4 E)) (\<lambda>user_id.
       map_err (\<lambda>e. internal_error (core_error_text e))
         (create_user E user_id (rr_email body) password_hash (rr_display_name body))))"

definition register_create :: "env \<Rightarrow> RegisterRequest \<Rightarrow> world \<Rightarrow> activity \<times> world" where
  "register_create E body w =
     (case create_account E body w of
        (Inl e, w') \<Rightarrow> (Ended (answer (Inl e)), w')
      | (Inr user, w') \<Rightarrow> (Pairing CREATED (u_id user), w'))"

definition pair_issue ::
    "env \<Rightarrow> app_state \<Rightarrow> status_code \<Rightarrow> uuid \<Rightarrow> world \<Rightarrow> activity \<times> world" where
  "pair_issue E st code uid w =
     (case generate_token_pair E st uid w of
        (Inl e, w') \<Rightarrow> (Ended (answer (Inl e)), w')
      | (Inr a, w') \<Rightarrow> (Ended (answer (Inr (code, a))), w'))"

text \<open>\<open>login\<close>: the look-up with the check of the password, the token pair.\<close>

definition check_login :: "env \<Rightarrow> LoginRequest \<Rightarrow> (world, http_error, User) act" where
  "check_login E body =
     and_then (map_err (\<lambda>e. internal_error (core_error_text e))
         (get_user_by_email E (lr_email body))) (\<lambda>found.
     and_then (ok_or (UNAUTHORIZED, error_json ''Invalid email or password'') found) (\<lambda>user.
     and_then (map_err internal_error
         (lift_result (verify_password E (lr_password body) (u_password_hash user)))) (\<lambda>verified.
       if \<not> verified then err (UNAUTHORIZED, error_json ''Invalid email or password'')
       else ok user)))"

definition login_lookup :: "env \<Rightarrow> LoginRequest \<Rightarrow> world \<Rightarrow> activity \<times> world" where
  "login_lookup E body w =
     (case check_login E body w of
        (Inl e, w') \<Rightarrow> (Ended (answer (Inl e)), w')
      | (Inr user, w') \<Rightarrow> (Pairing OK (u_id user), w'))"

definition upload_entry :: "env \<Rightarrow> AuthUser \<Rightarrow> VaultEntry \<Rightarrow> world \<Rightarrow> activity \<times> world" where
  "upload_entry E session v w =
     (case upload_vault_entry E session v w of
        (Inl p, w') \<Rightarrow> (Ended (Inl p), w')
      | (Inr r, w') \<Rightarrow> (Ended (Inr (OK, VaultResult r)), w'))"

text \<open>A task that has finished ends its request, with a response or by a panic.\<close>

fun settle :: "task \<Rightarrow> activity" where
  "settle (Synced rs) = Ended (Inr (OK, NoteResults rs))"
| "settle Panicked = Ended (Inl ArithmeticOverflow)"
| "settle (Answered r) = Ended (answer r)"
| "settle t = Running t"

fun api_step :: "env \<Rightarrow> app_state \<Rightarrow> activity \<Rightarrow> world \<Rightarrow> activity \<times> world" where
  "api_step E st (Arriving req) w = arrive E st req w"
| "api_step E st (Registering body) w = register_lookup E body w"
| "api_step E st (Creating body) w = register_create E body w"
| "api_step E st (LoggingIn body) w = login_lookup E body w"
| "api_step E st (Pairing code uid) w = pair_issue E st code uid w"
| "api_step E st (Uploading session v) w = upload_entry E session v w"
| "api_step E st (Running t) w = (case task_step E st t w of (t', w') \<Rightarrow> (settle t', w'))"
| "api_step E st (Ended r) w = (Ended r, w)"

section \<open>Every request ends\<close>

text \<open>The steps that are left, at most.\<close>

fun body_steps :: "body \<Rightarrow> nat" where
  "body_steps (NotesBody ns) = 2 * length ns + 1"
| "body_steps (LoginBody q) = 2"
| "body_steps _ = 3"

fun activity_left :: "activity \<Rightarrow> nat" where
  "activity_left (Arriving req) = Suc (body_steps (req_body req))"
| "activity_left (Registering body) = 3"
| "activity_left (Creating body) = 2"
| "activity_left (LoggingIn body) = 2"
| "activity_left (Pairing code uid) = 1"
| "activity_left (Uploading session v) = 1"
| "activity_left (Running t) = max 1 (task_left t)"
| "activity_left (Ended r) = 0"

lemma start_left:
  "activity_left (start_public r b) \<le> body_steps b"
  "activity_left (start_protected E r b session) \<le> body_steps b"
  by (auto simp: start_public_def start_protected_def split: route.split body.split)

lemma start_guarded_left: "activity_left (start_guarded E req session) \<le> body_steps (req_body req)"
  using start_left(2) by (simp add: start_guarded_def split: option.split)

lemma require_auth_ok:
  "require_auth E st header (\<lambda>session. ok (f session)) w = (Inr x, w') \<Longrightarrow> \<exists>session. x = f session"
  unfolding require_auth_def by (auto elim!: and_then_InrE simp: ok_run)

lemma arrive_left: "arrive E st req w = (a, w') \<Longrightarrow> activity_left a \<le> body_steps (req_body req)"
  using start_left(1) start_guarded_left
  by (auto simp: arrive_def split: option.splits if_splits prod.splits sum.splits dest!: require_auth_ok)

lemma settle_left: "activity_left (settle t) = task_left t"
  by (cases t rule: settle.cases) simp_all

interpretation activities: process "api_step E st" activity_left for E st
proof
  fix a w a' w'
  assume left: "0 < activity_left a" and step: "api_step E st a w = (a', w')"
  show "activity_left a' < activity_left a"
  proof (cases a)
    case (Arriving req)
    with step show ?thesis by (auto dest!: arrive_left)
  next
    case (Running t)
    with step obtain t' where t': "task_step E st t w = (t', w')" "a' = settle t'"
      by (auto split: prod.splits)
    then show ?thesis
      using Running tasks.step_left [OF t'(1)] by (simp add: settle_left)
  qed (use left step in \<open>auto simp: register_lookup_def register_create_def login_lookup_def
      pair_issue_def upload_entry_def split: prod.splits sum.splits option.splits\<close>)
next
  fix a w
  assume "activity_left a = 0"
  then show "api_step E st a w = (a, w)" by (cases a) simp_all
qed

lemma activity_done: "activity_left a = 0 \<longleftrightarrow> (\<exists>r. a = Ended r)"
  by (cases a) simp_all

section \<open>Run alone, an activity is the handler\<close>

abbreviation run_api :: "env \<Rightarrow> app_state \<Rightarrow> nat \<Rightarrow> activity \<Rightarrow> world \<Rightarrow> activity \<times> world" where
  "run_api E st \<equiv> run_alone (api_step E st)"

lemma run_api_responded [simp]: "run_api E st n (Ended r) w = (Ended r, w)"
  by (simp add: activities.run_alone_finished)

text \<open>A request that is handled by \<open>m\<close>: alone, it has \<open>m\<close>'s response after \<open>n\<close> steps.\<close>

definition handled :: "env \<Rightarrow> app_state \<Rightarrow> nat \<Rightarrow> activity \<Rightarrow> (world, panic, response) act \<Rightarrow> bool" where
  "handled E st n a m \<longleftrightarrow> (\<forall>w k. n \<le> k \<longrightarrow> run_api E st k a w = (case m w of (r, w') \<Rightarrow> (Ended r, w')))"

lemma handled_mono: "handled E st n a m \<Longrightarrow> n \<le> k \<Longrightarrow> handled E st k a m"
  by (simp add: handled_def)

text \<open>It is enough to look at the exact number of steps: a response does not change any more.\<close>

lemma handledI:
  assumes "\<And>w. run_api E st n a w = (case m w of (r, w') \<Rightarrow> (Ended r, w'))"
  shows "handled E st n a m"
  unfolding handled_def
proof (intro allI impI)
  fix w k assume "n \<le> k"
  then obtain j where "k = n + j" using le_Suc_ex by blast
  then show "run_api E st k a w = (case m w of (r, w') \<Rightarrow> (Ended r, w'))"
    by (simp add: run_alone_add assms split: prod.split)
qed

lemma register_split:
  "register E st body =
     and_then (attempt (get_user_by_email E (rr_email body))) (\<lambda>existing.
       case existing of
         Inr (Some _) \<Rightarrow> err (CONFLICT, error_json ''Email already registered'')
       | _ \<Rightarrow> and_then (create_account E body) (\<lambda>user.
           and_then (generate_token_pair E st (u_id user)) (\<lambda>auth_response. ok (CREATED, auth_response))))"
  unfolding register_def create_account_def and_then_assoc ..

lemma login_split:
  "login E st body = and_then (check_login E body) (\<lambda>user.
     and_then (generate_token_pair E st (u_id user)) (\<lambda>auth_response. ok (OK, auth_response)))"
proof -
  have if_distrib: "and_then (if b then err e else ok u) f = (if b then err e else f u)"
    for b e u and f :: "User \<Rightarrow> (world, http_error, status_code \<times> AuthResponse) act"
    by simp
  show ?thesis by (simp add: login_def check_login_def and_then_assoc if_distrib)
qed

lemma handled_registering: "handled E st 3 (Registering body) (into_response (register E st body))"
  by (rule handledI)
    (auto simp: register_split numeral_3_eq_3 into_response_run register_lookup_def register_create_def
      pair_issue_def and_then_run attempt_run ok_run err_run split: prod.split sum.split option.split)

lemma handled_logging_in: "handled E st 2 (LoggingIn body) (into_response (login E st body))"
  by (rule handledI)
    (auto simp: login_split numeral_2_eq_2 into_response_run login_lookup_def
      pair_issue_def and_then_run ok_run split: prod.split sum.split)

lemma handled_uploading:
  "handled E st 1 (Uploading session v)
     (and_then (upload_vault_entry E session v) (\<lambda>r. ok (OK, VaultResult r)))"
  by (rule handledI)
    (auto simp: upload_entry_def and_then_run ok_run split: prod.split sum.split)

text \<open>The tasks of \<open>Races\<close>, inside an activity.\<close>

lemma run_settled:
  "run_api E st n (settle t) w =
    (case run_alone (task_step E st) n t w of (t', w') \<Rightarrow> (settle t', w'))"
proof (induction n arbitrary: t w)
  case 0
  then show ?case by simp
next
  case (Suc n)
  then show ?case
    by (cases t rule: settle.cases) (auto split: prod.split simp del: task_step.simps(1-6))
qed

lemma handled_refreshing: "handled E st 3 (Running (Presenting body)) (into_response (refresh E st body))"
  using run_settled [of E st 3 "Presenting body"] run_refresh [of E st 0 body]
  by (intro handledI) (simp add: numeral_3_eq_3 into_response_run split: prod.split)

lemma handled_syncing:
  "handled E st (2 * length ns + 1) (Running (Syncing session ns []))
     (and_then (sync_notes E session ns) (\<lambda>rs. ok (OK, NoteResults rs)))"
proof (rule handledI)
  fix w
  show "run_api E st (2 * length ns + 1) (Running (Syncing session ns [])) w =
      (case and_then (sync_notes E session ns) (\<lambda>rs. ok (OK, NoteResults rs)) w of
        (r, w') \<Rightarrow> (Ended r, w'))"
    using run_settled [of E st "2 * length ns + 1" "Syncing session ns []" w]
      run_sync_loop [of ns "2 * length ns + 1" E st session "[]" w]
    by (auto simp: sync_notes_def loop_outcome_def and_then_run ok_run
        simp del: run_alone.simps split: prod.split sum.split intro: the_panic [symmetric])
qed

lemma handled_responded: "handled E st n (Ended r) (lift_result r)"
  by (simp add: handled_def lift_result_run)

lemma handled_ok: "handled E st n (Ended (Inr x)) (ok x)"
  by (simp add: handled_def ok_run)

lemma handled_public: "handled E st (body_steps b) (start_public r b) (public_handler E st r b)"
  using handled_registering [of E st] handled_logging_in [of E st]
    handled_refreshing [of E st] handled_ok
  by (simp add: start_public_def public_handler_def split: route.split body.split)

lemma handled_protected:
  "handled E st (body_steps b) (start_protected E r b session) (protected_handler E r b session)"
  using handled_syncing [of E st] handled_uploading [of E st, THEN handled_mono, of 3] handled_ok
  by (simp add: start_protected_def protected_handler_def split: route.split body.split)

lemma handled_guarded:
  "handled E st (body_steps (req_body req)) (start_guarded E req session) (protected_service E req session)"
  using handled_protected [of E st] handled_ok
  by (simp add: start_guarded_def protected_service_def split: option.split)

text \<open>The middleware is its check followed by the continuation.\<close>

lemma require_auth_split: "require_auth E st header f = and_then (require_auth E st header ok) f"
  unfolding require_auth_def and_then_assoc by simp

lemma require_auth_refused:
  "require_auth E st header ok w = (Inl e, w') \<Longrightarrow> require_auth E st header f w = (Inl e, w')"
  by (subst require_auth_split) (simp add: and_then_run)

lemma handled_arriving: "handled E st (Suc (body_steps (req_body req))) (Arriving req) (handle_request E st req)"
  unfolding handled_def
proof (intro allI impI)
  fix w k assume "Suc (body_steps (req_body req)) \<le> k"
  then obtain j where k: "k = Suc j" "body_steps (req_body req) \<le> j" by (cases k) auto
  let ?goal = "\<lambda>x. run_api E st k (Arriving req) w = (case x of (r, w') \<Rightarrow> (Ended r, w'))"
  show "?goal (handle_request E st req w)"
  proof (cases "map_of public_routes (req_path req)")
    case pub: (Some r)
    then show ?thesis
      using handled_public [of E st "req_body req" r] k
      by (simp add: handled_def arrive_def public_request ok_run)
  next
    case no_pub: None
    show ?thesis
    proof (cases "authenticated E st (req_authorization req) (utc_now E (w_tick w))")
      case None
      then obtain msg w' where refused: "require_auth E st (req_authorization req) ok w =
          (Inl (UNAUTHORIZED, error_json msg), w')"
        using require_auth_rejected by blast
      show ?thesis
        by (simp add: k(1) arrive_def no_pub layered_request [OF no_pub] and_then_run
            attempt_run ok_run require_auth_refused [OF refused])
    next
      case (Some uid)
      then show ?thesis
        using handled_guarded [of E st req] k
        by (simp add: handled_def arrive_def no_pub layered_granted [OF no_pub]
            require_auth_authenticated ok_run)
    qed
  qed
qed

end
