(* ===== verification/Concurrency_Facts.thy ===== *)
theory Concurrency_Facts
  imports Concurrent_Api "HOL-Library.Infinite_Set"
begin

text \<open>
  Properties of concurrent requests: alone they are the handlers of \<open>Api_Main\<close>, they end once they have
  had their turns, and what no interleaving of them can break.
\<close>

section \<open>Faithfulness of the split, and the end of requests\<close>

text \<open>
  The split into statements is faithful: any request to the API, run step by step with no other
  request in between, ends with the response (or the panic) and the database that
  \<open>handle_request\<close> gives, after at most four steps, or \<open>2 n + 2\<close> for a batch of \<open>n\<close> notes.
\<close>

theorem request_alone_is_handler:
  "run_api E st (body_steps (req_body req) + 1 + n) (Arriving req) w =
     (Ended (fst (handle_request E st req w)), snd (handle_request E st req w))"
  using handled_arriving [of E st req]
  by (simp add: handled_def prod.case_eq_if del: run_alone.simps)

lemma two_scheduled:
  assumes "activity_left a \<le> count_list is 0" and "activity_left b \<le> count_list is 1"
  obtains w' r r' where "run_schedule (api_step E st) is (w, [a, b]) = (w', [Ended r, Ended r'])"
    and "(interleave (api_step E st))\<^sup>*\<^sup>* (w, [a, b]) (w', [Ended r, Ended r'])"
proof -
  obtain w' as' where run: "run_schedule (api_step E st) is (w, [a, b]) = (w', as')" by fastforce
  have "\<forall>i < length [a, b]. activity_left ([a, b] ! i) \<le> count_list is i"
    using assms by (simp add: less_Suc_eq)
  from activities.schedule_finishes [OF this, of E st w] run
  have "\<forall>a \<in> set as'. \<exists>r. a = Ended r" by (simp add: activity_done)
  moreover have "length as' = 2"
    using run_schedule_length [of "api_step E st" "is" "(w, [a, b])"] run by simp
  ultimately obtain r r' where "as' = [Ended r, Ended r']" by (auto simp: length_Suc_conv numeral_2_eq_2)
  with run run_schedule_interleaves [of "api_step E st" "(w, [a, b])" "is"] that show ?thesis by simp
qed

text \<open>A request has ended once it has had its turns, and ends under every schedule that keeps giving it turns.\<close>

lemma ended_by_turns:
  assumes "i < length as" and "activity_left (as ! i) \<le> count_list is i"
  shows "\<exists>r. snd (run_schedule (api_step E st) is (w, as)) ! i = Ended r"
  using activities.turns_finish [OF assms] by (simp add: activity_done)

lemma ended_by_fairness:
  assumes "i < length as" and "infinite {k :: nat. \<sigma> k = i}"
  shows "\<exists>n. \<forall>m \<ge> n. \<exists>r. snd (run_schedule (api_step E st) (map \<sigma> [0..<m]) (w, as)) ! i = Ended r"
  using activities.fair_turns_finish [OF assms] by (simp add: activity_done)

section \<open>Safety of all interleavings\<close>

context db_relation
begin

lemma effect_check_login: "login_respects R \<Longrightarrow> effect (on_db R) (check_login E body)"
  unfolding check_login_def by (intro db_effect_intros effect_login_store)

lemma effect_create_account: "login_respects R \<Longrightarrow> effect (on_db R) (create_account E body)"
  unfolding create_account_def hash_password_def by (intro db_effect_intros effect_login_store)

text \<open>
  A relation holds over a step when the statements that the step may execute respect it; and no step
  turns the clock back.
\<close>

lemma activity_step_effect:
  assumes "login_respects R" and "api_step E st a w = (a', w')"
    and vault: "\<And>e. stmt_effect R (sql_insert_vault_entry e)"
    and upsert: "\<And>t u. a = Running t \<Longrightarrow> u \<in> committing t \<Longrightarrow> stmt_effect R (sql_upsert_note u)"
    and spend: "\<And>tok. a = Running (Spending tok) \<Longrightarrow> stmt_effect R (sql_revoke (\<lambda>r. rt_id r = rt_id tok))"
  shows "on_db R w w'"
proof -
  have upload: "effect (on_db R) (upload_vault_entry E s v)" for s v
    by (intro effect_upload vault)
  have auth: "effect (on_db R) (require_auth E st h (\<lambda>session. ok (f session)))" for h f
    by (intro effect_require_auth effect_ok)
  show ?thesis
  proof (cases a)
    case (Arriving req)
    with assms(2) show ?thesis
      by (auto simp: arrive_def refl split: option.splits prod.splits sum.splits dest!: effectD [OF auth])
  next
    case (Registering body)
    with assms(2) effectD [OF effect_login_store(2) [OF assms(1)]] show ?thesis
      by (auto simp: register_lookup_def split: prod.splits sum.splits option.splits)
  next
    case (Creating body)
    with assms(2) effectD [OF effect_create_account [OF assms(1)]] show ?thesis
      by (auto simp: register_create_def split: prod.splits sum.splits)
  next
    case (LoggingIn body)
    with assms(2) effectD [OF effect_check_login [OF assms(1)]] show ?thesis
      by (auto simp: login_lookup_def split: prod.splits sum.splits)
  next
    case (Pairing code uid)
    with assms(2) effectD [OF effect_token_pair [OF assms(1)]] show ?thesis
      by (auto simp: pair_issue_def split: prod.splits sum.splits)
  next
    case (Uploading session v)
    with assms(2) effectD [OF upload] show ?thesis
      by (auto simp: upload_entry_def split: prod.splits sum.splits)
  next
    case (Running t)
    with assms(2) show ?thesis
      using upsert spend by (auto dest: task_step_effect [OF assms(1)] split: prod.splits)
  next
    case (Ended r)
    with assms(2) show ?thesis by (simp add: refl)
  qed
qed

lemma api_step_effect:
  assumes "api_respects R" and "api_step E st a w = (a', w')"
  shows "R (w_db w) (w_db w')"
proof -
  have "on_db R w w'"
    by (rule activity_step_effect [OF _ assms(2)])
      (auto intro: api_respectsD [OF assms(1)] auth_respectsD [OF api_respectsD(1) [OF assms(1)]])
  then show ?thesis by (simp add: on_db_def)
qed

lemma activities_effect:
  assumes "api_respects R" and "(interleave (api_step E st))\<^sup>*\<^sup>* (w, as) (w', as')"
  shows "R (w_db w) (w_db w')"
  by (rule interleave_effect [OF _ assms(2)]) (rule api_step_effect [OF assms(1)])

end

text \<open>
  C3. Every interleaving is safe in this sense: however the statements of any number of
  concurrent requests of all kinds are ordered, and whatever faults they meet, a well-formed
  database stays well-formed, accounts, notes and attachments stay append-only, and no revoked
  refresh token becomes valid again.
\<close>

theorem api_interleaving_safe:
  assumes "(interleave (api_step E st))\<^sup>*\<^sup>* (w, as) (w', as')"
  shows "(db_inv (w_db w) \<longrightarrow> db_inv (w_db w')) \<and> append_only (w_db w) (w_db w') \<and>
    tokens_grow (w_db w) (w_db w')"
  using inv.activities_effect [OF api_respects_inv assms]
    appending.activities_effect [OF api_respects_append_only assms]
    grow.activities_effect [OF api_respects_grow assms]
  by (simp add: preserves_def)

theorem api_interleaving_safe_witness:
  "db_inv (w_db (fst (run_schedule (api_step demo_env demo_state) [0, 1, 0, 1, 0, 1, 0, 1]
     (demo_world, [Arriving demo_register_request, Running (Syncing ann [demo_note] [])]))))"
proof -
  let ?s = "(demo_world, [Arriving demo_register_request, Running (Syncing ann [demo_note] [])])"
  obtain w' as' where run: "run_schedule (api_step demo_env demo_state) [0, 1, 0, 1, 0, 1, 0, 1] ?s =
      (w', as')" by fastforce
  with run_schedule_interleaves [of "api_step demo_env demo_state" ?s "[0, 1, 0, 1, 0, 1, 0, 1]"]
  have "(interleave (api_step demo_env demo_state))\<^sup>*\<^sup>* ?s (w', as')" by simp
  from api_interleaving_safe [OF this] run show ?thesis by simp
qed

section \<open>Concurrent registrations\<close>

text \<open>A request on its way to register an account whose stored e-mail is \<open>em\<close>.\<close>

definition stored_email :: "string \<Rightarrow> RegisterRequest \<Rightarrow> bool" where
  "stored_email em q \<longleftrightarrow> pg_varchar 255 (rr_email q) = Inr em"

fun registration_for :: "string \<Rightarrow> activity \<Rightarrow> bool" where
  "registration_for em (Arriving req) =
     (req_path req = ''/auth/register'' \<and>
      (case req_body req of RegisterBody q \<Rightarrow> stored_email em q | _ \<Rightarrow> False))"
| "registration_for em (Registering q) = stored_email em q"
| "registration_for em (Creating q) = stored_email em q"
| "registration_for em a = False"

text \<open>An account was created for it; its response is 201 or still to come.\<close>

fun registered :: "activity \<Rightarrow> bool" where
  "registered (Pairing code uid) = (code = CREATED)"
| "registered (Ended (Inr (code, p))) = (code = CREATED)"
| "registered a = False"

definition accounts_with :: "string \<Rightarrow> db \<Rightarrow> nat" where
  "accounts_with em d = length (filter (\<lambda>u. u_email u = em) (db_users d))"

lemma accounts_with_le_1: "db_inv d \<Longrightarrow> accounts_with em d \<le> 1"
proof -
  have "distinct (map u_email us) \<Longrightarrow> length (filter (\<lambda>u. u_email u = em) us) \<le> 1" for us :: "User list"
    by (induction us) (auto simp: filter_empty_conv image_iff)
  then show "db_inv d \<Longrightarrow> ?thesis" by (simp add: accounts_with_def db_inv_def)
qed

lemma accounts_with_mono: "append_only d d' \<Longrightarrow> accounts_with em d \<le> accounts_with em d'"
  by (auto simp: append_only_def accounts_with_def prefix_def)

lemma create_account_cases:
  assumes "create_account E q w = (r, w')"
  shows "case r of
      Inl e \<Rightarrow> fst e = INTERNAL_SERVER_ERROR
    | Inr u \<Rightarrow> stored_email em q \<longrightarrow> accounts_with em (w_db w') = Suc (accounts_with em (w_db w))"
proof (cases r)
  case (Inl e)
  with assms show ?thesis
    by (auto simp: create_account_def hash_password_def and_then_run map_err_run tick_run
        lift_result_run internal_error_def split: prod.splits sum.splits)
next
  case (Inr u)
  with assms have "create_account E q w = (Inr u, w')" by simp
  then obtain ph w0 uid w1 where hash: "hash_password E (rr_password q) w = (Inr ph, w0)"
    and "w_db w1 = w_db w0"
    and create: "create_user E uid (rr_email q) ph (rr_display_name q) w1 = (Inr u, w')"
    unfolding create_account_def by (elim and_then_InrE map_err_InrE) (rule that, auto simp: tick_run)
  moreover from this have "w_db w1 = w_db w"
    by (auto simp: hash_password_def and_then_run tick_run lift_result_run)
  ultimately show ?thesis
    using Inr by (auto elim!: create_user_InrE simp: stored_email_def accounts_with_def)
qed

definition on_way :: "string \<Rightarrow> activity \<Rightarrow> bool" where
  "on_way em a \<longleftrightarrow> registration_for em a \<or> registered a \<or> (\<exists>r. a = Ended r)"

lemma registration_step:
  assumes way: "on_way em a"
    and "api_step E st a w = (a', w')"
  shows "on_way em a' \<and>
    (registered a' \<and> \<not> registered a \<longrightarrow>
      accounts_with em (w_db w') = Suc (accounts_with em (w_db w)))"
proof (cases a)
  case (Arriving req)
  with assms show ?thesis
    by (auto simp: on_way_def arrive_def public_routes_def start_public_def refusal_def split: body.splits if_splits)
next
  case (Registering q)
  with assms show ?thesis
    by (auto simp: on_way_def register_lookup_def answer_def split: prod.splits sum.splits option.splits)
next
  case (Creating q)
  with assms create_account_cases [of E q w _ _ em] show ?thesis
    by (fastforce simp: on_way_def register_create_def answer_def split: prod.splits sum.splits)
next
  case (Pairing code uid)
  with assms show ?thesis by (auto simp: on_way_def pair_issue_def split: prod.splits sum.splits)
qed (use assms in \<open>auto simp: on_way_def\<close>)

text \<open>Each of the accounts that the activities in \<open>S\<close> created is in the table, beside the \<open>n\<close> before.\<close>

definition registrations_counted ::
    "string \<Rightarrow> nat set \<Rightarrow> nat \<Rightarrow> world \<Rightarrow> activity list \<Rightarrow> bool" where
  "registrations_counted em S n w as \<longleftrightarrow>
     S \<subseteq> {..<length as} \<and> (\<forall>i \<in> S. on_way em (as ! i)) \<and>
     card {i \<in> S. registered (as ! i)} + n \<le> accounts_with em (w_db w)"

text \<open>Replacing one process changes the number of registered ones by at most one.\<close>

lemma card_registered_update:
  assumes "finite S" and "i < length as"
  shows "card {j \<in> S. registered (as[i := b] ! j)} \<le> card {j \<in> S. registered (as ! j)} +
    (if registered b \<and> \<not> registered (as ! i) then 1 else 0)"
proof -
  let ?R = "{j \<in> S. registered (as ! j)}" and ?R' = "{j \<in> S. registered (as[i := b] ! j)}"
  have "?R' \<subseteq> (if registered b \<and> \<not> registered (as ! i) then insert i ?R else ?R)"
    using assms(2) by (auto simp: nth_list_update split: if_splits)
  then have "card ?R' \<le> card (if registered b \<and> \<not> registered (as ! i) then insert i ?R else ?R)"
    using assms(1) by (intro card_mono) auto
  also have "\<dots> \<le> card ?R + (if registered b \<and> \<not> registered (as ! i) then 1 else 0)"
    using assms(1) by (simp add: card_insert_if)
  finally show ?thesis .
qed

lemma registrations_counted_step:
  assumes counted: "registrations_counted em S n w as" and i: "i < length as"
    and step: "api_step E st (as ! i) w = (b, w')"
  shows "registrations_counted em S n w' (as[i := b])"
proof -
  have S: "S \<subseteq> {..<length as}" "\<forall>j \<in> S. on_way em (as ! j)"
    "card {j \<in> S. registered (as ! j)} + n \<le> accounts_with em (w_db w)"
    using counted by (simp_all add: registrations_counted_def)
  have mono: "accounts_with em (w_db w) \<le> accounts_with em (w_db w')"
    by (rule accounts_with_mono [OF appending.api_step_effect [OF api_respects_append_only step]])
  show ?thesis
  proof (cases "i \<in> S")
    case False
    then have "j \<in> S \<Longrightarrow> as[i := b] ! j = as ! j" for j by (metis nth_list_update_neq)
    then have "{j \<in> S. registered (as[i := b] ! j)} = {j \<in> S. registered (as ! j)}"
      "\<forall>j \<in> S. on_way em (as[i := b] ! j)" using S(2) by auto
    with S mono show ?thesis by (simp add: registrations_counted_def)
  next
    case True
    with S(2) registration_step [OF _ step] have b: "on_way em b"
      "registered b \<and> \<not> registered (as ! i) \<Longrightarrow>
        accounts_with em (w_db w') = Suc (accounts_with em (w_db w))" by blast+
    have "\<forall>j \<in> S. on_way em (as[i := b] ! j)" using S(2) b(1) i by (auto simp: nth_list_update)
    with S mono b(2) card_registered_update [of S i as b] i finite_subset [OF S(1)]
    show ?thesis by (auto simp: registrations_counted_def split: if_splits)
  qed
qed

text \<open>
  C19. One account for an e-mail, also under concurrency: of any number of concurrent registrations
  whose addresses are stored as the same e-mail, interleaved in any way with each other and with
  any other requests, at most one creates an account (and may be answered 201), and
  none does when an account with that e-mail existed before.
\<close>

theorem concurrent_registration_unique:
  assumes "db_inv (w_db w)" and "S \<subseteq> {..<length as}" and "\<forall>i \<in> S. registration_for em (as ! i)"
    and run: "(interleave (api_step E st))\<^sup>*\<^sup>* (w, as) (w', as')"
  shows "card {i \<in> S. registered (as' ! i)} + accounts_with em (w_db w) \<le> 1"
proof -
  have not_yet: "registration_for em a \<Longrightarrow> \<not> registered a" for a by (cases a) simp_all
  have "registrations_counted em S (accounts_with em (w_db w)) w' as'"
  proof (rule interleave_invariant [OF run])
    have "{i \<in> S. registered (as ! i)} = {}" using assms(3) not_yet by blast
    then have "card {i \<in> S. registered (as ! i)} = 0" by (simp only: card.empty)
    with assms(2,3) show "registrations_counted em S (accounts_with em (w_db w)) w as"
      by (simp add: registrations_counted_def on_way_def)
  qed (rule registrations_counted_step)
  moreover have "accounts_with em (w_db w') \<le> 1"
    using inv.activities_effect [OF api_respects_inv run] assms(1)
    by (intro accounts_with_le_1) (simp add: preserves_def)
  ultimately show ?thesis by (simp add: registrations_counted_def)
qed

theorem concurrent_registration_unique_witness:
  "card {i \<in> {0, 1}. registered (snd (run_schedule (api_step demo_env demo_state) [0, 1, 0, 1, 0, 1]
     (demo_world, [Registering demo_registration, Registering demo_registration])) ! i)} \<le> 1"
proof -
  let ?as = "[Registering demo_registration, Registering demo_registration]"
  obtain w' as' where run: "run_schedule (api_step demo_env demo_state) [0, 1, 0, 1, 0, 1]
      (demo_world, ?as) = (w', as')" by fastforce
  have path: "(interleave (api_step demo_env demo_state))\<^sup>*\<^sup>* (demo_world, ?as) (w', as')"
    using run_schedule_interleaves [of "api_step demo_env demo_state" "(demo_world, ?as)"
        "[0, 1, 0, 1, 0, 1]"] run by simp
  have email: "stored_email (rr_email demo_registration) demo_registration"
    unfolding stored_email_def
    by (rule pg_varchar_fits) (simp_all add: char_count_def)
  have sub: "{0, 1} \<subseteq> {..<length ?as}"
    and regs: "\<forall>i \<in> {0, 1}. registration_for (rr_email demo_registration) (?as ! i)"
    using email by simp_all
  from concurrent_registration_unique [OF demo_inv sub regs path] run show ?thesis by simp
qed

end
