(* ===== verification/Disjoint_Sync.thy ===== *)
theory Disjoint_Sync
  imports Concurrency_Facts Sync_Refinement
begin

text \<open>
  When the optimistic lock does hold under concurrency: a batch whose notes no other request
  writes at the same time is answered, and stored, as if it ran alone, and is not starved. The argument follows the
  statements of the batch: at each of them, what the abstract compare-and-swap store of
  \<open>Sync_Refinement\<close> promises for the rest of the batch stays the same.
\<close>

section \<open>What a request writes\<close>

fun task_writes :: "task \<Rightarrow> uuid set" where
  "task_writes (Syncing s cs rs) = n_id ` set cs"
| "task_writes (Committing s u cs rs) = insert (n_id u) (n_id ` set cs)"
| "task_writes t = {}"

fun body_writes :: "body \<Rightarrow> uuid set" where
  "body_writes (NotesBody ns) = n_id ` set ns"
| "body_writes b = {}"

text \<open>The ids of the notes that a request may still write.\<close>

fun writes :: "activity \<Rightarrow> uuid set" where
  "writes (Arriving req) = body_writes (req_body req)"
| "writes (Running t) = task_writes t"
| "writes a = {}"

lemma writes_settle: "writes (settle t) = task_writes t"
  by (cases t rule: settle.cases) simp_all

lemma task_step_writes: "task_step E st t w = (t', w') \<Longrightarrow> task_writes t' \<subseteq> task_writes t"
proof (cases "(E, st, t, w)" rule: task_step.cases)
  case (2 E' st' s c cs rs v)
  have "n_id u = n_id c" if "reconcile_note checks c srv = Some (Success u)" for checks srv u
    using reconcile_Success_id [OF that] by (metis Note.select_convs(1) Note.surjective Note.update_convs(6))
  then show "task_step E st t w = (t', w') \<Longrightarrow> ?thesis"
    using 2 by (auto simp: sync_fetch_def split: if_splits prod.splits option.splits SyncResult.splits)
qed (auto simp: sync_commit_def refresh_lookup_def refresh_spend_def refresh_issue_def
    split: if_splits prod.splits sum.splits option.splits)

lemma start_writes:
  "writes (start_public r b) \<subseteq> body_writes b"
  "writes (start_guarded E req session) \<subseteq> body_writes (req_body req)"
  by (auto simp: start_public_def start_guarded_def start_protected_def
      split: option.splits route.splits body.splits)

lemma step_writes: "api_step E st a w = (a', w') \<Longrightarrow> writes a' \<subseteq> writes a"
proof (cases a)
  case (Arriving req)
  then show "api_step E st a w = (a', w') \<Longrightarrow> ?thesis"
    by (auto simp: arrive_def split: option.splits if_splits prod.splits sum.splits
        dest!: require_auth_ok dest: start_writes [THEN subsetD])
next
  case (Running t)
  then show "api_step E st a w = (a', w') \<Longrightarrow> ?thesis"
    by (auto simp: writes_settle dest: task_step_writes [THEN subsetD] split: prod.splits)
qed (auto simp: register_lookup_def register_create_def login_lookup_def pair_issue_def
    upload_entry_def split: prod.splits sum.splits option.splits)

section \<open>Other requests do not touch the note\<close>

interpretation note_row: db_relation "frozen (stored_note k)" for k
  by (rule db_relation_frozen)

lemma login_respects_note_row: "login_respects (frozen (stored_note k))"
  unfolding login_respects_def
  by (intro conjI allI; rule stmt_effectI) (auto simp: frozen_def stored_note_def sql_insert_user_def
      sql_insert_token_def Let_def split: sum.splits if_splits)

lemma step_keeps_row:
  assumes "api_step E st a w = (a', w')" and "k \<notin> writes a"
  shows "stored_note k (w_db w') = stored_note k (w_db w)"
proof -
  have "on_db (frozen (stored_note k)) w w'"
  proof (rule note_row.activity_step_effect [OF login_respects_note_row assms(1)])
    show "stmt_effect (frozen (stored_note k)) (sql_insert_vault_entry e)" for e
      by (rule stmt_effectI)
        (auto simp: frozen_def stored_note_def sql_insert_vault_entry_def split: sum.splits if_splits)
    show "stmt_effect (frozen (stored_note k)) (sql_revoke p)" for p
      by (rule stmt_effectI) (auto simp: frozen_def stored_note_def sql_revoke_def)
    show "stmt_effect (frozen (stored_note k)) (sql_upsert_note u)"
      if "a = Running t" "u \<in> committing t" for t u
    proof -
      have "k \<noteq> n_id u" using that assms(2) by (cases t) auto
      then show ?thesis by (intro stmt_effectI) (simp add: frozen_def upsert_InrD(1))
    qed
  qed
  then show ?thesis by (simp add: on_db_def frozen_def)
qed

lemma unnamed_note_kept:
  assumes "\<forall>i < length as. k \<notin> writes (as ! i)" and run: "(interleave (api_step E st))\<^sup>*\<^sup>* (w, as) (w', as')"
  shows "stored_note k (w_db w') = stored_note k (w_db w)"
proof -
  let ?inv = "\<lambda>v bs. stored_note k (w_db v) = stored_note k (w_db w) \<and> (\<forall>i < length bs. k \<notin> writes (bs ! i))"
  have "?inv w' as'"
  proof (rule interleave_invariant [OF run])
    fix v bs j a v'
    assume kept: "?inv v bs" and j: "j < length bs" and step: "api_step E st (bs ! j) v = (a, v')"
    then have other: "k \<notin> writes (bs ! j)" by blast
    have "k \<notin> writes (bs[j := a] ! i)" if "i < length bs" for i
      using that kept other step_writes [OF step] by (cases "i = j") auto
    with kept step_keeps_row [OF step other] show "?inv v' (bs[j := a])" by simp
  qed (use assms(1) in simp)
  then show ?thesis by blast
qed

text \<open>
  C11. Concurrency does not spread: a note (or its absence) that none of the concurrent requests
  names in its batch is the same after every interleaving of their statements, whoever sends them,
  whatever their routes, and whatever faults and panics they meet.
\<close>

theorem unnamed_note_untouched:
  assumes "\<forall>i < length as. k \<notin> writes (as ! i)" and run: "(interleave (api_step E st))\<^sup>*\<^sup>* (w, as) (w', as')"
  shows "stored_note k (w_db w') = stored_note k (w_db w)"
  using assms by (rule unnamed_note_kept)

theorem unnamed_note_untouched_witness:
  "stored_note 7 (w_db (fst (run_schedule (api_step demo_env demo_state) [0, 1, 0, 1, 0, 1, 0, 1]
     (demo_world, [Arriving demo_register_request, Running (Syncing bob [demo_note\<lparr>n_id := 8\<rparr>] [])])))) =
   Some demo_note"
proof -
  let ?as = "[Arriving demo_register_request, Running (Syncing bob [demo_note\<lparr>n_id := 8\<rparr>] [])]"
  obtain w' as' where run: "run_schedule (api_step demo_env demo_state) [0, 1, 0, 1, 0, 1, 0, 1]
      (demo_world, ?as) = (w', as')" by fastforce
  with run_schedule_interleaves [of "api_step demo_env demo_state" "(demo_world, ?as)" "[0, 1, 0, 1, 0, 1, 0, 1]"]
  have path: "(interleave (api_step demo_env demo_state))\<^sup>*\<^sup>* (demo_world, ?as) (w', as')" by simp
  have "\<forall>i < length ?as. 7 \<notin> writes (?as ! i)"
    by (simp add: less_Suc_eq demo_register_request_def)
  from unnamed_note_untouched [OF this path] run show ?thesis
    by (simp add: stored_note_def tbl_find_def demo_world_def demo_db_def demo_note_def)
qed

lemma step_wf: "api_step E st a w = (a', w') \<Longrightarrow> db_inv (w_db w) \<Longrightarrow> db_inv (w_db w')"
  using inv.api_step_effect [OF api_respects_inv] by (auto simp: preserves_def)

lemma step_users: "api_step E st a w = (a', w') \<Longrightarrow> user_ids (w_db w) \<subseteq> user_ids (w_db w')"
  using appending.api_step_effect [OF api_respects_append_only]
  by (fastforce simp: append_only_def user_ids_def prefix_def)

lemma others_stay_away:
  assumes "\<forall>j < length as. j \<notin> I \<longrightarrow> writes (as ! j) \<inter> S = {}" and "api_step E st (as ! i) w = (a, w')"
  shows "\<forall>j < length (as[i := a]). j \<notin> I \<longrightarrow> writes (as[i := a] ! j) \<inter> S = {}"
proof (intro allI impI)
  fix j assume "j < length (as[i := a])" "j \<notin> I"
  with assms(1) step_writes [OF assms(2)] show "writes (as[i := a] ! j) \<inter> S = {}"
    by (cases "i = j") auto
qed

section \<open>What the rest of a batch promises\<close>

text \<open>
  The verdicts of the whole batch, and the store it leaves, if the rest runs from \<open>m\<close>; no verdicts
  when it ends in a panic.
\<close>

fun promised :: "bool \<Rightarrow> uuid \<Rightarrow> task \<Rightarrow> cas_store \<Rightarrow> verdict list option \<times> cas_store" where
  "promised checks uid (Syncing s cs rs) m =
     (case cas_batch checks uid cs m of (vs, m') \<Rightarrow> (map_option ((@) (map abs_result rs)) vs, m'))"
| "promised checks uid (Committing s u cs rs) m =
     (case cas_batch checks uid cs (m(n_id u \<mapsto> (n_version u, blob_of u))) of
        (vs, m') \<Rightarrow> (map_option (\<lambda>vs. map abs_result rs @ Accepted (n_version u) # vs) vs, m'))"
| "promised checks uid (Synced rs) m = (Some (map abs_result rs), m)"
| "promised checks uid t m = (None, m)"

fun task_ready :: "uuid \<Rightarrow> task \<Rightarrow> db \<Rightarrow> bool" where
  "task_ready uid (Syncing s cs rs) d \<longleftrightarrow> au_user_id s = uid \<and> sync_ready uid cs d"
| "task_ready uid (Committing s u cs rs) d \<longleftrightarrow> au_user_id s = uid \<and> n_user_id u = uid \<and>
     no_foreign_id uid u d \<and> sync_ready uid cs d"
| "task_ready uid (Synced rs) d \<longleftrightarrow> True"
| "task_ready uid Panicked d \<longleftrightarrow> True"
| "task_ready uid t d \<longleftrightarrow> False"

text \<open>The batch's own statements keep the promise.\<close>

lemma fetch_outcome:
  assumes "healthy E" and "task_ready uid (Syncing s (c # cs) rs) (w_db w)"
    and "sync_fetch E s c cs rs w = (t', w')"
  shows "w_db w' = w_db w \<and> task_ready uid t' (w_db w) \<and>
    ((\<exists>r. t' = Syncing s cs (rs @ [r]) \<and>
        cas_step (overflow_checks E) uid c (abs_store uid (w_db w)) =
          Some (abs_result r, abs_store uid (w_db w))) \<or>
     (\<exists>u. t' = Committing s u cs rs \<and> n_id u = n_id c \<and>
        cas_step (overflow_checks E) uid c (abs_store uid (w_db w)) =
          Some (Accepted (n_version u), (abs_store uid (w_db w))(n_id u \<mapsto> (n_version u, blob_of u)))) \<or>
     (t' = Panicked \<and> cas_step (overflow_checks E) uid c (abs_store uid (w_db w)) = None))"
proof (cases "n_user_id c = uid")
  case False
  with assms show ?thesis
    by (auto simp: sync_fetch_def cas_step_def sync_ready_def split: prod.splits)
next
  case owner: True
  let ?d = "w_db w"
  have s: "au_user_id s = uid" and ready: "db_inv ?d" "no_foreign_id uid c ?d" "sync_ready uid cs ?d"
    using assms(2) by (simp_all add: sync_ready_def)
  have fetched: "find (own_row uid (n_id c)) (db_notes ?d) = stored_note (n_id c) ?d"
    using ready by (auto simp: stored_own_row no_foreign_id_def split: option.split)
  have run: "sync_fetch E s c cs rs w =
      (case reconcile_note (overflow_checks E) c (stored_note (n_id c) ?d) of
         None \<Rightarrow> (Panicked, w\<lparr>w_tick := Suc (w_tick w)\<rparr>)
       | Some (Success u) \<Rightarrow> (Committing s u cs rs, w\<lparr>w_tick := Suc (w_tick w)\<rparr>)
       | Some (SyncConflict v) \<Rightarrow> (Syncing s cs (rs @ [SyncConflict v]), w\<lparr>w_tick := Suc (w_tick w)\<rparr>)
       | Some (SyncError e) \<Rightarrow> (Syncing s cs (rs @ [SyncError e]), w\<lparr>w_tick := Suc (w_tick w)\<rparr>))"
    using assms(1) owner s
    by (simp add: sync_fetch_def run_query_healthy healthy_def sql_select_note_def fetched)
  show ?thesis
  proof (cases "stored_note (n_id c) ?d")
    case None
    with assms(3) run owner s ready show ?thesis
      by (auto simp: cas_step_def abs_store_def)
  next
    case (Some r)
    then have abs: "abs_store uid ?d (n_id c) = Some (n_version r, blob_of r)"
      using ready(2) by (simp add: abs_store_def no_foreign_id_def)
    have same_id: "no_foreign_id uid (c\<lparr>n_version := v\<rparr>) ?d" "blob_of (c\<lparr>n_version := v\<rparr>) = blob_of c" for v
      using ready(2) by (simp_all add: no_foreign_id_def blob_of_def)
    from assms(3) run owner s ready Some abs same_id show ?thesis
      by (cases "n_version c = n_version r") (auto simp: cas_step_def add_i32_one split: if_splits)
  qed
qed

lemma commit_outcome:
  assumes "healthy E" and "task_ready uid (Committing s u cs rs) (w_db w)"
    and "sync_commit E s u cs rs w = (t', w')"
  shows "t' = Syncing s cs (rs @ [Success u]) \<and> task_ready uid t' (w_db w') \<and>
    abs_store uid (w_db w') = (abs_store uid (w_db w))(n_id u \<mapsto> (n_version u, blob_of u))"
proof -
  from assms(2) have ready: "au_user_id s = uid" "n_user_id u = uid" "no_foreign_id uid u (w_db w)"
    "sync_ready uid cs (w_db w)" by simp_all
  obtain v' where "run_stmt E (sql_upsert_note u) w = (Inr (), v')" "sync_ready uid cs (w_db v')"
    "abs_store uid (w_db v') = (abs_store uid (w_db w))(n_id u \<mapsto> (n_version u, blob_of u))"
    using commit_simulates [OF assms(1) ready(2-4)] by blast
  with assms(3) ready(1) show ?thesis by (auto simp: sync_commit_def)
qed

lemma own_step_keeps_promise:
  assumes "healthy E" and "task_ready uid t (w_db w)" and "task_step E st t w = (t', w')"
  shows "task_ready uid t' (w_db w') \<and>
    promised (overflow_checks E) uid t' (abs_store uid (w_db w')) =
      promised (overflow_checks E) uid t (abs_store uid (w_db w))"
proof (cases t)
  case (Syncing s cs rs)
  show ?thesis
  proof (cases cs)
    case Nil
    with assms Syncing show ?thesis by (auto simp: sync_ready_def)
  next
    case (Cons c cs')
    with assms Syncing fetch_outcome [OF assms(1), of uid s c cs' rs w t' w'] show ?thesis
      by (auto simp: option.map_comp comp_def append_fun split: prod.splits)
  qed
next
  case (Committing s u cs rs)
  with assms commit_outcome [OF assms(1), of uid s u cs rs w t' w'] show ?thesis
    by (auto simp: append_fun split: prod.splits)
qed (use assms in auto)

section \<open>Requests on other notes\<close>

definition agree :: "uuid set \<Rightarrow> cas_store \<Rightarrow> cas_store \<Rightarrow> bool" where
  "agree S m m' \<longleftrightarrow> (\<forall>k \<in> S. m k = m' k)"

lemma agree_update: "agree S m m' \<Longrightarrow> agree S (m(k \<mapsto> v)) (m'(k \<mapsto> v))"
  by (simp add: agree_def)

lemma cas_step_agree:
  assumes "agree S m m'" and "n_id c \<in> S"
  shows "rel_option (rel_prod (=) (agree S)) (cas_step checks uid c m) (cas_step checks uid c m')"
proof -
  have "m (n_id c) = m' (n_id c)" using assms by (simp add: agree_def)
  then show ?thesis using assms(1) agree_update by (simp add: cas_step_def split: option.split)
qed

lemma cas_batch_agree:
  assumes "agree S m m'" and "n_id ` set cs \<subseteq> S"
  shows "rel_prod (=) (agree S) (cas_batch checks uid cs m) (cas_batch checks uid cs m')"
  using assms
proof (induction cs arbitrary: m m')
  case Nil
  then show ?case by simp
next
  case (Cons c cs)
  have "rel_option (rel_prod (=) (agree S)) (cas_step checks uid c m) (cas_step checks uid c m')"
    using cas_step_agree [OF Cons.prems(1)] Cons.prems(2) by simp
  then show ?case
  proof cases
    case None
    with Cons.prems(1) show ?thesis by simp
  next
    case (Some x y)
    with Cons.IH [of "snd x" "snd y"] Cons.prems(2) show ?thesis
      by (auto simp: rel_prod_sel split: prod.splits)
  qed
qed

lemma promised_agree:
  assumes "agree S m m'" and "task_writes t \<subseteq> S"
  shows "rel_prod (=) (agree S) (promised checks uid t m) (promised checks uid t m')"
proof (cases t)
  case (Syncing s cs rs)
  with assms cas_batch_agree [OF assms(1), of cs checks uid] show ?thesis
    by (auto simp: rel_prod_sel split: prod.splits)
next
  case (Committing s u cs rs)
  with assms cas_batch_agree [OF agree_update [OF assms(1)], of cs checks uid "n_id u" "(n_version u, blob_of u)"]
  show ?thesis by (auto simp: rel_prod_sel split: prod.splits)
qed (use assms in simp_all)

lemma agree_rows:
  assumes "\<And>k. k \<in> S \<Longrightarrow> stored_note k d' = stored_note k d"
  shows "agree S (abs_store uid d') (abs_store uid d)"
  using assms by (simp add: agree_def abs_store_def)

lemma no_foreign_id_rows:
  "stored_note (n_id c) d' = stored_note (n_id c) d \<Longrightarrow> no_foreign_id uid c d \<Longrightarrow> no_foreign_id uid c d'"
  by (simp add: no_foreign_id_def)

lemma task_ready_mono:
  assumes "task_ready uid t d" and "task_writes t \<subseteq> S"
    and "\<And>c. n_id c \<in> S \<Longrightarrow> no_foreign_id uid c d \<Longrightarrow> no_foreign_id uid c d'"
    and "db_inv d'" and "user_ids d \<subseteq> user_ids d'"
  shows "task_ready uid t d'"
  using assms by (cases t) (auto simp: sync_ready_def)

text \<open>
  The invariant: the others stay away from the notes \<open>S\<close>, and the batch still promises the
  verdicts \<open>V\<close> and, on \<open>S\<close>, the store \<open>F\<close>.
\<close>

definition on_course ::
    "bool \<Rightarrow> uuid \<Rightarrow> nat \<Rightarrow> uuid set \<Rightarrow> verdict list option \<times> cas_store \<Rightarrow> world \<Rightarrow> activity list \<Rightarrow> bool" where
  "on_course checks uid i S V w as \<longleftrightarrow>
     db_inv (w_db w) \<and> i < length as \<and> (\<forall>j < length as. j \<noteq> i \<longrightarrow> writes (as ! j) \<inter> S = {}) \<and>
     (\<exists>t. as ! i = settle t \<and> task_ready uid t (w_db w) \<and> task_writes t \<subseteq> S \<and>
       rel_prod (=) (agree S) (promised checks uid t (abs_store uid (w_db w))) V)"

lemma api_step_settle:
  "api_step E st (settle t) w = (case task_step E st t w of (t', w') \<Rightarrow> (settle t', w'))"
  by (cases t rule: settle.cases) simp_all

lemma on_course_step:
  assumes env: "healthy E" and course: "on_course (overflow_checks E) uid i S V w as"
    and j: "j < length as" and step: "api_step E st (as ! j) w = (a, w')"
  shows "on_course (overflow_checks E) uid i S V w' (as[j := a])"
proof -
  let ?promise = "promised (overflow_checks E) uid"
  from course obtain t where t: "as ! i = settle t" "task_ready uid t (w_db w)" "task_writes t \<subseteq> S"
    "rel_prod (=) (agree S) (?promise t (abs_store uid (w_db w))) V"
    and others: "\<forall>j < length as. j \<noteq> i \<longrightarrow> writes (as ! j) \<inter> S = {}" and i: "i < length as"
    and wf: "db_inv (w_db w)" by (auto simp: on_course_def)
  note wf' = step_wf [OF step wf]
  have others': "\<forall>k < length (as[j := a]). k \<noteq> i \<longrightarrow> writes (as[j := a] ! k) \<inter> S = {}"
    using others_stay_away [of as "{i}" S, OF _ step] others by simp
  have "\<exists>t'. as[j := a] ! i = settle t' \<and> task_ready uid t' (w_db w') \<and> task_writes t' \<subseteq> S \<and>
      rel_prod (=) (agree S) (?promise t' (abs_store uid (w_db w'))) V"
  proof (cases "j = i")
    case True
    obtain t' where t': "task_step E st t w = (t', w')" "a = settle t'"
      using step t(1) by (auto simp: True api_step_settle split: prod.splits)
    from own_step_keeps_promise [OF env t(2) t'(1)] task_step_writes [OF t'(1)] t(3,4) i
    show ?thesis by (intro exI [of _ t']) (auto simp: True t'(2))
  next
    case False
    have rows: "\<And>k. k \<in> S \<Longrightarrow> stored_note k (w_db w') = stored_note k (w_db w)"
      using step_keeps_row [OF step] others j False by blast
    from promised_agree [OF agree_rows [OF rows, where uid = uid] t(3), of "overflow_checks E" uid]
    have "rel_prod (=) (agree S) (?promise t (abs_store uid (w_db w'))) V"
      using t(4) by (auto simp: rel_prod_sel agree_def)
    with task_ready_mono [OF t(2,3) no_foreign_id_rows [OF rows] wf' step_users [OF step]] t(1,3) False show ?thesis by auto
  qed
  with wf' others' i show ?thesis by (simp add: on_course_def)
qed

lemma disjoint_batch_outcome:
  assumes env: "healthy E"
    and batch: "i < length as" "as ! i = Running (Syncing s cs [])" "sync_ready (au_user_id s) cs (w_db w)"
    and others: "\<forall>j < length as. j \<noteq> i \<longrightarrow> writes (as ! j) \<inter> n_id ` set cs = {}"
    and run: "(interleave (api_step E st))\<^sup>*\<^sup>* (w, as) (w', as')" and answer: "as' ! i = Ended r"
    and cas: "cas_batch (overflow_checks E) (au_user_id s) cs (abs_store (au_user_id s) (w_db w)) = (vs, m)"
  shows "r = Inl ArithmeticOverflow \<and> vs = None \<or>
      (\<exists>rs. r = Inr (OK, NoteResults rs) \<and> vs = Some (map abs_result rs))"
    and "\<forall>k \<in> n_id ` set cs. abs_store (au_user_id s) (w_db w') k = m k"
proof -
  let ?uid = "au_user_id s" and ?S = "n_id ` set cs"
  let ?course = "on_course (overflow_checks E) ?uid i ?S (vs, m)"
  have "?course w' as'"
  proof (rule interleave_invariant [OF run])
    have "as ! i = settle (Syncing s cs [])" using batch(2) by simp
    moreover have "rel_prod (=) (agree ?S)
        (promised (overflow_checks E) ?uid (Syncing s cs []) (abs_store ?uid (w_db w))) (vs, m)"
      using cas by (simp add: append_fun option.map_ident agree_def)
    ultimately show "?course w as"
      using batch others unfolding on_course_def
      by (intro conjI exI [of _ "Syncing s cs []"]) (auto simp: sync_ready_def)
  qed (rule on_course_step [OF env])
  then obtain t where t: "Ended r = settle t" "task_ready ?uid t (w_db w')"
    "fst (promised (overflow_checks E) ?uid t (abs_store ?uid (w_db w'))) = vs"
    "agree ?S (snd (promised (overflow_checks E) ?uid t (abs_store ?uid (w_db w')))) m"
    by (auto simp: on_course_def answer rel_prod_sel)
  then have ended: "t = Panicked \<or> (\<exists>rs. t = Synced rs)" by (cases t rule: settle.cases) auto
  with t show "r = Inl ArithmeticOverflow \<and> vs = None \<or>
      (\<exists>rs. r = Inr (OK, NoteResults rs) \<and> vs = Some (map abs_result rs))" by auto
  from ended t show "\<forall>k \<in> ?S. abs_store ?uid (w_db w') k = m k" by (auto simp: agree_def)
qed

text \<open>
  C6. Batches on different notes do not disturb each other: on a healthy database, take a batch of
  an existing user that names no id of another user's note, among any concurrent requests of
  which none writes a note of the batch. However their statements are interleaved, once the batch
  has ended, its verdicts are those it gets when it runs alone on the initial database (or it
  ends in the same panic), and the user's notes with its ids are stored as that run leaves them.
\<close>

theorem disjoint_batch_undisturbed:
  assumes env: "healthy E"
    and batch: "i < length as" "as ! i = Running (Syncing s cs [])" "sync_ready (au_user_id s) cs (w_db w)"
    and others: "\<forall>j < length as. j \<noteq> i \<longrightarrow> writes (as ! j) \<inter> n_id ` set cs = {}"
    and run: "(interleave (api_step E st))\<^sup>*\<^sup>* (w, as) (w', as')" and answer: "as' ! i = Ended r"
  shows "\<exists>alone v. sync_notes E s cs w = (alone, v) \<and>
    (case alone of
       Inl p \<Rightarrow> r = Inl p
     | Inr results \<Rightarrow> \<exists>rs. r = Inr (OK, NoteResults rs) \<and> map abs_result rs = map abs_result results) \<and>
    (\<forall>k \<in> n_id ` set cs. abs_store (au_user_id s) (w_db w') k = abs_store (au_user_id s) (w_db v) k)"
proof -
  obtain alone v where seq: "sync_notes E s cs w = (alone, v)" by fastforce
  note outcome = disjoint_batch_outcome [OF assms sync_notes_simulates [OF env batch(3) seq]]
  with seq show ?thesis by (cases alone) (auto intro: the_panic [symmetric])
qed

theorem disjoint_batch_undisturbed_witness:
  "\<exists>w' a rs alone v. run_schedule (api_step release_env demo_state) [0, 1, 0, 1, 0, 1]
      (demo_world, [Running (Syncing ann [demo_note] []),
        Running (Syncing bob [demo_note\<lparr>n_id := 8, n_user_id := 2\<rparr>] [])]) =
      (w', [Ended (Inr (OK, NoteResults rs)), a]) \<and>
    sync_notes release_env ann [demo_note] demo_world = (Inr alone, v) \<and>
    map abs_result rs = map abs_result alone"
proof -
  let ?E = "release_env" and ?is = "[0, 1, 0, 1, 0, 1] :: nat list"
  let ?as = "[Running (Syncing ann [demo_note] []),
    Running (Syncing bob [demo_note\<lparr>n_id := 8, n_user_id := 2\<rparr>] [])]"
  have ready: "sync_ready (au_user_id ann) [demo_note] (w_db demo_world)"
    by (rule demo_ready) simp
  have others: "\<forall>j < length ?as. j \<noteq> 0 \<longrightarrow> writes (?as ! j) \<inter> n_id ` set [demo_note] = {}"
    by (simp add: less_Suc_eq demo_note_def)
  have "activity_left (?as ! 0) \<le> count_list ?is 0" "activity_left (?as ! 1) \<le> count_list ?is 1" by simp_all
  then obtain w' r r' where run: "run_schedule (api_step ?E demo_state) ?is (demo_world, ?as) =
      (w', [Ended r, Ended r'])"
    and path: "(interleave (api_step ?E demo_state))\<^sup>*\<^sup>* (demo_world, ?as) (w', [Ended r, Ended r'])"
    using two_scheduled [of "?as ! 0" ?is "?as ! 1" ?E demo_state demo_world] by auto
  obtain alone v where "sync_notes ?E ann [demo_note] demo_world = (Inr alone, v)"
    using sync_notes_returns [OF release_env_ok ready] by blast
  with disjoint_batch_undisturbed [OF release_env_ok(1) _ _ ready others path, of r] run
  show ?thesis by auto
qed

text \<open>
  C10. Such a batch is not starved: under every schedule that keeps giving it turns, whatever turns the
  others get and however many notes they synchronise, there is a point from which on it has ended
  for good. If the versions allow it, it is answered 200 with exactly the verdicts that the
  compare-and-swap store gives to the batch on the initial database, and its notes are and stay
  stored as that store leaves them; only if an increment overflows where overflows are checked
  has it ended in the panic instead.
\<close>

theorem batch_eventually_answered:
  assumes env: "healthy E"
    and batch: "i < length as" "as ! i = Running (Syncing s cs [])" "sync_ready (au_user_id s) cs (w_db w)"
    and others: "\<forall>j < length as. j \<noteq> i \<longrightarrow> writes (as ! j) \<inter> n_id ` set cs = {}"
    and cas: "cas_batch (overflow_checks E) (au_user_id s) cs (abs_store (au_user_id s) (w_db w)) = (vs, m)"
    and turns: "infinite {k. \<sigma> k = i}"
  shows "\<exists>n. \<forall>k \<ge> n. case run_schedule (api_step E st) (map \<sigma> [0..<k]) (w, as) of (w', as') \<Rightarrow>
    (case vs of
       Some verdicts \<Rightarrow> \<exists>rs. as' ! i = Ended (Inr (OK, NoteResults rs)) \<and> map abs_result rs = verdicts
     | None \<Rightarrow> as' ! i = Ended (Inl ArithmeticOverflow)) \<and>
    (\<forall>j \<in> n_id ` set cs. abs_store (au_user_id s) (w_db w') j = m j)"
proof -
  from ended_by_fairness [OF batch(1) turns, of E st w] obtain n where
    n: "\<And>k. n \<le> k \<Longrightarrow> \<exists>r. snd (run_schedule (api_step E st) (map \<sigma> [0..<k]) (w, as)) ! i = Ended r" by blast
  show ?thesis
  proof (intro exI allI impI)
    fix k assume "n \<le> k"
    obtain w' as' where run: "run_schedule (api_step E st) (map \<sigma> [0..<k]) (w, as) = (w', as')" by fastforce
    with n [OF \<open>n \<le> k\<close>] obtain r where answer: "as' ! i = Ended r" by auto
    have "(interleave (api_step E st))\<^sup>*\<^sup>* (w, as) (w', as')"
      using run_schedule_interleaves [of "api_step E st" "(w, as)" "map \<sigma> [0..<k]"] run by simp
    from disjoint_batch_outcome [OF env batch others this answer cas] run answer
    show "case run_schedule (api_step E st) (map \<sigma> [0..<k]) (w, as) of (w', as') \<Rightarrow>
      (case vs of
         Some verdicts \<Rightarrow> \<exists>rs. as' ! i = Ended (Inr (OK, NoteResults rs)) \<and> map abs_result rs = verdicts
       | None \<Rightarrow> as' ! i = Ended (Inl ArithmeticOverflow)) \<and>
      (\<forall>j \<in> n_id ` set cs. abs_store (au_user_id s) (w_db w') j = m j)" by auto
  qed
qed

theorem batch_eventually_answered_witness:
  "\<exists>k w' as' rs. run_schedule (api_step release_env demo_state) (map (\<lambda>t. t mod 3) [0..<k])
      (demo_world, [Running (Syncing ann [demo_note] []),
        Running (Syncing bob [demo_note\<lparr>n_id := 8, n_user_id := 2\<rparr>] [])]) = (w', as') \<and>
    as' ! 0 = Ended (Inr (OK, NoteResults rs)) \<and> map abs_result rs = [Accepted 2] \<and>
    abs_store 1 (w_db w') 7 = Some (2, blob_of demo_note)"
proof -
  let ?as = "[Running (Syncing ann [demo_note] []),
    Running (Syncing bob [demo_note\<lparr>n_id := 8, n_user_id := 2\<rparr>] [])]" and ?\<sigma> = "\<lambda>t :: nat. t mod 3"
  have ready: "sync_ready (au_user_id ann) [demo_note] (w_db demo_world)"
    by (rule demo_ready) simp
  have others: "\<forall>j < length ?as. j \<noteq> 0 \<longrightarrow> writes (?as ! j) \<inter> n_id ` set [demo_note] = {}"
    by (simp add: less_Suc_eq demo_note_def)
  have "\<exists>k \<ge> m. k \<in> {k. ?\<sigma> k = 0}" for m by (rule exI [of _ "3 * m"]) simp
  then have turns: "infinite {k. ?\<sigma> k = 0}" by (simp add: infinite_nat_iff_unbounded_le)
  have "abs_store 1 (w_db demo_world) 7 = Some (1, blob_of demo_note)"
    by (simp add: abs_store_def stored_note_def tbl_find_def demo_defs)
  then have "cas_batch (overflow_checks release_env) (au_user_id ann) [demo_note] (abs_store (au_user_id ann) (w_db demo_world)) =
      (Some [Accepted 2], (abs_store 1 (w_db demo_world))(7 \<mapsto> (2, blob_of demo_note)))"
    by (simp add: cas_step_def demo_note_def ann_def)
  from batch_eventually_answered [OF release_env_ok(1) _ _ ready others this turns, of demo_state]
  obtain k where "case run_schedule (api_step release_env demo_state) (map ?\<sigma> [0..<k]) (demo_world, ?as) of
      (w', as') \<Rightarrow> (\<exists>rs. as' ! 0 = Ended (Inr (OK, NoteResults rs)) \<and> map abs_result rs = [Accepted 2]) \<and>
        abs_store 1 (w_db w') 7 = Some (2, blob_of demo_note)"
    by (force simp: demo_note_def ann_def)
  then show ?thesis by (cases "run_schedule (api_step release_env demo_state) (map ?\<sigma> [0..<k]) (demo_world, ?as)")
      (intro exI [of _ k], auto)
qed

end
