(* ===== verification/Disjoint_Sessions.thy ===== *)
theory Disjoint_Sessions
  imports Disjoint_Sync
begin

text \<open>
  Sessions under concurrency: a valid refresh token that no other request presents is accepted,
  however the refresh is interleaved with other requests (presented twice, it may give two
  successors: \<open>Races\<close>); and the outcome of a login depends on nothing but the password, and comes after
  three turns. Of both, the answer 500 is traced to a turn of the request itself that went wrong.
\<close>

section \<open>Who may spend a token\<close>

text \<open>A request that presents the hash \<open>h\<close>, or is about to revoke the token with the id \<open>k\<close>.\<close>

fun may_spend :: "env \<Rightarrow> string \<Rightarrow> uuid \<Rightarrow> activity \<Rightarrow> bool" where
  "may_spend E h k (Arriving req) =
     (case req_body req of RefreshBody q \<Rightarrow> hash_token E (rf_refresh_token q) = h | _ \<Rightarrow> False)"
| "may_spend E h k (Running (Presenting q)) = (hash_token E (rf_refresh_token q) = h)"
| "may_spend E h k (Running (Spending tok)) = (rt_id tok = k)"
| "may_spend E h k a = False"

text \<open>A step of another request leaves the token where it is.\<close>

definition keeps_token :: "RefreshToken \<Rightarrow> db \<Rightarrow> db \<Rightarrow> bool" where
  "keeps_token tok d d' \<longleftrightarrow> (tok \<in> set (db_refresh_tokens d) \<longrightarrow> tok \<in> set (db_refresh_tokens d'))"

interpretation token_kept: db_relation "keeps_token tok" for tok
  by unfold_locales (auto simp: keeps_token_def)

lemma login_respects_token: "login_respects (keeps_token tok)"
  unfolding login_respects_def
  by (intro conjI allI; rule stmt_effectI) (auto simp: keeps_token_def sql_insert_user_def
      sql_insert_token_def Let_def split: sum.splits if_splits)

lemma stmts_keep_token:
  "stmt_effect (keeps_token tok) (sql_insert_vault_entry e)"
  "stmt_effect (keeps_token tok) (sql_upsert_note u)"
  "i \<noteq> rt_id tok \<Longrightarrow> stmt_effect (keeps_token tok) (sql_revoke (\<lambda>r. rt_id r = i))"
  by (rule stmt_effectI, auto simp: keeps_token_def sql_insert_vault_entry_def sql_upsert_note_def
      sql_revoke_def set_tbl_update Let_def image_iff split: sum.splits if_splits option.splits)+

lemma step_keeps_token:
  assumes "api_step E st a w = (a', w')" and "\<not> may_spend E h (rt_id tok) a"
  shows "on_db (keeps_token tok) w w'"
  by (rule token_kept.activity_step_effect [OF login_respects_token assms(1) stmts_keep_token])
    (use assms(2) in auto)

text \<open>The clock goes forward, and by one at a look-up.\<close>

lemma step_forward: "api_step E st a w = (a', w') \<Longrightarrow> w_tick w \<le> w_tick w'"
  using inv.activity_step_effect [OF auth_respectsD(1) [OF api_respectsD(1) [OF api_respects_inv]],
      of E st a w a' w']
  by (simp add: on_db_def api_respectsD [OF api_respects_inv]
      auth_respectsD(2) [OF api_respectsD(1) [OF api_respects_inv]])

lemma lookup_ticks: "refresh_lookup E q w = (t, w') \<Longrightarrow> w_tick w' = Suc (w_tick w)"
  by (auto simp: refresh_lookup_def get_valid_refresh_token_def map_err_run run_stmt_def query_def Let_def
      split: prod.splits sum.splits option.splits fault.splits)

text \<open>A request that presents another hash finds another token.\<close>

lemma start_may_spend:
  "may_spend E h k (start_public r b) \<Longrightarrow> \<exists>q. b = RefreshBody q \<and> hash_token E (rf_refresh_token q) = h"
  "\<not> may_spend E h k (start_guarded E req session)"
  by (auto simp: start_public_def start_guarded_def start_protected_def
      split: option.splits route.splits body.splits)

lemma step_may_spend:
  assumes "api_step E st a w = (a', w')" and "\<not> may_spend E (rt_token_hash tok) (rt_id tok) a"
    and wf: "db_inv (w_db w)" and stored: "tok \<in> set (db_refresh_tokens (w_db w))"
  shows "\<not> may_spend E (rt_token_hash tok) (rt_id tok) a'"
proof (cases a)
  case (Arriving req)
  with assms(1,2) show ?thesis
    by (auto simp: arrive_def split: option.splits if_splits prod.splits sum.splits
        dest!: require_auth_ok start_may_spend(1) dest: start_may_spend(2) [THEN notE])
next
  case (Running t)
  show ?thesis
  proof (cases t)
    case (Presenting q)
    have other: "rt_id t' \<noteq> rt_id tok"
      if "get_valid_refresh_token E (hash_token E (rf_refresh_token q)) w = (Inr (Some t'), w1)" for t' w1
    proof
      assume "rt_id t' = rt_id tok"
      moreover from that have "t' \<in> set (db_refresh_tokens (w_db w))"
        "rt_token_hash t' = hash_token E (rf_refresh_token q)"
        by (auto elim!: get_valid_refresh_token_SomeE simp: valid_token_def)
      ultimately show False
        using wf stored assms(2) Running Presenting
        by (auto simp: db_inv_def distinct_map dest: inj_onD)
    qed
    with assms(1) Running Presenting show ?thesis
      by (auto simp: refresh_lookup_def split: prod.splits sum.splits option.splits)
  qed (use assms(1,2) Running in \<open>auto simp: sync_commit_def sync_fetch_def refresh_spend_def
      refresh_issue_def split: if_splits prod.splits sum.splits option.splits SyncResult.splits
      list.splits elim!: task_step.elims\<close>)
qed (use assms(1) in \<open>auto simp: register_lookup_def register_create_def login_lookup_def pair_issue_def
    upload_entry_def split: prod.splits sum.splits option.splits\<close>)

section \<open>What can go wrong\<close>

text \<open>
  Making a token pair in the world \<open>w\<close>: the signature of the access token fails, or the \<open>INSERT\<close> of the
  refresh token does, because of the database, an id that is taken, or a hash that is no text.
\<close>

definition pair_mishap :: "env \<Rightarrow> app_state \<Rightarrow> uuid \<Rightarrow> world \<Rightarrow> bool" where
  "pair_mishap E st uid w \<longleftrightarrow>
     (\<exists>e. encode_token E (access_claims E uid (utc_now E (w_tick w))) (jwt_private_key st) = Inl e) \<or>
     fault_at E (w_tick w + 3) \<noteq> Healthy \<or>
     new_v4 E (Suc (Suc (w_tick w))) \<in> rt_id ` set (db_refresh_tokens (w_db w)) \<or>
     CHR 0x00 \<in> set (hash_token E (uuid_to_string E (new_v4 E (Suc (w_tick w)))))"

text \<open>The next step of a refresh or a login: its statement fails, or its token pair cannot be made.\<close>

fun mishap :: "env \<Rightarrow> app_state \<Rightarrow> activity \<Rightarrow> world \<Rightarrow> bool" where
  "mishap E st (Running (Presenting q)) w = (fault_at E (w_tick w) \<noteq> Healthy)"
| "mishap E st (Running (Spending tok)) w = (fault_at E (w_tick w) \<noteq> Healthy)"
| "mishap E st (Running (Issuing tok)) w = pair_mishap E st (rt_user_id tok) w"
| "mishap E st (LoggingIn q) w = (fault_at E (w_tick w) \<noteq> Healthy)"
| "mishap E st (Pairing code uid) w = pair_mishap E st uid w"
| "mishap E st a w = False"

text \<open>One of the turns that the schedule \<open>is\<close> gives to the request \<open>i\<close> was such a step.\<close>

definition own_mishap :: "env \<Rightarrow> app_state \<Rightarrow> nat list \<Rightarrow> world \<times> activity list \<Rightarrow> nat \<Rightarrow> bool" where
  "own_mishap E st is s i \<longleftrightarrow> (\<exists>k < length is. is ! k = i \<and>
     (case run_schedule (api_step E st) (take k is) s of (v, bs) \<Rightarrow> mishap E st (bs ! i) v))"

lemma own_mishapI:
  "run_schedule (api_step E st) js s = (v, bs) \<Longrightarrow> mishap E st (bs ! i) v \<Longrightarrow> own_mishap E st (js @ [i]) s i"
  by (auto simp: own_mishap_def intro!: exI [of _ "length js"])

lemma own_mishap_snoc: "own_mishap E st js s i \<Longrightarrow> own_mishap E st (js @ [j]) s i"
  unfolding own_mishap_def
proof (elim exE conjE)
  fix k
  assume "k < length js" "js ! k = i"
    "case run_schedule (api_step E st) (take k js) s of (v, bs) \<Rightarrow> mishap E st (bs ! i) v"
  then show "\<exists>k < length (js @ [j]). (js @ [j]) ! k = i \<and>
      (case run_schedule (api_step E st) (take k (js @ [j])) s of (v, bs) \<Rightarrow> mishap E st (bs ! i) v)"
    by (intro exI [of _ k]) (simp add: nth_append)
qed

lemma token_pair_error:
  assumes "generate_token_pair E st uid w = (Inl e, w')" and "uid \<in> user_ids (w_db w)"
  shows "fst e = INTERNAL_SERVER_ERROR" and "pair_mishap E st uid w"
proof -
  show "fst e = INTERNAL_SERVER_ERROR"
    using assms(1) by (auto simp: generate_token_pair_def act_simps internal_error_def split: prod.splits sum.splits)
  show "pair_mishap E st uid w"
  proof (rule ccontr)
    assume ok: "\<not> pair_mishap E st uid w"
    then obtain access where "encode_token E (access_claims E uid (utc_now E (w_tick w))) (jwt_private_key st) = Inr access"
      unfolding pair_mishap_def by (metis sum.exhaust)
    from generate_token_pair_succeeds [OF this] ok assms show False by (auto simp: pair_mishap_def)
  qed
qed

lemma query_fails: "run_stmt E (query q) w = (Inl e, w') \<Longrightarrow>
    fault_at E (w_tick w) \<noteq> Healthy \<or> (\<exists>e. q (pg_now E (w_tick w)) (w_db w) = Inl e)"
  by (auto simp: run_stmt_def query_def Let_def split: fault.splits sum.splits)

lemma lookups_fail:
  "get_valid_refresh_token E h w = (Inl e, w') \<Longrightarrow> CHR 0x00 \<notin> set h \<Longrightarrow> fault_at E (w_tick w) \<noteq> Healthy"
  "get_user_by_email E m w = (Inl e, w') \<Longrightarrow> CHR 0x00 \<notin> set m \<Longrightarrow> fault_at E (w_tick w) \<noteq> Healthy"
  "revoke_refresh_token E i w = (Inl e, w') \<Longrightarrow> fault_at E (w_tick w) \<noteq> Healthy"
  by (auto simp: auth_store_defs map_err_run sql_select_token_def sql_select_user_def pg_text_def
      split: prod.splits sum.splits dest!: query_fails)
    (auto simp: run_stmt_def sql_revoke_def Let_def split: fault.splits)

section \<open>The refresh on its way\<close>

text \<open>
  After the look-up, on the way to an answer with status \<open>good\<close>; or ended with it, or with 500 after
  a mishap \<open>F\<close>. The pair is for an account in the table.
\<close>

fun past_lookup :: "bool \<Rightarrow> db \<Rightarrow> activity \<Rightarrow> bool" where
  "past_lookup F d (Running (Spending tok)) = (rt_user_id tok \<in> user_ids d)"
| "past_lookup F d (Running (Issuing tok)) = (rt_user_id tok \<in> user_ids d)"
| "past_lookup F d (Ended r) = (\<exists>s p. r = Inr (s, p) \<and>
     (s = OK \<and> (\<exists>a. p = AuthPayload a) \<or> s = INTERNAL_SERVER_ERROR \<and> F))"
| "past_lookup F d a = False"

lemma past_lookup_mono:
  "past_lookup F d a \<Longrightarrow> user_ids d \<subseteq> user_ids d' \<Longrightarrow> (F \<Longrightarrow> F') \<Longrightarrow> past_lookup F' d' a"
  by (cases "(F, d, a)" rule: past_lookup.cases) auto

lemma past_lookup_step:
  assumes "past_lookup F (w_db w) a" and "api_step E st a w = (a', w')" and "mishap E st a w \<Longrightarrow> F"
  shows "past_lookup F (w_db w') a'"
proof -
  have users: "user_ids (w_db w) \<subseteq> user_ids (w_db w')" by (rule step_users [OF assms(2)])
  show ?thesis
  proof (cases "(F, w_db w, a)" rule: past_lookup.cases)
    case (1 F' d tok)
    with assms users lookups_fail(3) show ?thesis
      by (fastforce simp: refresh_spend_def answer_def internal_error_def split: prod.splits sum.splits)
  next
    case (2 F' d tok)
    with assms users token_pair_error [of E st "rt_user_id tok" w] show ?thesis
      by (auto simp: refresh_issue_def answer_def split: prod.splits sum.splits)
  qed (use assms in auto)
qed

lemma lookup_finds:
  assumes "db_inv (w_db w)" and "tok \<in> set (db_refresh_tokens (w_db w))" and "\<not> rt_revoked tok"
    and "pg_now E (w_tick w) < rt_expires_at tok" and "CHR 0x00 \<notin> set (rt_token_hash tok)"
    and "hash_token E (rf_refresh_token q) = rt_token_hash tok" and "refresh_lookup E q w = (t, w')"
    and "fault_at E (w_tick w) \<noteq> Healthy \<Longrightarrow> F"
  shows "past_lookup F (w_db w') (settle t)"
proof -
  have "valid_token (rt_token_hash tok) (pg_now E (w_tick w)) tok"
    using assms(3,4) by (simp add: valid_token_def)
  then have some: "get_valid_refresh_token E (rt_token_hash tok) w \<noteq> (Inr None, w1)" for w1
    using assms(2) by (auto simp: get_valid_refresh_token_def query_def sql_select_token_def
        pg_text_def find_None_iff elim!: map_err_InrE run_stmt_InrE split: sum.splits if_splits)
  have user: "rt_user_id x \<in> user_ids (w_db w1)"
    if "get_valid_refresh_token E (rt_token_hash tok) w = (Inr (Some x), w1)" for x w1
  proof -
    from auth_store_runs(2) [OF that] have "x \<in> set (db_refresh_tokens (w_db w))" "w_db w1 = w_db w"
      using find_valid_tokenD by (metis sym)+
    with assms(1) show ?thesis by (auto simp: db_inv_def)
  qed
  show ?thesis
    using assms(5-8) some user lookups_fail(1) [of E "rt_token_hash tok" w]
    by (auto simp: refresh_lookup_def answer_def internal_error_def split: prod.splits sum.splits option.splits)
qed

definition on_track :: "env \<Rightarrow> app_state \<Rightarrow> RefreshToken \<Rightarrow> nat \<Rightarrow> world \<times> activity list \<Rightarrow>
    nat list \<Rightarrow> world \<Rightarrow> activity list \<Rightarrow> bool" where
  "on_track E st tok i s js w as \<longleftrightarrow> db_inv (w_db w) \<and> i < length as \<and>
     (past_lookup (own_mishap E st js s i) (w_db w) (as ! i) \<or> (\<exists>k < w_tick w. rt_expires_at tok \<le> pg_now E k) \<or>
      (tok \<in> set (db_refresh_tokens (w_db w)) \<and>
       (\<exists>q. as ! i = Running (Presenting q) \<and> hash_token E (rf_refresh_token q) = rt_token_hash tok) \<and>
       (\<forall>j < length as. j \<noteq> i \<longrightarrow> \<not> may_spend E (rt_token_hash tok) (rt_id tok) (as ! j))))"

lemma on_track_wait: "on_track E st tok i s js w as \<Longrightarrow> on_track E st tok i s (js @ [j]) w as"
  using past_lookup_mono [OF _ order_refl own_mishap_snoc] unfolding on_track_def by blast

lemma on_track_step:
  assumes track: "on_track E st tok i s js w as" and run: "run_schedule (api_step E st) js s = (w, as)"
    and live: "\<not> rt_revoked tok" "CHR 0x00 \<notin> set (rt_token_hash tok)"
    and j: "j < length as" and step: "api_step E st (as ! j) w = (a, w')"
  shows "on_track E st tok i s (js @ [j]) w' (as[j := a])"
proof -
  have wf: "db_inv (w_db w)" and i: "i < length as"
    using track by (simp_all add: on_track_def)
  note wf' = step_wf [OF step wf]
  have clock: "w_tick w \<le> w_tick w'" by (rule step_forward [OF step])
  let ?F = "own_mishap E st js s i" and ?F' = "own_mishap E st (js @ [j]) s i"
  consider (found) "past_lookup ?F (w_db w) (as ! i)" | (expired) "\<exists>k < w_tick w. rt_expires_at tok \<le> pg_now E k"
    | (waiting) q where "tok \<in> set (db_refresh_tokens (w_db w))" "as ! i = Running (Presenting q)"
      "hash_token E (rf_refresh_token q) = rt_token_hash tok"
      "\<forall>j < length as. j \<noteq> i \<longrightarrow> \<not> may_spend E (rt_token_hash tok) (rt_id tok) (as ! j)"
    using track by (auto simp: on_track_def)
  then show ?thesis
  proof cases
    case found
    have found': "past_lookup ?F' (w_db w) (as ! i)"
      by (rule past_lookup_mono [OF found order_refl own_mishap_snoc])
    have "past_lookup ?F' (w_db w') (as[j := a] ! i)"
    proof (cases "j = i")
      case True
      with past_lookup_step [OF found', of E st a w'] step own_mishapI [OF run] i show ?thesis by simp
    next
      case False
      with past_lookup_mono [OF found' step_users [OF step]] show ?thesis by simp
    qed
    with wf' i show ?thesis by (simp add: on_track_def)
  next
    case expired
    with clock wf' i show ?thesis by (auto simp: on_track_def intro: less_le_trans)
  next
    case waiting
    show ?thesis
    proof (cases "j = i")
      case True
      with step waiting(2) obtain t where t: "refresh_lookup E q w = (t, w')" "a = settle t"
        by (auto split: prod.splits)
      have "fault_at E (w_tick w) \<noteq> Healthy \<Longrightarrow> ?F'"
        using own_mishapI [OF run, of i] waiting(2) True by simp
      with lookup_finds [OF wf waiting(1) live(1) _ live(2) waiting(3) t(1)] lookup_ticks [OF t(1)] t(2) wf' i
        \<open>j = i\<close>
      show ?thesis
        by (cases "pg_now E (w_tick w) < rt_expires_at tok") (auto simp: on_track_def not_less)
    next
      case False
      then have other: "\<not> may_spend E (rt_token_hash tok) (rt_id tok) (as ! j)"
        using waiting(4) j by blast
      from step_keeps_token [OF step other] waiting(1) have "tok \<in> set (db_refresh_tokens (w_db w'))"
        by (simp add: on_db_def keeps_token_def)
      moreover have "\<forall>k < length (as[j := a]). k \<noteq> i \<longrightarrow>
          \<not> may_spend E (rt_token_hash tok) (rt_id tok) (as[j := a] ! k)"
        using step_may_spend [OF step other wf waiting(1)] waiting(4)
        by (metis length_list_update nth_list_update_eq nth_list_update_neq)
      ultimately show ?thesis
        using waiting(2,3) wf' i False by (auto simp: on_track_def)
    qed
  qed
qed

text \<open>
  C7. A refresh whose token nobody else presents is accepted: take a stored, unrevoked token and a
  request that presents it among any concurrent requests of which none presents the same
  hash or is already spending that token. However their statements are scheduled, if the
  token does not expire before the end of the run and the request has ended, it has not
  panicked, and it was answered 200 with a token pair. The one exception is 500, and only when one
  of the turns of this very request has gone wrong: its statement failed, or its new pair
  could not be signed or stored. It is never refused with 401.
\<close>

theorem unshared_refresh_accepted:
  assumes wf: "db_inv (w_db w)" and token: "tok \<in> set (db_refresh_tokens (w_db w))" "\<not> rt_revoked tok"
      "CHR 0x00 \<notin> set (rt_token_hash tok)"
    and request: "i < length as" "as ! i = Running (Presenting q)"
      "hash_token E (rf_refresh_token q) = rt_token_hash tok"
    and others: "\<forall>j < length as. j \<noteq> i \<longrightarrow> \<not> may_spend E (rt_token_hash tok) (rt_id tok) (as ! j)"
    and run: "run_schedule (api_step E st) is (w, as) = (w', as')" and answer: "as' ! i = Ended r"
    and time: "\<forall>k < w_tick w'. pg_now E k < rt_expires_at tok"
  shows "\<exists>s p. r = Inr (s, p) \<and>
    (s = OK \<and> (\<exists>a. p = AuthPayload a) \<or> s = INTERNAL_SERVER_ERROR \<and> own_mishap E st is (w, as) i)"
proof -
  have "on_track E st tok i (w, as) is w' as'"
  proof (rule schedule_invariant [OF run])
    show "on_track E st tok i (w, as) [] w as" using wf token(1) request others by (auto simp: on_track_def)
  qed (rule on_track_step [OF _ _ token(2,3)] on_track_wait, assumption+)+
  with time answer show ?thesis by (force simp: on_track_def not_less [symmetric])
qed

theorem unshared_refresh_accepted_witness:
  "\<exists>w' s p a. run_schedule (api_step (demo_env\<lparr>pg_now := \<lambda>_. 0\<rparr>) demo_state) [1, 0, 1, 0, 1, 0]
      (demo_session, [Running (Presenting \<lparr>rf_refresh_token = ''t0''\<rparr>),
        Running (Presenting \<lparr>rf_refresh_token = ''t1''\<rparr>)]) =
      (w', [Ended (Inr (s, p)), a]) \<and> s \<noteq> UNAUTHORIZED"
proof -
  let ?E = "demo_env\<lparr>pg_now := \<lambda>_. 0\<rparr>" and ?is = "[1, 0, 1, 0, 1, 0] :: nat list"
  let ?as = "[Running (Presenting \<lparr>rf_refresh_token = ''t0''\<rparr>), Running (Presenting \<lparr>rf_refresh_token = ''t1''\<rparr>)]"
  have token: "demo_token \<in> set (db_refresh_tokens (w_db demo_session))" "\<not> rt_revoked demo_token"
    "CHR 0x00 \<notin> set (rt_token_hash demo_token)"
    "hash_token ?E (rf_refresh_token \<lparr>rf_refresh_token = ''t0''\<rparr>) = rt_token_hash demo_token"
    by (simp_all add: demo_session_def demo_token_def hash_token_def)
  have others: "\<forall>j < length ?as. j \<noteq> 0 \<longrightarrow> \<not> may_spend ?E (rt_token_hash demo_token) (rt_id demo_token) (?as ! j)"
    by (simp add: less_Suc_eq hash_token_def demo_token_def)
  have time: "\<forall>k < n. pg_now ?E k < rt_expires_at demo_token" for n
    by (simp add: demo_token_def duration_days_def duration_seconds_def)
  have "activity_left (?as ! 0) \<le> count_list ?is 0" "activity_left (?as ! 1) \<le> count_list ?is 1" by simp_all
  then obtain w' r r' where run: "run_schedule (api_step ?E demo_state) ?is (demo_session, ?as) =
      (w', [Ended r, Ended r'])"
    using two_scheduled [of "?as ! 0" ?is "?as ! 1" ?E demo_state demo_session]
    by (simp del: run_schedule.simps) blast
  from unshared_refresh_accepted [OF demo_session_inv token(1-3) _ _ token(4) others run _ time, of r] run
  show ?thesis by auto
qed

section \<open>Logging in\<close>

definition demo_login_request :: request where
  "demo_login_request = \<lparr>req_method = POST, req_path = ''/auth/login'', req_authorization = None,
     req_body = LoginBody \<lparr>lr_email = ''ann@x'', lr_password = ''pw''\<rparr>\<rparr>"

text \<open>A login after its look-up, when \<open>b\<close> tells whether the password was right.\<close>

fun login_decided :: "bool \<Rightarrow> db \<Rightarrow> bool \<Rightarrow> activity \<Rightarrow> bool" where
  "login_decided F d b (Pairing code uid) = (b \<and> code = OK \<and> uid \<in> user_ids d)"
| "login_decided F d b (Ended r) = (\<exists>s p. r = Inr (s, p) \<and>
     (s = (if b then OK else UNAUTHORIZED) \<or> s = INTERNAL_SERVER_ERROR \<and> F))"
| "login_decided F d b a = False"

lemma login_decided_mono:
  "login_decided F d b a \<Longrightarrow> user_ids d \<subseteq> user_ids d' \<Longrightarrow> (F \<Longrightarrow> F') \<Longrightarrow> login_decided F' d' b a"
  by (cases a) auto

lemma login_decided_step:
  assumes "login_decided F (w_db w) b a" and "api_step E st a w = (a', w')" and "mishap E st a w \<Longrightarrow> F"
  shows "login_decided F (w_db w') b a'"
proof (cases a)
  case (Pairing code uid)
  with assms token_pair_error [of E st uid w] show ?thesis
    by (fastforce simp: pair_issue_def answer_def split: prod.splits sum.splits)
qed (use assms in auto)

lemma login_lookup_decides:
  assumes "db_inv (w_db w)" and "user \<in> set (db_users (w_db w))" and "u_email user = lr_email q"
    and "CHR 0x00 \<notin> set (lr_email q)" and "verify_password E (lr_password q) (u_password_hash user) = Inr b"
    and "login_lookup E q w = (a, w')" and "fault_at E (w_tick w) \<noteq> Healthy \<Longrightarrow> F"
  shows "login_decided F (w_db w') b a"
proof -
  have "user_by_email (lr_email q) (w_db w) = Some user"
    using assms(1-3) tbl_find_Some_iff [of u_email "db_users (w_db w)" "lr_email q" user]
    by (simp add: user_by_email_def tbl_find_def db_inv_def)
  then have found: "x = Some user" "w_db w1 = w_db w"
    if "get_user_by_email E (lr_email q) w = (Inr x, w1)" for x w1
    using auth_store_runs(1) [OF that] by simp_all
  have id: "u_id user \<in> user_ids (w_db w)" using assms(2) by (simp add: user_ids_def)
  show ?thesis
  proof (cases "get_user_by_email E (lr_email q) w")
    case (Pair r w1)
    show ?thesis
    proof (cases r)
      case (Inl e)
      with Pair assms(4,7) lookups_fail(2) have F by blast
      moreover from assms(6) Pair Inl have "a = Ended (answer (Inl (internal_error (core_error_text e))))"
        by (simp add: login_lookup_def check_login_def act_simps)
      ultimately show ?thesis by (simp add: answer_def internal_error_def)
    next
      case (Inr x)
      then have "get_user_by_email E (lr_email q) w = (Inr (Some user), w1)" "w_db w1 = w_db w"
        using Pair found(1) [of x w1] found(2) [of x w1] by simp_all
      with assms(5,6) have "w_db w' = w_db w" "a = (if b then Pairing OK (u_id user) else
          Ended (answer (Inl (UNAUTHORIZED, error_json ''Invalid email or password''))))"
        by (cases b; auto simp: login_lookup_def check_login_def act_simps)+
      with id show ?thesis by (simp add: answer_def)
    qed
  qed
qed

text \<open>A login before its look-up, behind the router or still in front of it.\<close>

fun logging_in :: "LoginRequest \<Rightarrow> activity \<Rightarrow> bool" where
  "logging_in q (LoggingIn q') = (q' = q)"
| "logging_in q (Arriving req) =
     (req_path req = ''/auth/login'' \<and> req_method req = POST \<and> req_body req = LoginBody q)"
| "logging_in q a = False"

lemma login_outcome:
  assumes wf: "db_inv (w_db w)" and user: "user \<in> set (db_users (w_db w))" "u_email user = lr_email q"
    and sent: "CHR 0x00 \<notin> set (lr_email q)"
    and verify: "verify_password E (lr_password q) (u_password_hash user) = Inr b"
    and request: "i < length as" "logging_in q (as ! i)"
    and run: "run_schedule (api_step E st) is (w, as) = (w', as')" and answer: "as' ! i = Ended r"
  shows "\<exists>s p. r = Inr (s, p) \<and> (s = (if b then OK else UNAUTHORIZED) \<or>
    s = INTERNAL_SERVER_ERROR \<and> own_mishap E st is (w, as) i)"
proof -
  let ?F = "\<lambda>js. own_mishap E st js (w, as) i"
  let ?inv = "\<lambda>js v bs. db_inv (w_db v) \<and> user \<in> set (db_users (w_db v)) \<and> i < length bs \<and>
    (logging_in q (bs ! i) \<or> login_decided (?F js) (w_db v) b (bs ! i))"
  have "?inv is w' as'"
  proof (rule schedule_invariant [OF run])
    fix js v bs j a v'
    assume inv: "?inv js v bs" and run: "run_schedule (api_step E st) js (w, as) = (v, bs)"
      and j: "j < length bs" and step: "api_step E st (bs ! j) v = (a, v')"
    then have "db_inv (w_db v')" using step_wf [OF step] by blast
    moreover have "user \<in> set (db_users (w_db v'))"
      using appending.api_step_effect [OF api_respects_append_only step] inv
      by (auto simp: append_only_def prefix_def)
    moreover have "logging_in q (bs[j := a] ! i) \<or> login_decided (?F (js @ [j])) (w_db v') b (bs[j := a] ! i)"
    proof (cases "j = i")
      case False
      with inv login_decided_mono [OF _ step_users [OF step] own_mishap_snoc] show ?thesis by auto
    next
      case True
      have own: "mishap E st (bs ! i) v \<Longrightarrow> ?F (js @ [i])" by (rule own_mishapI [OF run])
      consider (before) "logging_in q (bs ! i)" | (after) "login_decided (?F js) (w_db v) b (bs ! i)"
        using inv by blast
      then have "logging_in q a \<or> login_decided (?F (js @ [i])) (w_db v') b a"
      proof cases
        case before
        with step True inv own login_lookup_decides [OF _ _ user(2) sent verify, of v a v'] show ?thesis
          by (cases "(q, bs ! i)" rule: logging_in.cases)
            (auto simp: arrive_def public_routes_def start_public_def)
      next
        case after
        from login_decided_step [OF login_decided_mono [OF after order_refl own_mishap_snoc] _ own]
          step True show ?thesis by simp
      qed
      with True j show ?thesis by simp
    qed
    ultimately show "?inv (js @ [j]) v' (bs[j := a])" using inv by simp
  next
    show "?inv (js @ [j]) v bs" if "?inv js v bs" for js v bs j
      using that login_decided_mono [OF _ order_refl own_mishap_snoc] by blast
  qed (use assms in simp)
  with answer show ?thesis by auto
qed

text \<open>
  C8. The password decides a login, whatever happens at the same time: for an account that
  exists when the login begins, and whose stored hash can be read, every schedule of the login and
  any other requests under which the login ends, ends it with 200 if the password verifies and
  with 401 if not; 500 is possible only when one of the login's own turns went wrong, because its
  statement failed or its token pair could not be signed or stored.
\<close>

theorem password_decides_login:
  assumes wf: "db_inv (w_db w)" and user: "user \<in> set (db_users (w_db w))" "u_email user = lr_email q"
    and sent: "CHR 0x00 \<notin> set (lr_email q)"
    and verify: "verify_password E (lr_password q) (u_password_hash user) = Inr b"
    and request: "i < length as" "as ! i = LoggingIn q"
    and run: "run_schedule (api_step E st) is (w, as) = (w', as')" and answer: "as' ! i = Ended r"
  shows "\<exists>s p. r = Inr (s, p) \<and> (s = (if b then OK else UNAUTHORIZED) \<or>
    s = INTERNAL_SERVER_ERROR \<and> own_mishap E st is (w, as) i)"
  using login_outcome [OF wf user sent verify request(1) _ run answer] request(2) by simp

theorem password_decides_login_witness:
  "\<exists>w' p a. run_schedule (api_step demo_env demo_state) [0, 1]
      (demo_world, [LoggingIn \<lparr>lr_email = ''ann@x'', lr_password = ''guess''\<rparr>, Arriving demo_register_request]) =
      (w', [Ended (Inr (UNAUTHORIZED, p)), a])"
proof -
  let ?q = "\<lparr>lr_email = ''ann@x'', lr_password = ''guess''\<rparr>"
  let ?as = "[LoggingIn ?q, Arriving demo_register_request]" and ?is = "[0, 1] :: nat list"
  have user: "demo_user \<in> set (db_users (w_db demo_world))" "u_email demo_user = lr_email ?q"
    "CHR 0x00 \<notin> set (lr_email ?q)"
    by (simp_all add: demo_defs)
  have verify: "verify_password demo_env (lr_password ?q) (u_password_hash demo_user) = Inr False"
    by (simp add: verify_password_def demo_user_def)
  have "get_user_by_email demo_env ''ann@x'' demo_world = (Inr (Some demo_user), demo_world\<lparr>w_tick := 1\<rparr>)"
    by (simp add: get_user_by_email_def act_simps run_query_healthy sql_select_user_def pg_text_def
        user_by_email_def tbl_find_def demo_defs)
  with verify obtain r w1 where "login_lookup demo_env ?q demo_world = (Ended r, w1)"
    by (simp add: login_lookup_def check_login_def and_then_run map_err_run ok_or_run lift_result_run err_run ok_run)
  then obtain w' a where run: "run_schedule (api_step demo_env demo_state) ?is (demo_world, ?as) = (w', [Ended r, a])"
    by (cases "arrive demo_env demo_state demo_register_request w1") simp
  have "\<not> own_mishap demo_env demo_state ?is (demo_world, ?as) 0"
    by (auto simp: own_mishap_def nth_Cons' split: if_splits)
  with password_decides_login [OF demo_inv user verify _ _ run, of 0 r] run show ?thesis by fastforce
qed

text \<open>
  C9. A login that gets its turns gets its answer: a POST to \<open>/auth/login\<close> with the e-mail of an
  existing account, scheduled in any way among any other requests, needs three turns of its own, however
  many the others take. After them it has not panicked and has been answered: 200 for the right
  password, 401 for a wrong one, and 500 only when one of its own turns went wrong.
\<close>

theorem login_answered_in_turns:
  assumes wf: "db_inv (w_db w)" and user: "user \<in> set (db_users (w_db w))" "u_email user = lr_email q"
    and sent: "CHR 0x00 \<notin> set (lr_email q)"
    and verify: "verify_password E (lr_password q) (u_password_hash user) = Inr b"
    and request: "i < length as" "as ! i = Arriving req" "req_path req = ''/auth/login''"
      "req_method req = POST" "req_body req = LoginBody q"
    and turns: "3 \<le> count_list is i"
  shows "\<exists>s p. snd (run_schedule (api_step E st) is (w, as)) ! i = Ended (Inr (s, p)) \<and>
    (s = (if b then OK else UNAUTHORIZED) \<or> s = INTERNAL_SERVER_ERROR \<and> own_mishap E st is (w, as) i)"
proof -
  obtain w' as' where run: "run_schedule (api_step E st) is (w, as) = (w', as')" by fastforce
  have "activity_left (as ! i) \<le> count_list is i" using request turns by simp
  from ended_by_turns [OF request(1) this, of E st w] run obtain r where answer: "as' ! i = Ended r" by auto
  have "logging_in q (as ! i)" using request by simp
  from login_outcome [OF wf user sent verify request(1) this run answer] answer run show ?thesis by simp
qed

theorem login_answered_in_turns_witness:
  "\<exists>s p. snd (run_schedule (api_step demo_env demo_state) [1, 0, 1, 0, 1, 0]
      (demo_world, [Arriving demo_login_request, Arriving demo_register_request])) ! 0 = Ended (Inr (s, p)) \<and>
    s \<noteq> UNAUTHORIZED"
proof -
  let ?as = "[Arriving demo_login_request, Arriving demo_register_request]"
  let ?q = "\<lparr>lr_email = ''ann@x'', lr_password = ''pw''\<rparr>"
  have user: "demo_user \<in> set (db_users (w_db demo_world))" "u_email demo_user = lr_email ?q"
    "CHR 0x00 \<notin> set (lr_email ?q)"
    by (simp_all add: demo_defs)
  have verify: "verify_password demo_env (lr_password ?q) (u_password_hash demo_user) = Inr True"
    by (simp add: verify_password_def demo_user_def)
  have "3 \<le> count_list [1, 0, 1, 0, 1, 0 :: nat] 0" by simp
  from login_answered_in_turns [OF demo_inv user verify _ _ _ _ _ this, of ?as demo_login_request demo_state]
  show ?thesis by (auto simp: demo_login_request_def simp del: run_schedule.simps)
qed

end
