(* ===== verification/Linearization.thy ===== *)
theory Linearization
  imports Disjoint_Sync
begin

text \<open>
  What a lock would give: when no two requests are between the version check and the upsert of one
  note at a time, concurrent batches are linearizable. Their notes can be put into one order,
  which keeps the order of each batch, such that every answer and the stored notes are those of
  the compare-and-swap store of \<open>Sync_Refinement\<close>. The race of \<open>Races\<close> violates just this
  condition.
\<close>

section \<open>Locked notes\<close>

text \<open>The note that a request has checked and is about to write.\<close>

fun holds :: "activity \<Rightarrow> uuid set" where
  "holds (Running (Committing s u cs rs)) = {n_id u}"
| "holds a = {}"

definition exclusive :: "activity list \<Rightarrow> bool" where
  "exclusive as \<longleftrightarrow>
     (\<forall>i < length as. \<forall>j < length as. i \<noteq> j \<longrightarrow> holds (as ! i) \<inter> holds (as ! j) = {})"

section \<open>Histories\<close>

text \<open>
  Each entry of a history is a note that took effect, with the index of its batch and its verdict.
\<close>

type_synonym history = "(nat \<times> Note \<times> verdict) list"

definition history_notes :: "history \<Rightarrow> Note list" where
  "history_notes h = map (\<lambda>(i, c, v). c) h"

definition history_verdicts :: "history \<Rightarrow> verdict list" where
  "history_verdicts h = map (\<lambda>(i, c, v). v) h"

definition of_batch :: "nat \<Rightarrow> history \<Rightarrow> (Note \<times> verdict) list" where
  "of_batch i h = map snd (filter (\<lambda>x. fst x = i) h)"

definition cas_history :: "bool \<Rightarrow> uuid \<Rightarrow> cas_store \<Rightarrow> history \<Rightarrow> cas_store \<Rightarrow> bool" where
  "cas_history checks uid m h m' \<longleftrightarrow>
     cas_batch checks uid (history_notes h) m = (Some (history_verdicts h), m')"

lemmas history_defs = history_notes_def history_verdicts_def of_batch_def cas_history_def

lemma cas_batch_append:
  "cas_batch checks uid cs m = (Some vs, m') \<Longrightarrow>
    cas_batch checks uid (cs @ ds) m =
      (case cas_batch checks uid ds m' of (us, m'') \<Rightarrow> (map_option ((@) vs) us, m''))"
  by (induction cs arbitrary: m vs)
    (auto simp: append_fun option.map_ident option.map_comp comp_def split: option.splits prod.splits)

lemma cas_history_Nil: "cas_history checks uid m [] m"
  by (simp add: history_defs)

lemma cas_history_one:
  "cas_step checks uid c m = Some (v, m') \<Longrightarrow> cas_history checks uid m (map (Pair i) [(c, v)]) m'"
  by (simp add: history_defs)

lemma cas_history_append:
  "cas_history checks uid m h m' \<Longrightarrow> cas_history checks uid m' h' m'' \<Longrightarrow> cas_history checks uid m (h @ h') m''"
  by (simp add: history_defs cas_batch_append)

lemma of_batch_Nil [simp]: "of_batch i [] = []"
  by (simp add: of_batch_def)

lemma of_batch_append [simp]:
  "of_batch i (h @ map (Pair j) new) = (if i = j then of_batch i h @ new else of_batch i h)"
  by (simp add: of_batch_def comp_def filter_map)

text \<open>What \<open>cas_step\<close> answers, without the store it leaves.\<close>

definition cas_answer :: "bool \<Rightarrow> uuid \<Rightarrow> Note \<Rightarrow> cas_store \<Rightarrow> verdict option" where
  "cas_answer checks uid c m = map_option fst (cas_step checks uid c m)"

lemma cas_step_accepted:
  "cas_step checks uid c m = Some (Accepted v, m') \<longleftrightarrow>
     cas_answer checks uid c m = Some (Accepted v) \<and> m' = m(n_id c \<mapsto> (v, blob_of c))"
  by (auto simp: cas_answer_def cas_step_def split: option.splits)

lemma cas_answer_local: "m (n_id c) = m' (n_id c) \<Longrightarrow> cas_answer checks uid c m = cas_answer checks uid c m'"
  by (simp add: cas_answer_def cas_step_def split: option.split)

lemma cas_step_idle:
  "cas_step checks uid c a = Some (v, a) \<Longrightarrow> a (n_id c) = m (n_id c) \<Longrightarrow> cas_step checks uid c m = Some (v, m)"
  by (auto simp: cas_step_def fun_upd_idem_iff split: option.splits if_splits) metis+

text \<open>With overflow checks, a version at its maximum never changes again.\<close>

definition exhausted :: "cas_store \<Rightarrow> Note \<Rightarrow> bool" where
  "exhausted m c \<longleftrightarrow> n_version c = i32_max \<and> map_option fst (m (n_id c)) = Some i32_max"

lemma cas_step_exhausts: "cas_step checks uid c m = None \<longleftrightarrow> checks \<and> n_user_id c = uid \<and> exhausted m c"
  by (auto simp: cas_step_def exhausted_def split: option.split)

lemma cas_batch_stuck:
  "cas_batch True uid cs m = (vs, m') \<Longrightarrow> exhausted m c \<Longrightarrow> exhausted m' c"
proof (induction cs arbitrary: m vs)
  case (Cons d cs)
  have "exhausted m1 c" if "cas_step True uid d m = Some (v, m1)" for v m1
    using that Cons.prems(2) by (auto simp: cas_step_def exhausted_def split: if_splits option.splits)
  with Cons show ?case by (auto split: option.splits prod.splits)
qed simp

lemma cas_history_stuck: "cas_history True uid m h m' \<Longrightarrow> exhausted m c \<Longrightarrow> exhausted m' c"
  unfolding cas_history_def by (rule cas_batch_stuck)

section \<open>A batch on its way\<close>

text \<open>
  The entries \<open>ops\<close> of the batch \<open>cs\<close> so far, with the answers given for them; a checked note has its
  verdict already, which stands as long as nobody writes the note. A panic leaves out the rest
  of the batch, from a note whose version is exhausted.
\<close>

fun accounted :: "bool \<Rightarrow> uuid \<Rightarrow> Note list \<Rightarrow> (Note \<times> verdict) list \<Rightarrow> cas_store \<Rightarrow> task \<Rightarrow> bool" where
  "accounted checks uid cs ops m (Syncing s rest rs) \<longleftrightarrow>
     cs = map fst ops @ rest \<and> map abs_result rs = map snd ops"
| "accounted checks uid cs ops m (Committing s u rest rs) \<longleftrightarrow>
     (\<exists>c. cs = map fst ops @ c # rest \<and> n_id c = n_id u \<and> blob_of c = blob_of u \<and>
       cas_answer checks uid c m = Some (Accepted (n_version u))) \<and>
     map abs_result rs = map snd ops"
| "accounted checks uid cs ops m (Synced rs) \<longleftrightarrow> cs = map fst ops \<and> map abs_result rs = map snd ops"
| "accounted checks uid cs ops m Panicked \<longleftrightarrow>
     checks \<and> (\<exists>c rest. cs = map fst ops @ c # rest \<and> exhausted m c)"
| "accounted checks uid cs ops m t \<longleftrightarrow> False"

text \<open>Only what the store says about the checked note matters.\<close>

lemma accounted_local:
  assumes "accounted checks uid cs ops m t" and "cas_history checks uid m h m'"
    and "\<And>k. k \<in> holds (settle t) \<Longrightarrow> m' k = m k"
  shows "accounted checks uid cs ops m' t"
proof (cases t)
  case (Committing s u rest rs)
  with assms(1) obtain c where "cs = map fst ops @ c # rest" "n_id c = n_id u" "blob_of c = blob_of u"
    "cas_answer checks uid c m = Some (Accepted (n_version u))" "map abs_result rs = map snd ops" by auto
  moreover have "m' (n_id c) = m (n_id c)" using assms(3) Committing \<open>n_id c = n_id u\<close> by simp
  ultimately show ?thesis using cas_answer_local [of m' c m checks uid] Committing by auto
next
  case Panicked
  with assms(1,2) cas_history_stuck [of uid m h m'] show ?thesis by auto
qed (use assms in auto)

text \<open>
  A step of the batch: its next entry, or none, extends the history; the history's store stays in
  agreement with the database on the notes \<open>S\<close>.
\<close>

definition continued ::
    "bool \<Rightarrow> uuid \<Rightarrow> uuid set \<Rightarrow> Note list \<Rightarrow> (Note \<times> verdict) list \<Rightarrow> cas_store \<Rightarrow> nat \<Rightarrow> uuid set \<Rightarrow>
      task \<Rightarrow> db \<Rightarrow> bool" where
  "continued checks uid S cs ops m i held t' d' \<longleftrightarrow>
     (\<exists>new m'. cas_history checks uid m (map (Pair i) new) m' \<and> agree S m' (abs_store uid d') \<and>
        accounted checks uid cs (ops @ new) m' t' \<and> task_ready uid t' d' \<and> (\<forall>k. k \<notin> held \<longrightarrow> m' k = m k))"

lemma continuedI:
  assumes "cas_history checks uid m (map (Pair i) new) m'" and "agree S m' (abs_store uid d')"
    and "accounted checks uid cs (ops @ new) m' t'" and "task_ready uid t' d'" and "\<And>k. k \<notin> held \<Longrightarrow> m' k = m k"
  shows "continued checks uid S cs ops m i held t' d'"
  unfolding continued_def using assms by blast

lemma continued_idle:
  "agree S m (abs_store uid d') \<Longrightarrow> accounted checks uid cs ops m t' \<Longrightarrow> task_ready uid t' d' \<Longrightarrow>
    continued checks uid S cs ops m i held t' d'"
  by (rule continuedI [where new = "[]" and m' = m]) (simp_all add: cas_history_Nil)

lemma fetch_accounted:
  assumes env: "healthy E" and checks: "checks = overflow_checks E"
    and ready: "task_ready uid (Syncing s (c # rest) rs) (w_db w)" "n_id c \<in> S"
    and step: "sync_fetch E s c rest rs w = (t', w')"
    and acc: "accounted checks uid cs ops m (Syncing s (c # rest) rs)" and m: "agree S m (abs_store uid (w_db w))"
  shows "continued checks uid S cs ops m i held t' (w_db w')"
proof -
  let ?a = "abs_store uid (w_db w)" and ?step = "cas_step checks uid c"
  have same: "?a (n_id c) = m (n_id c)" using m ready(2) by (simp add: agree_def)
  from fetch_outcome [OF env ready(1) step] have
    db: "w_db w' = w_db w" "task_ready uid t' (w_db w)" and
    cases: "(\<exists>r. t' = Syncing s rest (rs @ [r]) \<and> ?step ?a = Some (abs_result r, ?a)) \<or>
      (\<exists>u. t' = Committing s u rest rs \<and> n_id u = n_id c \<and>
        ?step ?a = Some (Accepted (n_version u), ?a(n_id u \<mapsto> (n_version u, blob_of u)))) \<or>
      (t' = Panicked \<and> ?step ?a = None)" unfolding checks by blast+
  from cases show ?thesis
  proof (elim disjE exE conjE)
    fix r assume t': "t' = Syncing s rest (rs @ [r])" and "?step ?a = Some (abs_result r, ?a)"
    then have "?step m = Some (abs_result r, m)" using cas_step_idle same by blast
    then have "cas_history checks uid m (map (Pair i) [(c, abs_result r)]) m" by (rule cas_history_one)
    then show ?thesis by (rule continuedI) (use t' acc m db in auto)
  next
    fix u assume t': "t' = Committing s u rest rs" "n_id u = n_id c"
      and "?step ?a = Some (Accepted (n_version u), ?a(n_id u \<mapsto> (n_version u, blob_of u)))"
    then have "cas_answer checks uid c m = Some (Accepted (n_version u))" "blob_of c = blob_of u"
      using cas_answer_local [of ?a c m checks uid] same by (auto simp: cas_step_accepted dest: fun_upd_eqD)
    with t' acc m db show ?thesis by (intro continued_idle) auto
  next
    assume t': "t' = Panicked" and "?step ?a = None"
    then have "checks" "exhausted m c" using same by (simp_all add: cas_step_exhausts exhausted_def)
    with t' acc m db show ?thesis by (intro continued_idle) auto
  qed
qed

lemma commit_accounted:
  assumes env: "healthy E" and ready: "task_ready uid (Committing s u rest rs) (w_db w)"
    and step: "sync_commit E s u rest rs w = (t', w')"
    and acc: "accounted checks uid cs ops m (Committing s u rest rs)" and m: "agree S m (abs_store uid (w_db w))"
  shows "continued checks uid S cs ops m i {n_id u} t' (w_db w')"
proof -
  from commit_outcome [OF env ready step] have
    t': "t' = Syncing s rest (rs @ [Success u])" "task_ready uid t' (w_db w')" and
    abs: "abs_store uid (w_db w') = (abs_store uid (w_db w))(n_id u \<mapsto> (n_version u, blob_of u))" by blast+
  obtain c where c: "cs = map fst ops @ c # rest" "n_id c = n_id u" "blob_of c = blob_of u"
    "cas_answer checks uid c m = Some (Accepted (n_version u))" "map abs_result rs = map snd ops"
    using acc by auto
  let ?m = "m(n_id u \<mapsto> (n_version u, blob_of u))"
  have "cas_step checks uid c m = Some (Accepted (n_version u), ?m)" using c by (simp add: cas_step_accepted)
  then have "cas_history checks uid m (map (Pair i) [(c, Accepted (n_version u))]) ?m" by (rule cas_history_one)
  moreover have "agree S ?m (abs_store uid (w_db w'))" unfolding abs by (rule agree_update [OF m])
  ultimately show ?thesis by (rule continuedI) (use t' c in auto)
qed

lemma own_step_accounted:
  assumes env: "healthy E" and ready: "task_ready uid t (w_db w)" "task_writes t \<subseteq> S"
    and step: "task_step E st t w = (t', w')" and acc: "accounted (overflow_checks E) uid cs ops m t"
    and m: "agree S m (abs_store uid (w_db w))"
  shows "continued (overflow_checks E) uid S cs ops m i (holds (settle t)) t' (w_db w')"
proof (cases t)
  case (Syncing s rest rs)
  show ?thesis
  proof (cases rest)
    case Nil
    with Syncing step acc m ready show ?thesis by (intro continued_idle) auto
  next
    case (Cons c rest')
    with Syncing assms show ?thesis
      using fetch_accounted [OF env refl, of uid s c rest' rs w S t' w' cs ops m] by auto
  qed
next
  case (Committing s u rest rs)
  with assms show ?thesis using commit_accounted [OF env, of uid s u rest rs w t' w' _ cs ops m S] by auto
qed (use acc step m ready in \<open>auto intro: continued_idle\<close>)

section \<open>All batches together\<close>

text \<open>One history accounts for all batches; its store agrees with the database.\<close>

definition has_history ::
    "bool \<Rightarrow> uuid \<Rightarrow> nat set \<Rightarrow> (nat \<Rightarrow> Note list) \<Rightarrow> uuid set \<Rightarrow> cas_store \<Rightarrow> db \<Rightarrow> activity list \<Rightarrow> bool" where
  "has_history checks uid I cs S m0 d as \<longleftrightarrow>
     (\<exists>h m. cas_history checks uid m0 h m \<and> agree S m (abs_store uid d) \<and> fst ` set h \<subseteq> I \<and>
        (\<forall>i \<in> I. \<exists>t. as ! i = settle t \<and> task_ready uid t d \<and> task_writes t \<subseteq> S \<and>
           accounted checks uid (cs i) (of_batch i h) m t))"

definition linearized ::
    "bool \<Rightarrow> uuid \<Rightarrow> nat set \<Rightarrow> (nat \<Rightarrow> Note list) \<Rightarrow> uuid set \<Rightarrow> cas_store \<Rightarrow> world \<Rightarrow> activity list \<Rightarrow> bool" where
  "linearized checks uid I cs S m0 w as \<longleftrightarrow>
     db_inv (w_db w) \<and> I \<subseteq> {..<length as} \<and>
     (\<forall>j < length as. j \<notin> I \<longrightarrow> writes (as ! j) \<inter> S = {}) \<and>
     (\<forall>i \<in> I. \<forall>j \<in> I. i \<noteq> j \<longrightarrow> holds (as ! i) \<inter> holds (as ! j) = {}) \<and>
     has_history checks uid I cs S m0 (w_db w) as"

lemma exclusive_batches:
  "exclusive as \<Longrightarrow> I \<subseteq> {..<length as} \<Longrightarrow> \<forall>i \<in> I. \<forall>j \<in> I. i \<noteq> j \<longrightarrow> holds (as ! i) \<inter> holds (as ! j) = {}"
  by (auto simp: exclusive_def)

text \<open>The readiness of a batch survives every step of the others.\<close>

lemma own_step_foreign:
  assumes "healthy E" and "task_ready uid t (w_db w)"
    and "task_step E st t w = (t', w')" and "no_foreign_id uid c (w_db w)"
  shows "no_foreign_id uid c (w_db w')"
proof (cases t)
  case (Syncing s cs rs)
  show ?thesis
  proof (cases cs)
    case Nil
    with assms Syncing show ?thesis by simp
  next
    case (Cons c' cs')
    with assms Syncing fetch_outcome [OF assms(1), of uid s c' cs' rs w t' w'] show ?thesis by simp
  qed
next
  case (Committing s u cs rs)
  with assms(2,3) have u: "n_user_id u = uid" "no_foreign_id uid u (w_db w)" "uid \<in> user_ids (w_db w)"
    and run: "sync_commit E s u cs rs w = (t', w')" by (simp_all add: sync_ready_def)
  obtain d' where ups: "sql_upsert_note u (pg_now E (w_tick w)) (w_db w) = Inr ((), d')"
    using upsert_possible [of u "w_db w"] u by auto
  with run assms(1) have "w_db w' = d'"
    by (auto simp: sync_commit_def run_stmt_healthy healthy_def)
  then show ?thesis using abs_store_upsert(2) [OF ups u(1,2) assms(4)] by simp
qed (use assms in auto)

lemma other_step_history:
  assumes hist: "has_history checks uid I cs S m0 (w_db w) as" and wf: "db_inv (w_db w)"
    and j: "j \<notin> I" "writes (as ! j) \<inter> S = {}" and step: "api_step E st (as ! j) w = (a, w')"
  shows "has_history checks uid I cs S m0 (w_db w') (as[j := a])"
proof -
  obtain h m where h: "cas_history checks uid m0 h m" "agree S m (abs_store uid (w_db w))" "fst ` set h \<subseteq> I"
    and batches: "\<forall>i \<in> I. \<exists>t. as ! i = settle t \<and> task_ready uid t (w_db w) \<and> task_writes t \<subseteq> S \<and>
      accounted checks uid (cs i) (of_batch i h) m t"
    using hist unfolding has_history_def by (elim exE conjE) (rule that)
  have rows: "\<And>k. k \<in> S \<Longrightarrow> stored_note k (w_db w') = stored_note k (w_db w)"
    using step_keeps_row [OF step] j(2) by blast
  have "agree S m (abs_store uid (w_db w'))"
    using h(2) agree_rows [OF rows, where uid = uid] by (simp add: agree_def)
  moreover have "as[j := a] ! i = as ! i" if "i \<in> I" for i
    using that j(1) by (metis nth_list_update_neq)
  ultimately show ?thesis
    unfolding has_history_def using h(1,3) batches
      task_ready_mono [OF _ _ no_foreign_id_rows [OF rows] step_wf [OF step wf] step_users [OF step]]
    by (intro exI [of _ h] exI [of _ m]) fastforce
qed

lemma own_step_history:
  assumes env: "healthy E" and hist: "has_history (overflow_checks E) uid I cs S m0 (w_db w) as"
    and wf: "db_inv (w_db w)" and j: "j \<in> I" "j < length as"
    and locked: "\<forall>i \<in> I. i \<noteq> j \<longrightarrow> holds (as ! i) \<inter> holds (as ! j) = {}"
    and step: "api_step E st (as ! j) w = (a, w')"
  shows "has_history (overflow_checks E) uid I cs S m0 (w_db w') (as[j := a])"
proof -
  obtain h m where h: "cas_history (overflow_checks E) uid m0 h m" "agree S m (abs_store uid (w_db w))" "fst ` set h \<subseteq> I"
    and batches: "\<forall>i \<in> I. \<exists>t. as ! i = settle t \<and> task_ready uid t (w_db w) \<and> task_writes t \<subseteq> S \<and>
      accounted (overflow_checks E) uid (cs i) (of_batch i h) m t"
    using hist unfolding has_history_def by (elim exE conjE) (rule that)
  obtain t where t: "as ! j = settle t" "task_ready uid t (w_db w)" "task_writes t \<subseteq> S"
    "accounted (overflow_checks E) uid (cs j) (of_batch j h) m t" using batches j(1) by blast
  obtain t' where t': "task_step E st t w = (t', w')" "a = settle t'"
    using step t(1) by (auto simp: api_step_settle split: prod.splits)
  obtain new m' where new: "cas_history (overflow_checks E) uid m (map (Pair j) new) m'" "agree S m' (abs_store uid (w_db w'))"
    "accounted (overflow_checks E) uid (cs j) (of_batch j h @ new) m' t'" "task_ready uid t' (w_db w')"
    and frame: "\<And>k. k \<notin> holds (settle t) \<Longrightarrow> m' k = m k"
    using own_step_accounted [OF env t(2,3) t'(1) t(4) h(2), of j] unfolding continued_def by blast
  have "\<exists>t. as[j := a] ! i = settle t \<and> task_ready uid t (w_db w') \<and> task_writes t \<subseteq> S \<and>
      accounted (overflow_checks E) uid (cs i) (of_batch i (h @ map (Pair j) new)) m' t" if i: "i \<in> I" for i
  proof (cases "i = j")
    case True
    with new(3,4) task_step_writes [OF t'(1)] t(3) t'(2) j show ?thesis by auto
  next
    case False
    with batches i obtain t2 where t2: "as ! i = settle t2" "task_ready uid t2 (w_db w)"
      "task_writes t2 \<subseteq> S" "accounted (overflow_checks E) uid (cs i) (of_batch i h) m t2" by blast
    have "k \<notin> holds (settle t)" if "k \<in> holds (settle t2)" for k
      using that locked i False t(1) t2(1) by fastforce
    then have "accounted (overflow_checks E) uid (cs i) (of_batch i h) m' t2" using accounted_local [OF t2(4) new(1)] frame by blast
    moreover have "task_ready uid t2 (w_db w')"
      by (rule task_ready_mono [OF t2(2,3) own_step_foreign [OF env t(2) t'(1)] step_wf [OF step wf]
            step_users [OF step]])
    ultimately show ?thesis using t2 False by auto
  qed
  moreover have "fst ` set (h @ map (Pair j) new) \<subseteq> I" using h(3) j(1) by auto
  ultimately show ?thesis
    unfolding has_history_def using cas_history_append [OF h(1) new(1)] new(2) by blast
qed

lemma linearized_step:
  assumes env: "healthy E" and lin: "linearized (overflow_checks E) uid I cs S m0 w as"
    and j: "j < length as" and step: "api_step E st (as ! j) w = (a, w')"
    and excl: "exclusive (as[j := a])"
  shows "linearized (overflow_checks E) uid I cs S m0 w' (as[j := a])"
proof -
  have wf: "db_inv (w_db w)" and I: "I \<subseteq> {..<length as}"
    and others: "\<forall>j < length as. j \<notin> I \<longrightarrow> writes (as ! j) \<inter> S = {}"
    and locked: "\<forall>i \<in> I. \<forall>j \<in> I. i \<noteq> j \<longrightarrow> holds (as ! i) \<inter> holds (as ! j) = {}"
    and hist: "has_history (overflow_checks E) uid I cs S m0 (w_db w) as"
    using lin by (simp_all add: linearized_def)
  have "has_history (overflow_checks E) uid I cs S m0 (w_db w') (as[j := a])"
  proof (cases "j \<in> I")
    case True
    with locked own_step_history [OF env hist wf True j _ step] show ?thesis by blast
  next
    case False
    with others j other_step_history [OF hist wf False _ step] show ?thesis by blast
  qed
  then show ?thesis
    using step_wf [OF step wf] I others_stay_away [OF others step] exclusive_batches [OF excl]
    by (simp add: linearized_def)
qed

text \<open>
  C4. Under a lock on each note, concurrent batches are linearizable: take any batches of one user
  (indices \<open>I\<close>), among any concurrent requests that write none of their notes, on a healthy
  database, and any interleaving in which no two requests are between the version check and the
  upsert of the same note. Once the batches have ended, there is one order of their notes,
  with each batch's notes in the batch's order, in which the abstract compare-and-swap store gives
  exactly the answers that were given and, for these notes, the contents that are stored. All
  notes of an answered batch are in that order; a batch that ends in a panic, in a build with
  overflow checks, stops at a note whose stored version is \<open>i32::MAX\<close> for good.
\<close>

theorem locked_batches_linearize:
  assumes env: "healthy E" and I: "I \<subseteq> {..<length as}"
    and batches: "\<forall>i \<in> I. as ! i = Running (Syncing (s i) (cs i) []) \<and> au_user_id (s i) = uid \<and>
      sync_ready uid (cs i) (w_db w)"
    and wf: "db_inv (w_db w)"
    and others: "\<forall>j < length as. j \<notin> I \<longrightarrow> writes (as ! j) \<inter> (\<Union>i \<in> I. n_id ` set (cs i)) = {}"
    and run: "(interleave_within exclusive (api_step E st))\<^sup>*\<^sup>* (w, as) (w', as')"
    and answers: "\<forall>i \<in> I. \<exists>r. as' ! i = Ended r"
  shows "\<exists>h m. cas_history (overflow_checks E) uid (abs_store uid (w_db w)) h m \<and> fst ` set h \<subseteq> I \<and>
    (\<forall>i \<in> I.
      ((\<exists>rs. as' ! i = Ended (Inr (OK, NoteResults rs)) \<and>
          map fst (of_batch i h) = cs i \<and> map snd (of_batch i h) = map abs_result rs) \<or>
       (overflow_checks E \<and> as' ! i = Ended (Inl ArithmeticOverflow) \<and>
          (\<exists>c rest. cs i = map fst (of_batch i h) @ c # rest \<and> exhausted m c))) \<and>
      (\<forall>k \<in> n_id ` set (cs i). abs_store uid (w_db w') k = m k))"
proof -
  let ?S = "\<Union>i \<in> I. n_id ` set (cs i)" and ?m = "abs_store uid (w_db w)" and ?checks = "overflow_checks E"
  have "linearized ?checks uid I cs ?S ?m w' as'"
  proof (rule within_invariant [OF run])
    have "\<exists>t. as ! i = settle t \<and> task_ready uid t (w_db w) \<and> task_writes t \<subseteq> ?S \<and>
        accounted ?checks uid (cs i) (of_batch i []) ?m t" if "i \<in> I" for i
      using batches that by (intro exI [of _ "Syncing (s i) (cs i) []"]) auto
    moreover have "holds (as ! i) = {}" if "i \<in> I" for i using batches that by simp
    ultimately show "linearized ?checks uid I cs ?S ?m w as"
      using wf I others unfolding linearized_def has_history_def
      by (intro conjI exI [of _ "[]"] exI [of _ ?m]) (auto simp: cas_history_Nil agree_def)
  qed (rule linearized_step [OF env])
  then obtain h m where "cas_history ?checks uid ?m h m" "agree ?S m (abs_store uid (w_db w'))" "fst ` set h \<subseteq> I"
    and ended: "\<forall>i \<in> I. \<exists>t. as' ! i = settle t \<and> task_ready uid t (w_db w') \<and> task_writes t \<subseteq> ?S \<and>
      accounted ?checks uid (cs i) (of_batch i h) m t"
    unfolding linearized_def has_history_def by (elim conjE exE) (rule that)
  moreover have "(\<exists>rs. as' ! i = Ended (Inr (OK, NoteResults rs)) \<and> map fst (of_batch i h) = cs i \<and>
      map snd (of_batch i h) = map abs_result rs) \<or>
    (?checks \<and> as' ! i = Ended (Inl ArithmeticOverflow) \<and>
      (\<exists>c rest. cs i = map fst (of_batch i h) @ c # rest \<and> exhausted m c))" if i: "i \<in> I" for i
  proof -
    from ended i obtain t where t: "as' ! i = settle t" "accounted ?checks uid (cs i) (of_batch i h) m t" by blast
    from answers i obtain r where "as' ! i = Ended r" by blast
    with t show ?thesis by (cases t rule: settle.cases) auto
  qed
  ultimately show ?thesis by (intro exI [of _ h] exI [of _ m]) (auto simp: agree_def)
qed

lemma exclusive_one: "\<forall>j < length as. j \<noteq> i \<longrightarrow> holds (as ! j) = {} \<Longrightarrow> exclusive (as[i := a])"
  unfolding exclusive_def by (metis inf_bot_left inf_bot_right length_list_update nth_list_update_neq)

text \<open>A request that runs while no other holds a note keeps to the lock.\<close>

lemma alone_within:
  assumes "i < length as" and "\<forall>j < length as. j \<noteq> i \<longrightarrow> holds (as ! j) = {}"
    and "run_api E st n (as ! i) w = (a, w')"
  shows "(interleave_within exclusive (api_step E st))\<^sup>*\<^sup>* (w, as) (w', as[i := a])"
  by (rule within_run_alone [OF assms(1) _ assms(3)]) (rule exclusive_one [OF assms(2)])

theorem locked_batches_linearize_witness:
  "\<exists>w' r1 r2 h m. (interleave_within exclusive (api_step release_env demo_state))\<^sup>*\<^sup>*
      (demo_world, [Running (Syncing ann [demo_note] []), Running (Syncing ann [demo_note] [])])
      (w', [Ended r1, Ended r2]) \<and>
    cas_history False 1 (abs_store 1 demo_db) h m \<and> map fst (of_batch 0 h) = [demo_note] \<and>
    map fst (of_batch 1 h) = [demo_note]"
proof -
  let ?E = release_env and ?b = "Running (Syncing ann [demo_note] [])"
  have alone: "\<exists>r v'. run_api ?E demo_state 3 ?b v = (Ended r, v')" for v
    using handled_syncing [of ?E demo_state "[demo_note]" ann]
    by (simp add: handled_def split: prod.splits)
  obtain r1 w1 where first: "run_api ?E demo_state 3 ?b demo_world = (Ended r1, w1)" using alone by blast
  obtain r2 w2 where second: "run_api ?E demo_state 3 ?b w1 = (Ended r2, w2)" using alone by blast
  have "(interleave_within exclusive (api_step ?E demo_state))\<^sup>*\<^sup>* (demo_world, [?b, ?b])
      (w1, [?b, ?b][0 := Ended r1])"
    by (rule alone_within) (use first in \<open>auto simp: less_Suc_eq\<close>)
  moreover have "(interleave_within exclusive (api_step ?E demo_state))\<^sup>*\<^sup>* (w1, [Ended r1, ?b])
      (w2, [Ended r1, ?b][1 := Ended r2])"
    by (rule alone_within) (use second in \<open>auto simp: less_Suc_eq\<close>)
  ultimately have path: "(interleave_within exclusive (api_step ?E demo_state))\<^sup>*\<^sup>* (demo_world, [?b, ?b])
      (w2, [Ended r1, Ended r2])" by simp
  have "sync_ready 1 [demo_note] (w_db demo_world)"
    using demo_ready [of "[demo_note]"] by (simp add: ann_def)
  then have batches: "\<forall>i \<in> {0, 1}. [?b, ?b] ! i = Running (Syncing ((\<lambda>_. ann) i) ((\<lambda>_. [demo_note]) i) []) \<and>
      au_user_id ((\<lambda>_. ann) i) = 1 \<and> sync_ready 1 ((\<lambda>_. [demo_note]) i) (w_db demo_world)"
    by (simp add: ann_def)
  have sub: "{0, 1} \<subseteq> {..<length [?b, ?b]}" by simp
  have others: "\<forall>j < length [?b, ?b]. j \<notin> {0, 1} \<longrightarrow>
      writes ([?b, ?b] ! j) \<inter> (\<Union>i \<in> {0, 1 :: nat}. n_id ` set ((\<lambda>_. [demo_note]) i)) = {}"
    by (simp add: less_Suc_eq)
  have ended: "\<forall>i \<in> {0, 1}. \<exists>r. [Ended r1, Ended r2] ! i = Ended r" by simp
  from locked_batches_linearize [OF release_env_ok(1) sub batches demo_inv others path ended] path show ?thesis
    by (auto simp: demo_world_def)
qed

end
