(* ===== verification/Version_Bounds.thy ===== *)
theory Version_Bounds
  imports Sync_Refinement
begin

text \<open>
  The version counter over a batch: it counts the accepted updates of a note, at the width of the
  column (\<open>i32\<close>), so it stays in range as long as there is room for the batch.
\<close>

section \<open>Counting accepted updates\<close>

fun accepted :: "verdict \<Rightarrow> bool" where
  "accepted (Accepted v) = True"
| "accepted v = False"

definition accepted_updates :: "uuid \<Rightarrow> Note list \<Rightarrow> verdict list \<Rightarrow> nat" where
  "accepted_updates k cs vs = length (filter (\<lambda>(c, v). n_id c = k \<and> accepted v) (zip cs vs))"

lemma accepted_updates_Nil [simp]: "accepted_updates k [] vs = 0"
  by (simp add: accepted_updates_def)

lemma accepted_updates_Cons [simp]:
  "accepted_updates k (c # cs) (v # vs) =
     (if n_id c = k \<and> accepted v then Suc (accepted_updates k cs vs) else accepted_updates k cs vs)"
  by (simp add: accepted_updates_def)

lemma accepted_updates_le: "accepted_updates k cs vs \<le> count_list (map n_id cs) k"
proof (induction cs arbitrary: vs)
  case Nil
  then show ?case by simp
next
  case (Cons c cs)
  then show ?case by (cases vs) (auto simp: accepted_updates_def intro: le_SucI)
qed

definition version_at :: "cas_store \<Rightarrow> uuid \<Rightarrow> i32 option" where
  "version_at m k = map_option fst (m k)"

lemma cas_step_version:
  "version_at m k = Some v \<Longrightarrow> cas_step checks uid c m = Some (r, m') \<Longrightarrow>
    version_at m' k = Some (if n_id c = k \<and> accepted r then v + 1 else v) \<and>
    (checks \<longrightarrow> n_id c = k \<longrightarrow> accepted r \<longrightarrow> v \<noteq> i32_max)"
  by (auto simp: version_at_def cas_step_def blob_of_def split: if_splits option.splits)

lemma cas_batch_ConsE:
  assumes "cas_batch checks uid (c # cs) m = (Some vs, m')"
  obtains r m1 us where "cas_step checks uid c m = Some (r, m1)" "cas_batch checks uid cs m1 = (Some us, m')"
    "vs = r # us"
  using assms by (auto split: option.splits prod.splits)

lemma cas_batch_version:
  "version_at m k = Some v \<Longrightarrow> cas_batch checks uid cs m = (Some vs, m') \<Longrightarrow>
    version_at m' k = Some (v + of_nat (accepted_updates k cs vs)) \<and>
    (checks \<longrightarrow> sint (v + of_nat (accepted_updates k cs vs)) = sint v + int (accepted_updates k cs vs))"
proof (induction cs arbitrary: m v vs)
  case Nil
  then show ?case by simp
next
  case (Cons c cs)
  obtain r m1 us where step: "cas_step checks uid c m = Some (r, m1)"
    and rest: "cas_batch checks uid cs m1 = (Some us, m')" "vs = r # us"
    using Cons.prems(2) by (rule cas_batch_ConsE)
  from cas_step_version [OF Cons.prems(1) step] Cons.IH [OF _ rest(1)] sint_i32_Suc [of v] show ?case
    by (auto simp: rest(2) algebra_simps split: if_splits)
qed

text \<open>A batch that ends early has met a counter at its maximum.\<close>

lemma cas_batch_exhausted:
  "cas_batch checks uid cs m = (None, m') \<Longrightarrow>
    checks \<and> (\<exists>c \<in> set cs. version_at m' (n_id c) = Some i32_max)"
proof (induction cs arbitrary: m)
  case (Cons c cs)
  show ?case
  proof (cases "cas_step checks uid c m")
    case None
    then have "checks" "version_at m (n_id c) = Some i32_max"
      by (auto simp: cas_step_def version_at_def split: if_splits option.splits)
    with None Cons.prems show ?thesis by simp
  next
    case (Some x)
    with Cons.prems Cons.IH [of "snd x"] show ?thesis by (auto split: prod.splits)
  qed
qed simp

lemma sint_add_of_nat:
  "sint (v :: i32) + int a < 2 ^ 31 \<Longrightarrow> sint (v + of_nat a) = sint v + int a"
proof (induction a)
  case 0
  then show ?case by simp
next
  case (Suc a)
  then have IH: "sint (v + of_nat a) = sint v + int a" by simp
  then have "v + of_nat a \<noteq> i32_max" using Suc.prems sint_i32_eq_max [of "v + of_nat a"] by auto
  from sint_i32_Suc [OF this] IH show ?case by (simp add: algebra_simps)
qed

text \<open>
  C16. The counter of a stored note counts: when a batch on a healthy database is answered, the
  note's version is the old one plus the number of the batch's accepted updates of this note,
  which is at most the number of times the batch names it. In 32 bits that sum wraps around; it is
  exact as the signed value of the column when it is below \<open>2\<close> to the \<open>31\<close>, and always in a build
  with overflow checks, where a batch is not answered only if a note that it names is
  left at \<open>i32::MAX\<close>.
\<close>

theorem versions_count_updates:
  assumes env: "healthy E" and ready: "sync_ready (au_user_id s) cs (w_db w)"
    and stored: "stored_note k (w_db w) = Some n" "n_user_id n = au_user_id s"
  shows "\<exists>r w'. sync_notes E s cs w = (r, w') \<and>
    (case r of
       Inl p \<Rightarrow> overflow_checks E \<and>
         (\<exists>c n'. c \<in> set cs \<and> stored_note (n_id c) (w_db w') = Some n' \<and> n_version n' = i32_max)
     | Inr rs \<Rightarrow> \<exists>a n'. a = accepted_updates k cs (map abs_result rs) \<and> a \<le> count_list (map n_id cs) k \<and>
         stored_note k (w_db w') = Some n' \<and> n_version n' = n_version n + of_nat a \<and>
         (overflow_checks E \<or> sint (n_version n) + int a < 2 ^ 31 \<longrightarrow>
           sint (n_version n') = sint (n_version n) + int a))"
proof -
  let ?uid = "au_user_id s"
  obtain r w' where run: "sync_notes E s cs w = (r, w')" by fastforce
  note cas = sync_notes_simulates [OF env ready run]
  have v: "version_at (abs_store ?uid (w_db w)) k = Some (n_version n)"
    using stored by (simp add: abs_store_def version_at_def)
  have at: "\<exists>n'. stored_note i (w_db w') = Some n' \<and> n_version n' = x"
    if "version_at (abs_store ?uid (w_db w')) i = Some x" for i x
    using that by (auto simp: abs_store_def version_at_def split: option.splits if_splits)
  show ?thesis
  proof (cases r)
    case (Inl p)
    with run cas cas_batch_exhausted [of _ ?uid cs] at show ?thesis by simp blast
  next
    case (Inr rs)
    let ?a = "accepted_updates k cs (map abs_result rs)"
    from cas_batch_version [OF v, of "overflow_checks E" ?uid cs] cas Inr
    have "version_at (abs_store ?uid (w_db w')) k = Some (n_version n + of_nat ?a)"
      and "overflow_checks E \<longrightarrow> sint (n_version n + of_nat ?a) = sint (n_version n) + int ?a" by simp_all
    with at run Inr accepted_updates_le sint_add_of_nat [of "n_version n" ?a] show ?thesis
      by (intro exI [of _ r] exI [of _ w']) fastforce
  qed
qed

theorem versions_count_updates_witness:
  "\<exists>rs w' n'. sync_notes release_env ann [demo_note, demo_note] demo_world = (Inr rs, w') \<and>
     stored_note 7 (w_db w') = Some n' \<and>
     n_version n' = 1 + of_nat (accepted_updates 7 [demo_note, demo_note] (map abs_result rs))"
proof -
  have ready: "sync_ready (au_user_id ann) [demo_note, demo_note] (w_db demo_world)"
    by (rule demo_ready) simp
  have "n_user_id demo_note = au_user_id ann" by (simp add: demo_note_def ann_def)
  note counts = versions_count_updates [OF release_env_ok(1) ready demo_stored this]
  have "n_version demo_note = 1" by (simp add: demo_note_def)
  with counts show ?thesis by (elim exE conjE) (case_tac r; fastforce)
qed

end
