(* ===== verification/Devices.thy ===== *)
theory Devices
  imports Disjoint_Sync Crypto
begin

text \<open>
  The system end to end: two devices of one user, the encryption of \<open>crates/crypto\<close> on the devices,
  the optimistic lock of \<open>crates/sync\<close> and the storage of the service in between, while other
  requests run.
\<close>

section \<open>An accepted note is stored for its owner\<close>

lemma accepted_note_stored:
  assumes "sync_note E session c w = (Inr (Success u), w1)"
    and "no_foreign_id (au_user_id session) c (w_db w)"
  shows "\<exists>r. stored_note (n_id c) (w_db w1) = Some r \<and> n_user_id r = au_user_id session \<and>
    n_content_cipher r = n_content_cipher c \<and> n_nonce r = n_nonce c \<and> n_version r = n_version u"
proof -
  from assms(1) obtain d where owner: "n_user_id c = au_user_id session" and
    rec: "reconcile_note (overflow_checks E) c (fetched_note E session c w) = Some (Success u)"
    and ups: "sql_upsert_note u (pg_now E (Suc (w_tick w))) (w_db w) = Inr ((), d)"
    and w1: "w_db w1 = d"
    by (elim sync_note_SuccessE) simp
  have u: "n_id u = n_id c" "n_content_cipher u = n_content_cipher c" "n_nonce u = n_nonce c"
    "n_user_id u = n_user_id c"
    using reconcile_Success_id [OF rec]
    by (metis Note.select_convs Note.surjective Note.update_convs)+
  show ?thesis
    using upsert_InrD(1) [OF ups, of "n_id c"] assms(2) owner
    by (auto simp: w1 u no_foreign_id_def inserted_row_def upsert_columns_def split: option.splits)
qed

lemma interleaving_wf:
  "(interleave (api_step E st))\<^sup>*\<^sup>* (w, as) (w', as') \<Longrightarrow> db_inv (w_db w) \<Longrightarrow> db_inv (w_db w')"
  using inv.activities_effect [OF api_respects_inv] by (auto simp: preserves_def)

section \<open>From device to device\<close>

text \<open>
  C5. Content travels between devices: one device encrypts a text with \<open>encrypt_entry\<close> and sends it in a
  note, which is accepted. Then any requests run, interleaved in any way, that do not write this
  note. Another device of the user, which has the key and sends an edit of the note from any
  other version than the accepted one, is refused with the server's copy, from which
  \<open>decrypt_entry\<close> gets the text of the first device; its edit changes nothing.
\<close>

theorem devices_exchange_content:
  assumes laws: "aead_laws A" and enc: "encrypt_entry A t plaintext key = Inr (n_content_cipher c, n_nonce c)"
    and wf: "db_inv (w_db w)" and own: "no_foreign_id (au_user_id session) c (w_db w)"
    and accepted: "sync_note E session c w = (Inr (Success u), w1)"
    and meanwhile: "(interleave (api_step E st))\<^sup>*\<^sup>* (w1, as) (w2, as')" "\<forall>i < length as. n_id c \<notin> writes (as ! i)"
    and edit: "n_id c' = n_id c" "n_user_id c' = au_user_id session" "n_version c' \<noteq> n_version u"
    and healthy: "fault_at E (w_tick w2) = Healthy"
  shows "\<exists>s w3. sync_note E session c' w2 = (Inr (SyncConflict s), w3) \<and> w_db w3 = w_db w2 \<and>
    n_version s = n_version u \<and> decrypt_entry A (n_content_cipher s) (n_nonce s) key = Inr plaintext"
proof -
  obtain r where r: "stored_note (n_id c) (w_db w1) = Some r" "n_user_id r = au_user_id session"
    "n_content_cipher r = n_content_cipher c" "n_nonce r = n_nonce c" "n_version r = n_version u"
    using accepted_note_stored [OF accepted own] by blast
  have "db_inv (w_db w1)"
    using effectD [OF inv.effect_sync_note accepted] wf by (auto simp: on_db_def preserves_def)
  then have "db_inv (w_db w2)" by (rule interleaving_wf [OF meanwhile(1)])
  moreover have "stored_note (n_id c') (w_db w2) = Some r"
    using unnamed_note_kept [OF meanwhile(2,1)] r(1) edit(1) by simp
  ultimately have "fetched_note E session c' w2 = Some r"
    using r(2) healthy by (simp add: fetched_note_def stored_own_row)
  moreover have "decrypt_entry A (n_content_cipher r) (n_nonce r) key = Inr plaintext"
    using encrypt_decrypt_roundtrip [OF laws enc] r(3,4) by simp
  ultimately show ?thesis
    using edit(2,3) r(5) by (simp add: sync_note_run Let_def reconcile_mismatch)
qed

theorem devices_exchange_content_witness:
  "\<exists>c u w1 s w3. sync_note demo_env ann c demo_world = (Inr (Success u), w1) \<and>
     sync_note demo_env ann demo_note (fst (run_schedule (api_step demo_env demo_state) [0, 0, 0]
       (w1, [Running (Syncing bob [demo_note\<lparr>n_id := 8\<rparr>] [])]))) = (Inr (SyncConflict s), w3) \<and>
     decrypt_entry demo_aead (n_content_cipher s) (n_nonce s) demo_key = Inr [1, 2, 3]"
proof -
  obtain x n where enc: "encrypt_entry demo_aead 3 [1, 2, 3] demo_key = Inr (x, n)"
    by (simp add: encrypt_entry_def demo_aead_def demo_key_def as_bytes_def)
  let ?c = "demo_note\<lparr>n_content_cipher := x, n_nonce := n\<rparr>"
  let ?as = "[Running (Syncing bob [demo_note\<lparr>n_id := 8\<rparr>] [])]"
  have enc_c: "encrypt_entry demo_aead 3 [1, 2, 3] demo_key = Inr (n_content_cipher ?c, n_nonce ?c)"
    using enc by simp
  obtain u w1 where accepted: "sync_note demo_env ann ?c demo_world = (Inr (Success u), w1)"
    and u: "n_version u = 2"
    by (simp add: sync_note_run ann_def demo_defs Let_def fetched_note_def own_row_def add_i32_one
        run_stmt_healthy sql_upsert_note_def note_ids_def)
  have own: "no_foreign_id (au_user_id ann) ?c (w_db demo_world)"
    using demo_own_ids [of "[demo_note]"] by (simp add: no_foreign_id_def)
  obtain w2 as' where run: "run_schedule (api_step demo_env demo_state) [0, 0, 0] (w1, ?as) = (w2, as')"
    by fastforce
  with run_schedule_interleaves [of "api_step demo_env demo_state" "(w1, ?as)" "[0, 0, 0]"]
  have path: "(interleave (api_step demo_env demo_state))\<^sup>*\<^sup>* (w1, ?as) (w2, as')" by simp
  have away: "\<forall>i < length ?as. n_id ?c \<notin> writes (?as ! i)" by (simp add: demo_note_def)
  have edit: "n_id demo_note = n_id ?c" "n_user_id demo_note = au_user_id ann" "n_version demo_note \<noteq> n_version u"
    by (simp_all add: u) (simp_all add: demo_note_def ann_def)
  have "fault_at demo_env (w_tick w2) = Healthy" by simp
  from devices_exchange_content [OF demo_aead_laws enc_c demo_inv own accepted path away edit this]
  obtain s w3 where "sync_note demo_env ann demo_note w2 = (Inr (SyncConflict s), w3)"
    "decrypt_entry demo_aead (n_content_cipher s) (n_nonce s) demo_key = Inr [1, 2, 3]" by blast
  moreover have "fst (run_schedule (api_step demo_env demo_state) [0, 0, 0] (w1, ?as)) = w2"
    unfolding run by simp
  ultimately show ?thesis using accepted by metis
qed

end
