(* ===== verification/Json_Codec.thy ===== *)
theory Json_Codec
  imports Api_Utils Sync_Engine "HOL-Library.Monad_Syntax"
begin

text \<open>
  The JSON encoding that \<open>#[derive(Serialize, Deserialize)]\<close> gives the models of
  \<open>crates/core/src/models/mod.rs\<close> and \<open>SyncResult\<close> of \<open>crates/sync\<close>: one \<open>encode\<close> and one
  \<open>decode\<close> function for each struct, over JSON values. Decoding follows the derived code: a
  struct comes as an object (unknown members are ignored, repeated ones refused, a missing
  \<open>Option\<close> is \<open>None\<close>) or as an array of all its fields in order; numbers must fit the field's
  type. What a codec promises is the locale \<open>json_codec\<close>.
\<close>

section \<open>The contract of a codec\<close>

fun decode_all :: "(json \<Rightarrow> 'a option) \<Rightarrow> json list \<Rightarrow> 'a list option" where
  "decode_all dec [] = Some []"
| "decode_all dec (j # js) = do { x \<leftarrow> dec j; xs \<leftarrow> decode_all dec js; Some (x # xs) }"

text \<open>\<open>Vec<T>\<close>\<close>

definition encode_list :: "('a \<Rightarrow> json) \<Rightarrow> 'a list \<Rightarrow> json" where
  "encode_list enc xs = JArr (map enc xs)"

definition decode_list :: "(json \<Rightarrow> 'a option) \<Rightarrow> json \<Rightarrow> 'a list option" where
  "decode_list dec j = (case j of JArr js \<Rightarrow> decode_all dec js | _ \<Rightarrow> None)"

text \<open>\<open>SyncResult<T>\<close>: an enum as an object whose only member is named after the variant.\<close>

definition encode_result :: "('a \<Rightarrow> json) \<Rightarrow> 'a SyncResult \<Rightarrow> json" where
  "encode_result enc r = (case r of
     Success x \<Rightarrow> JObj [(''Success'', enc x)]
   | SyncConflict s \<Rightarrow> JObj [(''Conflict'', JObj [(''server_version'', enc s)])]
   | SyncError e \<Rightarrow> JObj [(''Error'', JStr e)])"

text \<open>The members of a struct that is encoded as an object or as an array.\<close>

definition struct_members :: "string list \<Rightarrow> json \<Rightarrow> (string \<Rightarrow> json option) option" where
  "struct_members names j = (case j of
     JObj ms \<Rightarrow>
       (if distinct (filter (\<lambda>k. k \<in> set names) (map fst ms)) then Some (map_of ms) else None)
   | JArr vs \<Rightarrow> (if length vs = length names then Some (map_of (zip names vs)) else None)
   | _ \<Rightarrow> None)"

definition required_member :: "(string \<Rightarrow> json option) \<Rightarrow> string \<Rightarrow> (json \<Rightarrow> 'a option) \<Rightarrow> 'a option" where
  "required_member m k dec = Option.bind (m k) dec"

definition optional_member ::
    "(string \<Rightarrow> json option) \<Rightarrow> string \<Rightarrow> (json \<Rightarrow> 'a option) \<Rightarrow> 'a option option" where
  "optional_member m k dec = (case m k of
     None \<Rightarrow> Some None
   | Some JNull \<Rightarrow> Some None
   | Some j \<Rightarrow> map_option Some (dec j))"

definition decode_str :: "json \<Rightarrow> string option" where
  "decode_str j = (case j of JStr s \<Rightarrow> Some s | _ \<Rightarrow> None)"

definition decode_result :: "(json \<Rightarrow> 'a option) \<Rightarrow> json \<Rightarrow> 'a SyncResult option" where
  "decode_result dec j = (case j of
     JObj [(k, v)] \<Rightarrow>
       (if k = ''Success'' then map_option Success (dec v)
        else if k = ''Conflict'' then do {
          m \<leftarrow> struct_members [''server_version''] v;
          s \<leftarrow> required_member m ''server_version'' dec;
          Some (SyncConflict s) }
        else if k = ''Error'' then map_option SyncError (decode_str v)
        else None)
   | _ \<Rightarrow> None)"

locale json_codec =
  fixes enc :: "'a \<Rightarrow> json" and dec :: "json \<Rightarrow> 'a option" and valid :: "'a \<Rightarrow> bool"
  assumes roundtrip: "valid x \<Longrightarrow> dec (enc x) = Some x"
begin

lemma encode_inject: "valid x \<Longrightarrow> valid y \<Longrightarrow> enc x = enc y \<Longrightarrow> x = y"
  using roundtrip by (metis option.inject)

lemma decode_all_map: "list_all valid xs \<Longrightarrow> decode_all dec (map enc xs) = Some xs"
  by (induction xs) (simp_all add: roundtrip)

lemma list_roundtrip: "list_all valid xs \<Longrightarrow> decode_list dec (encode_list enc xs) = Some xs"
  by (simp add: encode_list_def decode_list_def decode_all_map)

lemma result_roundtrip [intro]:
  "pred_SyncResult valid r \<Longrightarrow> decode_result dec (encode_result enc r) = Some r"
  by (cases r) (simp_all add: encode_result_def decode_result_def struct_members_def
      required_member_def decode_str_def roundtrip)

text \<open>A codec for the values gives one for the results that carry them.\<close>

lemma result_list_roundtrip:
  "list_all (pred_SyncResult valid) rs \<Longrightarrow>
    decode_list (decode_result dec) (encode_list (encode_result enc) rs) = Some rs"
proof -
  have "list_all (pred_SyncResult valid) rs \<Longrightarrow>
      decode_all (decode_result dec) (map (encode_result enc) rs) = Some rs" for rs
    by (induction rs) (simp_all add: result_roundtrip)
  then show "list_all (pred_SyncResult valid) rs \<Longrightarrow> ?thesis"
    by (simp add: encode_list_def decode_list_def)
qed

end

section \<open>Scalars\<close>

definition decode_bool :: "json \<Rightarrow> bool option" where
  "decode_bool j = (case j of JBool b \<Rightarrow> Some b | _ \<Rightarrow> None)"

definition decode_int :: "int \<Rightarrow> int \<Rightarrow> json \<Rightarrow> int option" where
  "decode_int lo hi j = (case j of JNum i \<Rightarrow> (if lo \<le> i \<and> i \<le> hi then Some i else None) | _ \<Rightarrow> None)"

definition encode_u8 :: "u8 \<Rightarrow> json" where
  "encode_u8 b = JNum (uint b)"

definition decode_u8 :: "json \<Rightarrow> u8 option" where
  "decode_u8 j = map_option word_of_int (decode_int 0 255 j)"

definition encode_i32 :: "i32 \<Rightarrow> json" where
  "encode_i32 v = JNum (sint v)"

definition decode_i32 :: "json \<Rightarrow> i32 option" where
  "decode_i32 j = map_option word_of_int (decode_int (- (2 ^ 31)) (2 ^ 31 - 1) j)"

definition encode_i64 :: "i64 \<Rightarrow> json" where
  "encode_i64 v = JNum (sint v)"

definition decode_i64 :: "json \<Rightarrow> i64 option" where
  "decode_i64 j = map_option word_of_int (decode_int (- (2 ^ 63)) (2 ^ 63 - 1) j)"

definition encode_usize :: "usize \<Rightarrow> json" where
  "encode_usize v = JNum (uint v)"

definition decode_usize :: "json \<Rightarrow> usize option" where
  "decode_usize j = map_option word_of_int (decode_int 0 (2 ^ 64 - 1) j)"

definition encode_bytes :: "bytes \<Rightarrow> json" where
  "encode_bytes = encode_list encode_u8"

definition decode_bytes :: "json \<Rightarrow> bytes option" where
  "decode_bytes = decode_list decode_u8"

definition encode_uuid :: "env \<Rightarrow> uuid \<Rightarrow> json" where
  "encode_uuid E u = JStr (uuid_to_string E u)"

definition decode_uuid :: "env \<Rightarrow> json \<Rightarrow> uuid option" where
  "decode_uuid E j = Option.bind (decode_str j) (uuid_parse_str E)"

definition encode_datetime :: "env \<Rightarrow> datetime \<Rightarrow> json" where
  "encode_datetime E t = JStr (datetime_to_string E t)"

definition decode_datetime :: "env \<Rightarrow> json \<Rightarrow> datetime option" where
  "decode_datetime E j = Option.bind (decode_str j) (datetime_from_string E)"

definition encode_option :: "('a \<Rightarrow> json) \<Rightarrow> 'a option \<Rightarrow> json" where
  "encode_option enc v = (case v of None \<Rightarrow> JNull | Some x \<Rightarrow> enc x)"

text \<open>
  \<open>chrono\<close>: a time within the years of RFC 3339 is formatted to a text that parses to it.
\<close>

definition rfc3339_range :: "datetime \<Rightarrow> bool" where
  "rfc3339_range t \<longleftrightarrow> - 62167219200000000 \<le> t \<and> t < 253402300800000000"

definition chrono_laws :: "env \<Rightarrow> bool" where
  "chrono_laws E \<longleftrightarrow>
     (\<forall>t. rfc3339_range t \<longrightarrow> datetime_from_string E (datetime_to_string E t) = Some t)"

interpretation u8_codec: json_codec encode_u8 decode_u8 "\<lambda>_. True"
proof
  fix b :: u8
  have "uint b < 256" using uint_lt2p [of b] by simp
  then show "decode_u8 (encode_u8 b) = Some b"
    by (simp add: encode_u8_def decode_u8_def decode_int_def)
qed

interpretation i32_codec: json_codec encode_i32 decode_i32 "\<lambda>_. True"
proof
  fix v :: i32
  show "decode_i32 (encode_i32 v) = Some v"
    using sint_i32_bounds [of v] by (simp add: encode_i32_def decode_i32_def decode_int_def)
qed

interpretation i64_codec: json_codec encode_i64 decode_i64 "\<lambda>_. True"
proof
  fix v :: i64
  have "- (2 ^ 63) \<le> sint v" "sint v < 2 ^ 63"
    using sint_ge [of v] sint_lt [of v] by simp_all
  then show "decode_i64 (encode_i64 v) = Some v"
    by (simp add: encode_i64_def decode_i64_def decode_int_def)
qed

interpretation usize_codec: json_codec encode_usize decode_usize "\<lambda>_. True"
proof
  fix v :: usize
  have "uint v < 2 ^ 64" using uint_lt2p [of v] by simp
  then show "decode_usize (encode_usize v) = Some v"
    by (simp add: encode_usize_def decode_usize_def decode_int_def)
qed

interpretation bytes_codec: json_codec encode_bytes decode_bytes "\<lambda>_. True"
  by unfold_locales
    (simp add: encode_bytes_def decode_bytes_def u8_codec.list_roundtrip list_all_iff)

interpretation str_codec: json_codec JStr decode_str "\<lambda>_. True"
  by unfold_locales (simp add: decode_str_def)

interpretation uuid_codec: json_codec "encode_uuid E" "decode_uuid E" "\<lambda>_. uuid_laws E" for E
  by unfold_locales (simp add: encode_uuid_def decode_uuid_def decode_str_def uuid_laws_def)

interpretation datetime_codec:
    json_codec "encode_datetime E" "decode_datetime E" "\<lambda>t. chrono_laws E \<and> rfc3339_range t" for E
  by unfold_locales (simp add: encode_datetime_def decode_datetime_def decode_str_def chrono_laws_def)

lemma demo_chrono_laws [simp]: "chrono_laws demo_env"
  unfolding chrono_laws_def
proof (intro allI impI)
  fix t assume "rfc3339_range t"
  then have "- (2 ^ 63) \<le> t" "t < 2 ^ 63" by (simp_all add: rfc3339_range_def)
  then have "signed_take_bit 63 t = t" by (intro signed_take_bit_int_eq_self) simp_all
  then show "datetime_from_string demo_env (datetime_to_string demo_env t) = Some t"
    by (simp add: sint_sbintrunc')
qed

end
