(* ===== verification/Json_Models.thy ===== *)
theory Json_Models
  imports Json_Codec
begin

text \<open>
  The derived JSON encodings of the structs of \<open>crates/core/src/models/mod.rs\<close>, member by
  member, each with the interpretation of the codec contract: what is encoded decodes to
  itself. \<open>_representable\<close> names the values that have a JSON text: times in the years of RFC
  3339, and, for a nested optional value, not the value \<open>null\<close>, which decodes to \<open>None\<close>.
\<close>

definition wire_laws :: "env \<Rightarrow> bool" where
  "wire_laws E \<longleftrightarrow> uuid_laws E \<and> chrono_laws E"

lemma demo_wire_laws [simp]: "wire_laws demo_env"
  by (simp add: wire_laws_def)

text \<open>A member of the encoding is found again, and decodes.\<close>

lemma struct_members_obj:
  "distinct (map fst ms) \<Longrightarrow> struct_members names (JObj ms) = Some (map_of ms)"
  by (simp add: struct_members_def distinct_filter)

lemma required_member_Some: "m k = Some j \<Longrightarrow> required_member m k dec = dec j"
  by (simp add: required_member_def)

lemma optional_str:
  "m k = Some (encode_option JStr v) \<Longrightarrow> optional_member m k decode_str = Some v"
  by (cases v) (auto simp: optional_member_def encode_option_def decode_str_def)

lemma optional_datetime:
  "m k = Some (encode_option (encode_datetime E) t) \<Longrightarrow> chrono_laws E \<Longrightarrow>
    pred_option rfc3339_range t \<Longrightarrow> optional_member m k (decode_datetime E) = Some t"
  by (cases t) (auto simp: optional_member_def encode_option_def encode_datetime_def
      decode_datetime_def decode_str_def chrono_laws_def)

lemma optional_value:
  "m k = Some (encode_option (\<lambda>j. j) v) \<Longrightarrow> v \<noteq> Some JNull \<Longrightarrow> optional_member m k Some = Some v"
  by (cases v) (auto simp: optional_member_def encode_option_def split: json.split)

lemma codec_scalars:
  "decode_str (JStr s) = Some s" "decode_bool (JBool b) = Some b"
  "decode_int lo hi (JNum i) = (if lo \<le> i \<and> i \<le> hi then Some i else None)"
  "decode_list decode_str (encode_list JStr ss) = Some ss"
  using str_codec.list_roundtrip [of ss]
  by (simp_all add: decode_str_def decode_bool_def decode_int_def list_all_iff)

lemma codec_env:
  "wire_laws E \<Longrightarrow> chrono_laws E"
  "wire_laws E \<Longrightarrow> decode_uuid E (encode_uuid E u) = Some u"
  "wire_laws E \<Longrightarrow> rfc3339_range t \<Longrightarrow> decode_datetime E (encode_datetime E t) = Some t"
  by (simp_all add: wire_laws_def uuid_codec.roundtrip datetime_codec.roundtrip)

lemmas codec_simps = struct_members_obj required_member_Some optional_str optional_datetime optional_value
  codec_scalars codec_env bytes_codec.roundtrip i32_codec.roundtrip i64_codec.roundtrip
  usize_codec.roundtrip

section \<open>The structs\<close>

definition encode_user :: "env \<Rightarrow> User \<Rightarrow> json" where
  "encode_user E x = JObj
     [(''id'', encode_uuid E (u_id x)),
      (''email'', JStr (u_email x)),
      (''password_hash'', JStr (u_password_hash x)),
      (''display_name'', encode_option JStr (u_display_name x)),
      (''sso_provider'', encode_option JStr (u_sso_provider x)),
      (''sso_sub'', encode_option JStr (u_sso_sub x)),
      (''created_at'', encode_datetime E (u_created_at x)),
      (''updated_at'', encode_datetime E (u_updated_at x))]"

definition user_members :: "string list" where
  "user_members =
      [''id'', ''email'', ''password_hash'', ''display_name'', ''sso_provider'', ''sso_sub'',
       ''created_at'', ''updated_at'']"

definition decode_user :: "env \<Rightarrow> json \<Rightarrow> User option" where
  "decode_user E j = do {
     m \<leftarrow> struct_members user_members j;
     f_id \<leftarrow> required_member m ''id'' (decode_uuid E);
     f_email \<leftarrow> required_member m ''email'' decode_str;
     f_password_hash \<leftarrow> required_member m ''password_hash'' decode_str;
     f_display_name \<leftarrow> optional_member m ''display_name'' decode_str;
     f_sso_provider \<leftarrow> optional_member m ''sso_provider'' decode_str;
     f_sso_sub \<leftarrow> optional_member m ''sso_sub'' decode_str;
     f_created_at \<leftarrow> required_member m ''created_at'' (decode_datetime E);
     f_updated_at \<leftarrow> required_member m ''updated_at'' (decode_datetime E);
     Some \<lparr>u_id = f_id, u_email = f_email, u_password_hash = f_password_hash,
       u_display_name = f_display_name, u_sso_provider = f_sso_provider,
       u_sso_sub = f_sso_sub, u_created_at = f_created_at, u_updated_at = f_updated_at\<rparr> }"

definition user_representable :: "User \<Rightarrow> bool" where
  "user_representable x \<longleftrightarrow> rfc3339_range (u_created_at x) \<and>
     rfc3339_range (u_updated_at x)"

interpretation user_codec:
    json_codec "encode_user E" "decode_user E" "\<lambda>x. wire_laws E \<and> user_representable x" for E
  by unfold_locales
    (simp add: encode_user_def decode_user_def user_members_def
      user_representable_def codec_simps)

definition encode_refresh_token :: "env \<Rightarrow> RefreshToken \<Rightarrow> json" where
  "encode_refresh_token E x = JObj
     [(''id'', encode_uuid E (rt_id x)),
      (''user_id'', encode_uuid E (rt_user_id x)),
      (''token_hash'', JStr (rt_token_hash x)),
      (''expires_at'', encode_datetime E (rt_expires_at x)),
      (''revoked'', JBool (rt_revoked x)),
      (''created_at'', encode_datetime E (rt_created_at x))]"

definition refresh_token_members :: "string list" where
  "refresh_token_members =
      [''id'', ''user_id'', ''token_hash'', ''expires_at'', ''revoked'', ''created_at'']"

definition decode_refresh_token :: "env \<Rightarrow> json \<Rightarrow> RefreshToken option" where
  "decode_refresh_token E j = do {
     m \<leftarrow> struct_members refresh_token_members j;
     f_id \<leftarrow> required_member m ''id'' (decode_uuid E);
     f_user_id \<leftarrow> required_member m ''user_id'' (decode_uuid E);
     f_token_hash \<leftarrow> required_member m ''token_hash'' decode_str;
     f_expires_at \<leftarrow> required_member m ''expires_at'' (decode_datetime E);
     f_revoked \<leftarrow> required_member m ''revoked'' decode_bool;
     f_created_at \<leftarrow> required_member m ''created_at'' (decode_datetime E);
     Some \<lparr>rt_id = f_id, rt_user_id = f_user_id, rt_token_hash = f_token_hash,
       rt_expires_at = f_expires_at, rt_revoked = f_revoked,
       rt_created_at = f_created_at\<rparr> }"

definition refresh_token_representable :: "RefreshToken \<Rightarrow> bool" where
  "refresh_token_representable x \<longleftrightarrow> rfc3339_range (rt_expires_at x) \<and>
     rfc3339_range (rt_created_at x)"

interpretation refresh_token_codec:
    json_codec "encode_refresh_token E" "decode_refresh_token E" "\<lambda>x. wire_laws E \<and> refresh_token_representable x" for E
  by unfold_locales
    (simp add: encode_refresh_token_def decode_refresh_token_def refresh_token_members_def
      refresh_token_representable_def codec_simps)

definition encode_register_request :: "RegisterRequest \<Rightarrow> json" where
  "encode_register_request x = JObj
     [(''email'', JStr (rr_email x)),
      (''password'', JStr (rr_password x)),
      (''display_name'', encode_option JStr (rr_display_name x))]"

definition register_request_members :: "string list" where
  "register_request_members =
      [''email'', ''password'', ''display_name'']"

definition decode_register_request :: "json \<Rightarrow> RegisterRequest option" where
  "decode_register_request j = do {
     m \<leftarrow> struct_members register_request_members j;
     f_email \<leftarrow> required_member m ''email'' decode_str;
     f_password \<leftarrow> required_member m ''password'' decode_str;
     f_display_name \<leftarrow> optional_member m ''display_name'' decode_str;
     Some \<lparr>rr_email = f_email, rr_password = f_password, rr_display_name = f_display_name\<rparr> }"

interpretation register_request_codec:
    json_codec encode_register_request decode_register_request "\<lambda>_. True"
  by unfold_locales
    (simp add: encode_register_request_def decode_register_request_def register_request_members_def codec_simps)

definition encode_login_request :: "LoginRequest \<Rightarrow> json" where
  "encode_login_request x = JObj
     [(''email'', JStr (lr_email x)),
      (''password'', JStr (lr_password x))]"

definition login_request_members :: "string list" where
  "login_request_members =
      [''email'', ''password'']"

definition decode_login_request :: "json \<Rightarrow> LoginRequest option" where
  "decode_login_request j = do {
     m \<leftarrow> struct_members login_request_members j;
     f_email \<leftarrow> required_member m ''email'' decode_str;
     f_password \<leftarrow> required_member m ''password'' decode_str;
     Some \<lparr>lr_email = f_email, lr_password = f_password\<rparr> }"

interpretation login_request_codec:
    json_codec encode_login_request decode_login_request "\<lambda>_. True"
  by unfold_locales
    (simp add: encode_login_request_def decode_login_request_def login_request_members_def codec_simps)

definition encode_refresh_request :: "RefreshRequest \<Rightarrow> json" where
  "encode_refresh_request x = JObj
     [(''refresh_token'', JStr (rf_refresh_token x))]"

definition refresh_request_members :: "string list" where
  "refresh_request_members =
      [''refresh_token'']"

definition decode_refresh_request :: "json \<Rightarrow> RefreshRequest option" where
  "decode_refresh_request j = do {
     m \<leftarrow> struct_members refresh_request_members j;
     f_refresh_token \<leftarrow> required_member m ''refresh_token'' decode_str;
     Some \<lparr>rf_refresh_token = f_refresh_token\<rparr> }"

interpretation refresh_request_codec:
    json_codec encode_refresh_request decode_refresh_request "\<lambda>_. True"
  by unfold_locales
    (simp add: encode_refresh_request_def decode_refresh_request_def refresh_request_members_def codec_simps)

definition encode_auth_response :: "AuthResponse \<Rightarrow> json" where
  "encode_auth_response x = JObj
     [(''access_token'', JStr (ar_access_token x)),
      (''refresh_token'', JStr (ar_refresh_token x)),
      (''token_type'', JStr (ar_token_type x)),
      (''expires_in'', JNum (ar_expires_in x))]"

definition auth_response_members :: "string list" where
  "auth_response_members =
      [''access_token'', ''refresh_token'', ''token_type'', ''expires_in'']"

definition decode_auth_response :: "json \<Rightarrow> AuthResponse option" where
  "decode_auth_response j = do {
     m \<leftarrow> struct_members auth_response_members j;
     f_access_token \<leftarrow> required_member m ''access_token'' decode_str;
     f_refresh_token \<leftarrow> required_member m ''refresh_token'' decode_str;
     f_token_type \<leftarrow> required_member m ''token_type'' decode_str;
     f_expires_in \<leftarrow> required_member m ''expires_in'' (decode_int (- (2 ^ 63)) (2 ^ 63 - 1));
     Some \<lparr>ar_access_token = f_access_token, ar_refresh_token = f_refresh_token,
       ar_token_type = f_token_type, ar_expires_in = f_expires_in\<rparr> }"

definition auth_response_representable :: "AuthResponse \<Rightarrow> bool" where
  "auth_response_representable x \<longleftrightarrow> - (2 ^ 63) \<le> ar_expires_in x \<and> ar_expires_in x < 2 ^ 63"

interpretation auth_response_codec:
    json_codec encode_auth_response decode_auth_response "auth_response_representable"
  by unfold_locales
    (simp add: encode_auth_response_def decode_auth_response_def auth_response_members_def
      auth_response_representable_def codec_simps)

definition encode_token_claims :: "TokenClaims \<Rightarrow> json" where
  "encode_token_claims x = JObj
     [(''sub'', JStr (tc_sub x)),
      (''iat'', encode_usize (tc_iat x)),
      (''exp'', encode_usize (tc_exp x))]"

definition token_claims_members :: "string list" where
  "token_claims_members =
      [''sub'', ''iat'', ''exp'']"

definition decode_token_claims :: "json \<Rightarrow> TokenClaims option" where
  "decode_token_claims j = do {
     m \<leftarrow> struct_members token_claims_members j;
     f_sub \<leftarrow> required_member m ''sub'' decode_str;
     f_iat \<leftarrow> required_member m ''iat'' decode_usize;
     f_exp \<leftarrow> required_member m ''exp'' decode_usize;
     Some \<lparr>tc_sub = f_sub, tc_iat = f_iat, tc_exp = f_exp\<rparr> }"

interpretation token_claims_codec:
    json_codec encode_token_claims decode_token_claims "\<lambda>_. True"
  by unfold_locales
    (simp add: encode_token_claims_def decode_token_claims_def token_claims_members_def codec_simps)

definition encode_note :: "env \<Rightarrow> Note \<Rightarrow> json" where
  "encode_note E x = JObj
     [(''id'', encode_uuid E (n_id x)),
      (''user_id'', encode_uuid E (n_user_id x)),
      (''title_cipher'', encode_bytes (n_title_cipher x)),
      (''content_cipher'', encode_bytes (n_content_cipher x)),
      (''nonce'', encode_bytes (n_nonce x)),
      (''version'', encode_i32 (n_version x)),
      (''format'', JStr (n_format x)),
      (''tags'', encode_list JStr (n_tags x)),
      (''created_at'', encode_datetime E (n_created_at x)),
      (''updated_at'', encode_datetime E (n_updated_at x)),
      (''deleted_at'', encode_option (encode_datetime E) (n_deleted_at x))]"

definition note_members :: "string list" where
  "note_members =
      [''id'', ''user_id'', ''title_cipher'', ''content_cipher'', ''nonce'', ''version'',
       ''format'', ''tags'', ''created_at'', ''updated_at'', ''deleted_at'']"

definition decode_note :: "env \<Rightarrow> json \<Rightarrow> Note option" where
  "decode_note E j = do {
     m \<leftarrow> struct_members note_members j;
     f_id \<leftarrow> required_member m ''id'' (decode_uuid E);
     f_user_id \<leftarrow> required_member m ''user_id'' (decode_uuid E);
     f_title_cipher \<leftarrow> required_member m ''title_cipher'' decode_bytes;
     f_content_cipher \<leftarrow> required_member m ''content_cipher'' decode_bytes;
     f_nonce \<leftarrow> required_member m ''nonce'' decode_bytes;
     f_version \<leftarrow> required_member m ''version'' decode_i32;
     f_format \<leftarrow> required_member m ''format'' decode_str;
     f_tags \<leftarrow> required_member m ''tags'' (decode_list decode_str);
     f_created_at \<leftarrow> required_member m ''created_at'' (decode_datetime E);
     f_updated_at \<leftarrow> required_member m ''updated_at'' (decode_datetime E);
     f_deleted_at \<leftarrow> optional_member m ''deleted_at'' (decode_datetime E);
     Some \<lparr>n_id = f_id, n_user_id = f_user_id, n_title_cipher = f_title_cipher,
       n_content_cipher = f_content_cipher, n_nonce = f_nonce, n_version = f_version,
       n_format = f_format, n_tags = f_tags, n_created_at = f_created_at,
       n_updated_at = f_updated_at, n_deleted_at = f_deleted_at\<rparr> }"

definition note_representable :: "Note \<Rightarrow> bool" where
  "note_representable x \<longleftrightarrow> rfc3339_range (n_created_at x) \<and>
     rfc3339_range (n_updated_at x) \<and>
     pred_option rfc3339_range (n_deleted_at x)"

interpretation note_codec:
    json_codec "encode_note E" "decode_note E" "\<lambda>x. wire_laws E \<and> note_representable x" for E
  by unfold_locales
    (simp add: encode_note_def decode_note_def note_members_def
      note_representable_def codec_simps)

definition encode_vault_entry :: "env \<Rightarrow> VaultEntry \<Rightarrow> json" where
  "encode_vault_entry E x = JObj
     [(''id'', encode_uuid E (ve_id x)),
      (''note_id'', encode_uuid E (ve_note_id x)),
      (''user_id'', encode_uuid E (ve_user_id x)),
      (''file_cipher'', encode_bytes (ve_file_cipher x)),
      (''nonce'', encode_bytes (ve_nonce x)),
      (''mime_type'', encode_option JStr (ve_mime_type x)),
      (''file_size'', encode_i32 (ve_file_size x)),
      (''created_at'', encode_datetime E (ve_created_at x))]"

definition vault_entry_members :: "string list" where
  "vault_entry_members =
      [''id'', ''note_id'', ''user_id'', ''file_cipher'', ''nonce'', ''mime_type'',
       ''file_size'', ''created_at'']"

definition decode_vault_entry :: "env \<Rightarrow> json \<Rightarrow> VaultEntry option" where
  "decode_vault_entry E j = do {
     m \<leftarrow> struct_members vault_entry_members j;
     f_id \<leftarrow> required_member m ''id'' (decode_uuid E);
     f_note_id \<leftarrow> required_member m ''note_id'' (decode_uuid E);
     f_user_id \<leftarrow> required_member m ''user_id'' (decode_uuid E);
     f_file_cipher \<leftarrow> required_member m ''file_cipher'' decode_bytes;
     f_nonce \<leftarrow> required_member m ''nonce'' decode_bytes;
     f_mime_type \<leftarrow> optional_member m ''mime_type'' decode_str;
     f_file_size \<leftarrow> required_member m ''file_size'' decode_i32;
     f_created_at \<leftarrow> required_member m ''created_at'' (decode_datetime E);
     Some \<lparr>ve_id = f_id, ve_note_id = f_note_id, ve_user_id = f_user_id,
       ve_file_cipher = f_file_cipher, ve_nonce = f_nonce, ve_mime_type = f_mime_type,
       ve_file_size = f_file_size, ve_created_at = f_created_at\<rparr> }"

definition vault_entry_representable :: "VaultEntry \<Rightarrow> bool" where
  "vault_entry_representable x \<longleftrightarrow> rfc3339_range (ve_created_at x)"

interpretation vault_entry_codec:
    json_codec "encode_vault_entry E" "decode_vault_entry E" "\<lambda>x. wire_laws E \<and> vault_entry_representable x" for E
  by unfold_locales
    (simp add: encode_vault_entry_def decode_vault_entry_def vault_entry_members_def
      vault_entry_representable_def codec_simps)

definition encode_sync_event :: "env \<Rightarrow> SyncEvent \<Rightarrow> json" where
  "encode_sync_event E x = JObj
     [(''id'', encode_i64 (se_id x)),
      (''user_id'', encode_uuid E (se_user_id x)),
      (''entity_type'', JStr (se_entity_type x)),
      (''entity_id'', encode_uuid E (se_entity_id x)),
      (''operation'', JStr (se_operation x)),
      (''payload'', encode_option (\<lambda>v. v) (se_payload x)),
      (''client_id'', JStr (se_client_id x)),
      (''created_at'', encode_datetime E (se_created_at x))]"

definition sync_event_members :: "string list" where
  "sync_event_members =
      [''id'', ''user_id'', ''entity_type'', ''entity_id'', ''operation'', ''payload'',
       ''client_id'', ''created_at'']"

definition decode_sync_event :: "env \<Rightarrow> json \<Rightarrow> SyncEvent option" where
  "decode_sync_event E j = do {
     m \<leftarrow> struct_members sync_event_members j;
     f_id \<leftarrow> required_member m ''id'' decode_i64;
     f_user_id \<leftarrow> required_member m ''user_id'' (decode_uuid E);
     f_entity_type \<leftarrow> required_member m ''entity_type'' decode_str;
     f_entity_id \<leftarrow> required_member m ''entity_id'' (decode_uuid E);
     f_operation \<leftarrow> required_member m ''operation'' decode_str;
     f_payload \<leftarrow> optional_member m ''payload'' Some;
     f_client_id \<leftarrow> required_member m ''client_id'' decode_str;
     f_created_at \<leftarrow> required_member m ''created_at'' (decode_datetime E);
     Some \<lparr>se_id = f_id, se_user_id = f_user_id, se_entity_type = f_entity_type,
       se_entity_id = f_entity_id, se_operation = f_operation, se_payload = f_payload,
       se_client_id = f_client_id, se_created_at = f_created_at\<rparr> }"

definition sync_event_representable :: "SyncEvent \<Rightarrow> bool" where
  "sync_event_representable x \<longleftrightarrow> rfc3339_range (se_created_at x) \<and>
     se_payload x \<noteq> Some JNull"

interpretation sync_event_codec:
    json_codec "encode_sync_event E" "decode_sync_event E" "\<lambda>x. wire_laws E \<and> sync_event_representable x" for E
  by unfold_locales
    (simp add: encode_sync_event_def decode_sync_event_def sync_event_members_def
      sync_event_representable_def codec_simps)

end
