(* ===== verification/Wire.thy ===== *)
theory Wire
  imports Api_Main Json_Models
begin

text \<open>
  The API on the wire: the \<open>Json<..>\<close> extractors in the signatures of the handlers
  (\<open>services/api/src/routes\<close>), which turn a body into a request value or a refusal, and the
  encoding of what the handlers return.
\<close>

section \<open>Bodies and extractors\<close>

text \<open>
  What the service uses of \<open>axum\<close> and \<open>serde_json\<close>: the test of the content type, the parser,
  the printer and the size limit of bodies; and of the extractor \<open>Json\<close>: the JSON that it reads
  from the content type and the bytes of a request, if it accepts them, and the answer it
  gives in place of the handler of a route when there is none, or none of the handler's type.
\<close>

record http_lib =
  is_json_content_type :: "string option \<Rightarrow> bool"
  json_from_slice :: "bytes \<Rightarrow> json option"
  json_to_vec :: "json \<Rightarrow> bytes"
  body_limit :: nat
  read_json :: "string option \<Rightarrow> bytes \<Rightarrow> json option"
  json_rejection :: "route \<Rightarrow> string option \<Rightarrow> bytes \<Rightarrow> status_code \<times> string"

text \<open>
  The values the parser can return exactly: integers that fit \<open>i64\<close> or \<open>u64\<close>, no fractions, and
  nesting up to \<open>n\<close> levels; the recursion limit of \<open>serde_json\<close> admits 127.
\<close>

fun json_fits :: "nat \<Rightarrow> json \<Rightarrow> bool" where
  "json_fits n JNull = True"
| "json_fits n (JBool b) = True"
| "json_fits n (JNum i) = (- (2 ^ 63) \<le> i \<and> i < 2 ^ 64)"
| "json_fits n (JFloat s) = False"
| "json_fits n (JStr s) = True"
| "json_fits n (JArr js) = (0 < n \<and> list_all (json_fits (n - 1)) js)"
| "json_fits n (JObj ms) = (0 < n \<and> list_all (\<lambda>m. json_fits (n - 1) (snd m)) ms)"

text \<open>
  The documented behaviour: what is printed is parsed back; the extractor wants a JSON content type,
  a body within the limit, and JSON; it refuses with a status of the client errors.
\<close>

definition http_laws :: "http_lib \<Rightarrow> bool" where
  "http_laws H \<longleftrightarrow>
     (\<forall>j. json_fits 127 j \<longrightarrow> json_from_slice H (json_to_vec H j) = Some j) \<and>
     is_json_content_type H (Some ''application/json'') \<and>
     (\<forall>ct bs. read_json H ct bs =
        (if is_json_content_type H ct \<and> length bs \<le> body_limit H then json_from_slice H bs else None)) \<and>
     (\<forall>r ct bs. BAD_REQUEST \<le> fst (json_rejection H r ct bs) \<and>
        fst (json_rejection H r ct bs) < INTERNAL_SERVER_ERROR)"

record raw_request =
  rq_method :: http_method
  rq_path :: string
  rq_authorization :: "bytes option"
  rq_content_type :: "string option"
  rq_body :: bytes

definition extract_json ::
    "http_lib \<Rightarrow> route \<Rightarrow> (json \<Rightarrow> 'a option) \<Rightarrow> raw_request \<Rightarrow> status_code \<times> string + 'a" where
  "extract_json H r dec raw =
     (case Option.bind (read_json H (rq_content_type raw) (rq_body raw)) dec of
        None \<Rightarrow> Inl (json_rejection H r (rq_content_type raw) (rq_body raw))
      | Some x \<Rightarrow> Inr x)"

definition as_body :: "('a \<Rightarrow> body) \<Rightarrow> status_code \<times> string + 'a \<Rightarrow> body" where
  "as_body f r = (case r of Inl (s, msg) \<Rightarrow> RefusedBody s msg | Inr x \<Rightarrow> f x)"

text \<open>The parameter \<open>Json(..): Json<..>\<close> of each handler that has one.\<close>

definition register_body :: "http_lib \<Rightarrow> raw_request \<Rightarrow> body" where
  "register_body H raw = as_body RegisterBody (extract_json H Register decode_register_request raw)"

definition login_body :: "http_lib \<Rightarrow> raw_request \<Rightarrow> body" where
  "login_body H raw = as_body LoginBody (extract_json H Login decode_login_request raw)"

definition refresh_body :: "http_lib \<Rightarrow> raw_request \<Rightarrow> body" where
  "refresh_body H raw = as_body RefreshBody (extract_json H Refresh decode_refresh_request raw)"

definition notes_body :: "http_lib \<Rightarrow> env \<Rightarrow> raw_request \<Rightarrow> body" where
  "notes_body H E raw = as_body NotesBody (extract_json H SyncNotes (decode_list (decode_note E)) raw)"

definition vault_body :: "http_lib \<Rightarrow> env \<Rightarrow> raw_request \<Rightarrow> body" where
  "vault_body H E raw = as_body VaultBody (extract_json H SyncVaultEntries (decode_vault_entry E) raw)"

lemmas handler_body_defs = register_body_def login_body_def refresh_body_def notes_body_def vault_body_def

text \<open>The handler of each route; \<open>/health\<close> and \<open>/me\<close> do not read the body.\<close>

definition extract_body :: "http_lib \<Rightarrow> env \<Rightarrow> route \<Rightarrow> raw_request \<Rightarrow> body" where
  "extract_body H E r raw = (case r of
     Register \<Rightarrow> register_body H raw
   | Login \<Rightarrow> login_body H raw
   | Refresh \<Rightarrow> refresh_body H raw
   | SyncNotes \<Rightarrow> notes_body H E raw
   | SyncVaultEntries \<Rightarrow> vault_body H E raw
   | _ \<Rightarrow> Unread)"

definition parse_request :: "http_lib \<Rightarrow> env \<Rightarrow> raw_request \<Rightarrow> request" where
  "parse_request H E raw =
     \<lparr>req_method = rq_method raw, req_path = rq_path raw, req_authorization = rq_authorization raw,
      req_body = (case route_at (rq_path raw) of
         None \<Rightarrow> Unread
       | Some r \<Rightarrow> extract_body H E r raw)\<rparr>"

text \<open>\<open>IntoResponse\<close> of what the handlers return.\<close>

definition render_payload :: "http_lib \<Rightarrow> env \<Rightarrow> payload \<Rightarrow> bytes" where
  "render_payload H E p = (case p of
     Text s \<Rightarrow> map of_char s
   | AuthPayload a \<Rightarrow> json_to_vec H (encode_auth_response a)
   | JsonPayload j \<Rightarrow> json_to_vec H j
   | NoteResults rs \<Rightarrow> json_to_vec H (encode_list (encode_result (encode_note E)) rs)
   | VaultResult r \<Rightarrow> json_to_vec H (encode_result (encode_uuid E) r)
   | NoPayload \<Rightarrow> [])"

definition handle_raw ::
    "http_lib \<Rightarrow> env \<Rightarrow> app_state \<Rightarrow> raw_request \<Rightarrow> (world, panic, status_code \<times> bytes) act" where
  "handle_raw H E st raw =
     and_then (handle_request E st (parse_request H E raw)) (\<lambda>(s, p). ok (s, render_payload H E p))"

section \<open>Every answer has the shape of its route\<close>

text \<open>
  The shapes the signatures of the handlers and of the middleware allow: an error is an object of
  the service, a text of the extractor, or a bare status of the router.
\<close>

definition error_shape :: "payload \<Rightarrow> bool" where
  "error_shape p \<longleftrightarrow> p = NoPayload \<or> (\<exists>msg. p = Text msg) \<or> (\<exists>msg. p = JsonPayload (error_json msg))"

definition shape_ok :: "env \<Rightarrow> route \<Rightarrow> response \<Rightarrow> bool" where
  "shape_ok E r resp = (case resp of (s, p) \<Rightarrow>
     if BAD_REQUEST \<le> s then error_shape p
     else (case r of
        Health \<Rightarrow> s = OK \<and> p = Text ''Ok''
      | Register \<Rightarrow> s = CREATED \<and> (\<exists>a. p = AuthPayload a)
      | Login \<Rightarrow> s = OK \<and> (\<exists>a. p = AuthPayload a)
      | Refresh \<Rightarrow> s = OK \<and> (\<exists>a. p = AuthPayload a)
      | Me \<Rightarrow> s = OK \<and> (\<exists>u. p = JsonPayload (JObj [(''user_id'', JStr (uuid_to_string E u))]))
      | SyncNotes \<Rightarrow> s = OK \<and> (\<exists>rs. p = NoteResults rs)
      | SyncVaultEntries \<Rightarrow> s = OK \<and> (\<exists>v. p = VaultResult v)))"

text \<open>The errors of the handlers: a status of at least 400 and an error object.\<close>

definition error_ok :: "http_error \<Rightarrow> bool" where
  "error_ok e \<longleftrightarrow> BAD_REQUEST \<le> fst e \<and> (\<exists>msg. snd e = error_json msg)"

lemma status_order [simp]:
  "BAD_REQUEST \<le> UNAUTHORIZED" "BAD_REQUEST \<le> CONFLICT" "BAD_REQUEST \<le> INTERNAL_SERVER_ERROR"
  "BAD_REQUEST \<le> NOT_FOUND" "BAD_REQUEST \<le> METHOD_NOT_ALLOWED" "BAD_REQUEST \<le> UNPROCESSABLE_ENTITY"
  "BAD_REQUEST \<le> PAYLOAD_TOO_LARGE" "BAD_REQUEST \<le> UNSUPPORTED_MEDIA_TYPE"
  "\<not> BAD_REQUEST \<le> OK" "\<not> BAD_REQUEST \<le> CREATED"
  by (simp_all add: less_eq_status_code_def)

lemma error_ok_simps [simp]:
  "error_ok (internal_error m)" "error_ok (unauthorized m)"
  "error_ok (s, error_json m) \<longleftrightarrow> BAD_REQUEST \<le> s"
  by (auto simp: error_ok_def internal_error_def unauthorized_def)

text \<open>An action whose errors all satisfy \<open>error_ok\<close>.\<close>

definition errors_ok :: "(world, http_error, 'a) act \<Rightarrow> bool" where
  "errors_ok m \<longleftrightarrow> (\<forall>w e w'. m w = (Inl e, w') \<longrightarrow> error_ok e)"

lemma errors_okI: "(\<And>w e w'. m w = (Inl e, w') \<Longrightarrow> error_ok e) \<Longrightarrow> errors_ok m"
  by (simp add: errors_ok_def)

lemma errors_ok_and_then [intro]:
  "errors_ok m \<Longrightarrow> (\<And>x. errors_ok (f x)) \<Longrightarrow> errors_ok (and_then m f)"
  by (auto simp: errors_ok_def and_then_run split: prod.splits sum.splits)

lemma errors_ok_intros [intro]:
  "errors_ok (ok x)" "error_ok e \<Longrightarrow> errors_ok (err e)" "error_ok e \<Longrightarrow> errors_ok (ok_or e z)"
  "errors_ok (tick f)" "errors_ok (attempt a)"
  by (auto simp: errors_ok_def act_simps split: option.splits prod.splits sum.splits)

lemma errors_ok_map_err [intro]: "(\<And>d. error_ok (g d)) \<Longrightarrow> errors_ok (map_err g n)"
  by (auto simp: errors_ok_def map_err_run split: prod.splits sum.splits) (metis)

lemma errors_ok_cases [intro]:
  "(b \<Longrightarrow> errors_ok m) \<Longrightarrow> (\<not> b \<Longrightarrow> errors_ok n) \<Longrightarrow> errors_ok (if b then m else n)"
  "(\<And>x. errors_ok (f x)) \<Longrightarrow> (\<And>y. errors_ok (g y)) \<Longrightarrow>
    errors_ok (case z of Inl x \<Rightarrow> f x | Inr y \<Rightarrow> g y)"
  "errors_ok m \<Longrightarrow> (\<And>x. errors_ok (h x)) \<Longrightarrow>
    errors_ok (case v of None \<Rightarrow> m | Some x \<Rightarrow> h x)"
  by (auto split: sum.split option.split)

lemma handlers_errors_ok:
  "errors_ok (generate_token_pair E st uid)" "errors_ok (register E st reg)"
  "errors_ok (login E st log)" "errors_ok (refresh E st ref)"
  unfolding auth_handler_defs
  by (intro errors_ok_and_then errors_ok_map_err errors_ok_intros errors_ok_cases error_ok_simps
      error_ok_simps(3) [THEN iffD2] status_order)+

lemma require_auth_errors_ok:
  "(\<And>session. errors_ok (next session)) \<Longrightarrow> errors_ok (require_auth E st header next)"
  unfolding require_auth_def
  by (intro errors_ok_and_then errors_ok_map_err errors_ok_intros error_ok_simps)

lemma into_response_shape:
  assumes "errors_ok m" and "\<And>w s a w'. m w = (Inr (s, a), w') \<Longrightarrow> s = good"
    and "into_response m w = (Inr (s, p), w')"
  shows "(BAD_REQUEST \<le> s \<and> error_shape p) \<or> (s = good \<and> (\<exists>a. p = AuthPayload a))"
  using assms
  by (fastforce simp: into_response_def and_then_run attempt_run ok_run errors_ok_def error_ok_def
      error_shape_def split: prod.splits sum.splits)

lemma handler_status:
  "register E st reg w = (Inr (s, a), w') \<Longrightarrow> s = CREATED"
  "login E st log w = (Inr (s, a), w') \<Longrightarrow> s = OK"
  "refresh E st ref w = (Inr (s, a), w') \<Longrightarrow> s = OK"
  by (blast elim: register_InrE login_InrE refresh_InrE)+

definition refusal_ok :: "body \<Rightarrow> bool" where
  "refusal_ok b \<longleftrightarrow> (\<forall>s msg. b = RefusedBody s msg \<longrightarrow> BAD_REQUEST \<le> s)"

lemma refusal_shape: "refusal_ok b \<Longrightarrow> BAD_REQUEST \<le> fst (refusal b) \<and> (\<exists>msg. snd (refusal b) = Text msg)"
  by (cases b) (simp_all add: refusal_def refusal_ok_def)

lemma public_shape:
  assumes "refusal_ok b" and "r \<in> {Health, Register, Login, Refresh}"
    and "public_handler E st r b w = (Inr resp, w')"
  shows "shape_ok E r resp"
proof -
  have refused: "shape_ok E r (refusal b)"
    using refusal_shape [OF assms(1)] by (cases "refusal b") (auto simp: shape_ok_def error_shape_def)
  have auth: "shape_ok E r (s, p)"
    if "into_response m w = (Inr (s, p), w')" "errors_ok m" "r \<in> {Register, Login, Refresh}"
      "\<And>w s a w'. m w = (Inr (s, a), w') \<Longrightarrow> s = (if r = Register then CREATED else OK)" for m s p
  proof -
    let ?good = "if r = Register then CREATED else OK"
    have "(BAD_REQUEST \<le> s \<and> error_shape p) \<or> (s = ?good \<and> (\<exists>a. p = AuthPayload a))"
      by (rule into_response_shape [OF that(2) _ that(1)]) (rule that(4))
    with that(3) show ?thesis by (auto simp: shape_ok_def split: if_splits)
  qed
  obtain s p where resp: "resp = (s, p)" by fastforce
  show ?thesis
    using assms(2,3) refused handlers_errors_ok handler_status auth
    by (auto simp: public_handler_def ok_run resp health_check_def shape_ok_def [of E Health]
        split: body.splits)
qed

lemma protected_shape:
  assumes "refusal_ok b" and "r \<in> {Me, SyncNotes, SyncVaultEntries}"
    and "protected_handler E r b session w = (Inr resp, w')"
  shows "shape_ok E r resp"
  using assms refusal_shape [OF assms(1)]
  by (auto simp: protected_handler_def ok_run and_then_run me_def shape_ok_def error_shape_def
      split: body.splits prod.splits sum.splits)

lemma extract_body_refusal:
  assumes "http_laws H"
  shows "refusal_ok (extract_body H E r raw)"
proof -
  have "BAD_REQUEST \<le> s" if "json_rejection H r' ct bs = (s, msg)" for s msg r' ct bs
    using assms that unfolding http_laws_def by (metis fst_conv)
  then show ?thesis
    by (cases r) (auto simp: extract_body_def handler_body_defs refusal_ok_def as_body_def extract_json_def
        split: sum.splits option.splits prod.splits)
qed

end
