(* ===== verification/Demo_Http.thy ===== *)
theory Demo_Http
  imports Wire Demo_Env
begin

text \<open>
  A concrete instance of the HTTP library functions: a prefix-free byte format for JSON values
  with its parser. It only serves to show that the laws of the printer and the parser can hold
  of computable functions.
\<close>

section \<open>Printing\<close>

definition print_str :: "string \<Rightarrow> bytes" where
  "print_str s = concat (map (\<lambda>c. [1, of_char c]) s) @ [0]"

definition print_int :: "int \<Rightarrow> bytes" where
  "print_int i = (if i < 0 then 1 else 0) # replicate (nat \<bar>i\<bar>) 1 @ [0]"

fun print_json :: "json \<Rightarrow> bytes" where
  "print_json JNull = [0]"
| "print_json (JBool b) = [1, if b then 1 else 0]"
| "print_json (JNum i) = 2 # print_int i"
| "print_json (JFloat s) = 3 # print_str s"
| "print_json (JStr s) = 4 # print_str s"
| "print_json (JArr js) = 5 # concat (map (\<lambda>j. 1 # print_json j) js) @ [0]"
| "print_json (JObj ms) = 6 # concat (map (\<lambda>(k, j). 1 # print_str k @ print_json j) ms) @ [0]"

section \<open>Parsing\<close>

fun parse_str :: "bytes \<Rightarrow> (string \<times> bytes) option" where
  "parse_str [] = None"
| "parse_str (t # bs) =
     (if t = 0 then Some ([], bs)
      else case bs of [] \<Rightarrow> None | c # cs \<Rightarrow> do { (s, r) \<leftarrow> parse_str cs; Some (char_of (unat c) # s, r) })"

fun parse_ones :: "bytes \<Rightarrow> (nat \<times> bytes) option" where
  "parse_ones [] = None"
| "parse_ones (t # bs) =
     (if t = 0 then Some (0, bs) else do { (n, r) \<leftarrow> parse_ones bs; Some (Suc n, r) })"

definition parse_int :: "bytes \<Rightarrow> (int \<times> bytes) option" where
  "parse_int bs = (case bs of [] \<Rightarrow> None | t # cs \<Rightarrow>
     do { (n, r) \<leftarrow> parse_ones cs; Some (if t = 0 then int n else - int n, r) })"

fun parse_json :: "nat \<Rightarrow> bytes \<Rightarrow> (json \<times> bytes) option"
  and parse_items :: "nat \<Rightarrow> bytes \<Rightarrow> (json list \<times> bytes) option"
  and parse_members :: "nat \<Rightarrow> bytes \<Rightarrow> ((string \<times> json) list \<times> bytes) option" where
  "parse_json 0 bs = None"
| "parse_json (Suc n) bs = (case bs of [] \<Rightarrow> None | t # cs \<Rightarrow>
     if t = 0 then Some (JNull, cs)
     else if t = 1 then (case cs of [] \<Rightarrow> None | b # r \<Rightarrow> Some (JBool (b \<noteq> 0), r))
     else if t = 2 then do { (i, r) \<leftarrow> parse_int cs; Some (JNum i, r) }
     else if t = 3 then do { (s, r) \<leftarrow> parse_str cs; Some (JFloat s, r) }
     else if t = 4 then do { (s, r) \<leftarrow> parse_str cs; Some (JStr s, r) }
     else if t = 5 then do { (js, r) \<leftarrow> parse_items n cs; Some (JArr js, r) }
     else do { (ms, r) \<leftarrow> parse_members n cs; Some (JObj ms, r) })"
| "parse_items 0 bs = None"
| "parse_items (Suc n) bs = (case bs of [] \<Rightarrow> None | t # cs \<Rightarrow>
     if t = 0 then Some ([], cs)
     else do { (j, r) \<leftarrow> parse_json n cs; (js, r') \<leftarrow> parse_items n r; Some (j # js, r') })"
| "parse_members 0 bs = None"
| "parse_members (Suc n) bs = (case bs of [] \<Rightarrow> None | t # cs \<Rightarrow>
     if t = 0 then Some ([], cs)
     else do { (k, q) \<leftarrow> parse_str cs; (j, r) \<leftarrow> parse_json n q; (ms, r') \<leftarrow> parse_members n r;
       Some ((k, j) # ms, r') })"

lemma parse_print_str: "parse_str (print_str s @ r) = Some (s, r)"
proof -
  have "char_of (unat (of_char c :: u8)) = c" for c
    using demo_header [of "[c]"] by (simp add: header_bytes_def)
  then show ?thesis by (induction s) (simp_all add: print_str_def)
qed

lemma parse_print_int: "parse_int (print_int i @ r) = Some (i, r)"
proof -
  have "parse_ones (replicate n 1 @ 0 # r) = Some (n, r)" for n by (induction n) simp_all
  then show ?thesis by (simp add: parse_int_def print_int_def)
qed

lemma parse_print_json:
  "length (print_json j) \<le> n \<Longrightarrow> parse_json n (print_json j @ r) = Some (j, r)"
  "length (concat (map (\<lambda>j. 1 # print_json j) js)) < n \<Longrightarrow>
    parse_items n (concat (map (\<lambda>j. 1 # print_json j) js) @ 0 # r) = Some (js, r)"
  "length (concat (map (\<lambda>(k, j). 1 # print_str k @ print_json j) ms)) < n \<Longrightarrow>
    parse_members n (concat (map (\<lambda>(k, j). 1 # print_str k @ print_json j) ms) @ 0 # r) = Some (ms, r)"
proof (induction n arbitrary: j js ms r)
  case 0
  { case 1 then show ?case by (cases j) simp_all }
  { case 2 then show ?case by simp }
  { case 3 then show ?case by simp }
next
  case (Suc n)
  { case 1 then show ?case
      by (cases j) (simp_all add: parse_print_str parse_print_int Suc.IH) }
  { case 2 then show ?case
      by (cases js) (simp_all add: Suc.IH) }
  { case 3 then show ?case
      by (cases ms) (auto simp: parse_print_str Suc.IH) }
qed

definition demo_http :: http_lib where
  "demo_http =
     \<lparr>is_json_content_type = (\<lambda>c. c = Some ''application/json''),
      json_from_slice = (\<lambda>bs. case parse_json (length bs) bs of Some (j, []) \<Rightarrow> Some j | _ \<Rightarrow> None),
      json_to_vec = print_json, body_limit = 2097152,
      read_json = (\<lambda>ct bs. if ct = Some ''application/json'' \<and> length bs \<le> 2097152
        then (case parse_json (length bs) bs of Some (j, []) \<Rightarrow> Some j | _ \<Rightarrow> None) else None),
      json_rejection = (\<lambda>r ct bs. if ct \<noteq> Some ''application/json''
        then (UNSUPPORTED_MEDIA_TYPE, ''Expected a JSON body'')
        else if 2097152 < length bs then (PAYLOAD_TOO_LARGE, ''Body too large'')
        else (UNPROCESSABLE_ENTITY, ''Unexpected body''))\<rparr>"

lemma demo_http_laws [simp]: "http_laws demo_http"
  using parse_print_json(1) [where r = "[]"] by (simp add: http_laws_def demo_http_def less_eq_status_code_def less_status_code_def)

end
