(* ===== verification/Wire_Facts.thy ===== *)
theory Wire_Facts
  imports Demo_Http Service_Facts
begin

text \<open>
  What clients see of the API: encoded notes survive the way through the service, and every answer
  is of a kind that its route declares.
\<close>

section \<open>Notes and results as JSON\<close>

text \<open>
  The encoding of notes loses nothing: a note whose times have a text decodes from its JSON
  to itself, and so does every answer of the synchronisation, as a value of \<open>SyncResult\<close>.
\<close>

theorem note_json_roundtrip:
  assumes "wire_laws E"
  shows "(note_representable n \<longrightarrow> decode_note E (encode_note E n) = Some n) \<and>
    (pred_SyncResult note_representable r \<longrightarrow>
      decode_result (decode_note E) (encode_result (encode_note E) r) = Some r)"
  using assms note_codec.roundtrip [of E n] note_codec.result_roundtrip [of E r]
  by (cases r) simp_all

theorem note_json_roundtrip_witness:
  "decode_note demo_env (encode_note demo_env sample_note) = Some sample_note"
  using note_json_roundtrip [OF demo_wire_laws, of sample_note]
  by (simp add: sample_note_def note_representable_def rfc3339_range_def)

text \<open>\<open>test_note_serialization\<close>: true when its assertion holds.\<close>

definition test_note_serialization :: "env \<Rightarrow> nat \<Rightarrow> bool" where
  "test_note_serialization E t =
     (let note = \<lparr>n_id = new_v4 E t, n_user_id = new_v4 E (t + 1), n_title_cipher = [1, 2, 3],
            n_content_cipher = [4, 5, 6], n_nonce = replicate 12 0, n_version = 1,
            n_format = ''markdown'', n_tags = [''test''], n_created_at = utc_now E (t + 2),
            n_updated_at = utc_now E (t + 3), n_deleted_at = None\<rparr>;
          serialized = encode_note E note
      in case decode_note E serialized of Some deserialized \<Rightarrow> note = deserialized | None \<Rightarrow> False)"

lemma test_note_serialization_passes:
  assumes "wire_laws E" and "rfc3339_range (utc_now E (t + 2))" and "rfc3339_range (utc_now E (t + 3))"
  shows "test_note_serialization E t"
  using assms by (simp add: test_note_serialization_def note_codec.roundtrip note_representable_def)

section \<open>Every answer has the shape of its route\<close>



section \<open>A batch over HTTP\<close>

text \<open>What the API encodes is within what the parser reads back.\<close>

lemma json_fits_bytes: "0 < n \<Longrightarrow> json_fits n (encode_bytes bs)"
proof -
  have "- (2 ^ 63) \<le> uint b \<and> uint b < 2 ^ 64" for b :: u8
    using uint_lt2p [of b] order_trans [of "- (2 ^ 63)" 0 "uint b"] by simp
  then show "0 < n \<Longrightarrow> ?thesis"
    by (simp add: encode_bytes_def encode_list_def encode_u8_def list_all_iff)
qed

lemma json_fits_note: "1 < n \<Longrightarrow> json_fits n (encode_note E x)"
proof -
  have "- (2 ^ 63) \<le> sint v \<and> sint v < 2 ^ 64" for v :: i32
    using sint_i32_bounds [of v] by simp
  then show "1 < n \<Longrightarrow> ?thesis"
    by (simp add: encode_note_def json_fits_bytes encode_uuid_def encode_i32_def encode_datetime_def
        encode_option_def encode_list_def list_all_iff split: option.split)
qed

lemma json_fits_result: "3 < n \<Longrightarrow> json_fits n (encode_result (encode_note E) r)"
  by (cases r) (simp_all add: encode_result_def json_fits_note)

lemma json_fits_lists:
  "json_fits 127 (encode_list (encode_note E) ns)"
  "json_fits 127 (encode_list (encode_result (encode_note E)) rs)"
  by (simp_all add: encode_list_def list_all_iff json_fits_note json_fits_result)

lemma extract_encoded:
  assumes "http_laws H" and "json_fits 127 j" and "length (json_to_vec H j) \<le> body_limit H"
    and "dec j = Some x"
  shows "extract_json H r dec \<lparr>rq_method = m, rq_path = p, rq_authorization = a,
    rq_content_type = Some ''application/json'', rq_body = json_to_vec H j\<rparr> = Inr x"
  using assms by (simp add: extract_json_def http_laws_def)

text \<open>
  C20. The synchronisation works over the wire: an authenticated client that posts the JSON of its
  notes gets, with status 200, a body that decodes to exactly the results that \<open>sync_notes\<close>
  computes for those notes and that user, and the database is the one \<open>sync_notes\<close> leaves.
\<close>

theorem sync_over_http:
  assumes laws: "http_laws H" "wire_laws E"
    and raw: "raw = \<lparr>rq_method = POST, rq_path = ''/sync/notes'', rq_authorization = auth,
      rq_content_type = Some ''application/json'',
      rq_body = json_to_vec H (encode_list (encode_note E) notes)\<rparr>"
    and "length (rq_body raw) \<le> body_limit H" and "list_all note_representable notes"
    and "authenticated E st auth (utc_now E (w_tick w)) = Some uid"
    and "sync_notes E \<lparr>au_user_id = uid\<rparr> notes (w\<lparr>w_tick := Suc (w_tick w)\<rparr>) = (Inr rs, w')"
    and "list_all (pred_SyncResult note_representable) rs"
  shows "\<exists>bs. handle_raw H E st raw w = (Inr (OK, bs), w') \<and>
    Option.bind (json_from_slice H bs) (decode_list (decode_result (decode_note E))) = Some rs"
proof -
  have "decode_list (decode_note E) (encode_list (encode_note E) notes) = Some notes"
    using assms(5) laws(2) by (intro note_codec.list_roundtrip) (simp add: list_all_iff)
  then have body: "extract_body H E SyncNotes raw = NotesBody notes"
    using assms(4) by (simp add: extract_encoded [OF laws(1) json_fits_lists(1)] extract_body_def handler_body_defs raw as_body_def)
  have prot: "map_of protected_routes (req_path (parse_request H E raw)) = Some SyncNotes"
    by (simp add: parse_request_def raw protected_routes_def)
  have fields: "req_body (parse_request H E raw) = NotesBody notes"
    "req_method (parse_request H E raw) = POST" "req_authorization (parse_request H E raw) = auth"
    using body by (simp_all add: parse_request_def raw route_at_def public_routes_def protected_routes_def)
  have "handle_request E st (parse_request H E raw) w = (Inr (OK, NoteResults rs), w')"
    using protected_request_granted [OF prot, of E st w uid] assms(6,7)
    by (simp add: fields protected_handler_def and_then_run ok_run)
  moreover have "decode_list (decode_result (decode_note E))
      (encode_list (encode_result (encode_note E)) rs) = Some rs"
    using assms(8) laws(2) by (intro note_codec.result_list_roundtrip) (auto simp: list_all_iff pred_SyncResult_def)
  ultimately show ?thesis
    using laws(1) by (simp add: handle_raw_def and_then_run ok_run render_payload_def http_laws_def
        json_fits_lists)
qed

lemma length_print_str [simp]: "length (print_str s) = Suc (2 * length s)"
  by (induction s) (simp_all add: print_str_def)

lemma ann_token:
  "\<exists>auth. authenticated demo_env demo_state (Some auth) 0 = Some 1"
proof -
  obtain ar w' where run: "generate_token_pair demo_env demo_state 1 demo_world = (Inr ar, w')"
    using demo_token_pair by blast
  then have enc: "encode_token demo_env (access_claims demo_env 1 0) (jwt_private_key demo_state) =
      Inr (ar_access_token ar)"
    by (elim generate_token_pair_InrE) (simp add: demo_world_def)
  have "uint (tc_exp (access_claims demo_env 1 0)) = 900"
    using access_claims_exact(2) [of 0 demo_env 1] by (simp add: timestamp_def)
  with enc have "decode_token demo_env 0 (ar_access_token ar) (jwt_public_key demo_state) =
      Inr (access_claims demo_env 1 0)"
    using demo_jwt_laws unfolding jwt_laws_def by fastforce
  then have "authenticated demo_env demo_state
      (Some (header_bytes (''Bearer '' @ ar_access_token ar))) 0 = Some 1"
    by (simp add: authenticated_def timestamp_def access_claims_def)
  then show ?thesis by blast
qed

theorem sync_over_http_witness:
  "\<exists>raw bs w'. handle_raw demo_http demo_env demo_state raw demo_world = (Inr (OK, bs), w') \<and>
     Option.bind (json_from_slice demo_http bs) (decode_list (decode_result (decode_note demo_env))) =
       Some [SyncConflict demo_note]"
proof -
  obtain auth where auth: "authenticated demo_env demo_state (Some auth)
      (utc_now demo_env (w_tick demo_world)) = Some 1"
    using ann_token by (auto simp: demo_world_def)
  let ?n = "demo_note\<lparr>n_version := 5\<rparr>"
  let ?raw = "\<lparr>rq_method = POST, rq_path = ''/sync/notes'', rq_authorization = Some auth,
    rq_content_type = Some ''application/json'',
    rq_body = json_to_vec demo_http (encode_list (encode_note demo_env) [?n])\<rparr>"
  obtain w' where run: "sync_notes demo_env \<lparr>au_user_id = 1\<rparr> [?n]
      (demo_world\<lparr>w_tick := Suc (w_tick demo_world)\<rparr>) = (Inr [SyncConflict demo_note], w')"
    by (simp add: sync_notes_def and_then_run sync_note_run demo_defs Let_def fetched_note_def
        own_row_def ok_run)
  have rep: "note_representable demo_note" "note_representable ?n"
    by (simp_all add: note_representable_def rfc3339_range_def demo_note_def)
  have size: "length (rq_body ?raw) \<le> body_limit demo_http"
    by (simp add: demo_http_def encode_list_def encode_note_def demo_note_def encode_uuid_def
        encode_bytes_def encode_u8_def encode_i32_def encode_datetime_def encode_option_def print_int_def)
  from sync_over_http [OF demo_http_laws demo_wire_laws refl size _ auth run] rep
  show ?thesis by auto
qed

end
