(* ===== verification/Client_Crypto.thy ===== *)
theory Client_Crypto
  imports Crypto
begin

text \<open>
  The encryption of the Flutter client (\<open>vault_crypto_service.dart\<close>) beside the crate
  \<open>crates/crypto\<close>, whose documentation offers it for the recovery of client data: the two blob
  formats and the two key derivations.
\<close>

section \<open>The client's service\<close>

text \<open>
  What the client uses of the package \<open>cryptography\<close>: AES-256-GCM with the ciphertext and the tag
  apart, nonces, and Argon2id with its parallelism, memory, iterations and length.
\<close>

record dart_crypto =
  dc_nonce :: "nat \<Rightarrow> bytes"
  dc_encrypt :: "bytes \<Rightarrow> bytes \<Rightarrow> bytes \<Rightarrow> bytes \<times> bytes"
  dc_decrypt :: "bytes \<Rightarrow> bytes \<Rightarrow> bytes \<Rightarrow> bytes \<Rightarrow> bytes option"
  dc_argon2id :: "nat \<Rightarrow> nat \<Rightarrow> nat \<Rightarrow> nat \<Rightarrow> bytes \<Rightarrow> bytes \<Rightarrow> bytes"

datatype vault_error = BlobTooShort | AuthenticationFailed

definition client_derive_key :: "dart_crypto \<Rightarrow> string \<Rightarrow> bytes \<Rightarrow> bytes" where
  "client_derive_key C password salt = dc_argon2id C 1 19456 2 32 (str_bytes password) salt"

definition client_encrypt :: "dart_crypto \<Rightarrow> nat \<Rightarrow> bytes \<Rightarrow> bytes \<Rightarrow> bytes" where
  "client_encrypt C t key data =
     (let nonce = dc_nonce C t; (cipher_text, mac) = dc_encrypt C key nonce data
      in nonce @ mac @ cipher_text)"

text \<open>\<open>sublist\<close> is an error beyond the end of the list.\<close>

definition client_decrypt :: "dart_crypto \<Rightarrow> bytes \<Rightarrow> bytes \<Rightarrow> vault_error + bytes" where
  "client_decrypt C encrypted_data key =
     (if length encrypted_data < 28 then Inl BlobTooShort
      else let nonce = take 12 encrypted_data; mac = take 16 (drop 12 encrypted_data);
               cipher_text = drop 28 encrypted_data
           in case dc_decrypt C key nonce cipher_text mac of
                None \<Rightarrow> Inl AuthenticationFailed
              | Some clear \<Rightarrow> Inr clear)"

section \<open>Both sides implement the same algorithms\<close>

text \<open>
  AES-256-GCM: under a 32-byte key and a 12-byte nonce, the crate's ciphertext (it refuses plaintexts
  beyond the limit of the standard) is the client's followed by the 16-byte tag, and decryption
  accepts exactly what encryption gives. Argon2id: equal parameters, password and salt give equal
  keys; \<open>SaltString\<close> keeps the text it is made of.
\<close>

definition dart_gcm :: "dart_crypto \<Rightarrow> bool" where
  "dart_gcm C \<longleftrightarrow>
     (\<forall>t. length (dc_nonce C t) = 12) \<and>
     (\<forall>key n p. length key = 32 \<and> length n = 12 \<longrightarrow> length (snd (dc_encrypt C key n p)) = 16) \<and>
     (\<forall>key n x m p. length key = 32 \<and> length n = 12 \<longrightarrow>
        (dc_decrypt C key n x m = Some p \<longleftrightarrow> dc_encrypt C key n p = (x, m)))"

definition same_gcm :: "'c aead \<Rightarrow> dart_crypto \<Rightarrow> bool" where
  "same_gcm A C \<longleftrightarrow> dart_gcm C \<and>
     (\<forall>key c n p x. new_from_slice A key = Some c \<and> length n = 12 \<and> cipher_encrypt A c n p = Some x \<longrightarrow>
        x = fst (dc_encrypt C key n p) @ snd (dc_encrypt C key n p))"

definition same_argon2 :: "'p kdf \<Rightarrow> dart_crypto \<Rightarrow> bool" where
  "same_argon2 K C \<longleftrightarrow>
     (\<forall>s s'. salt_from_b64 K s = Inr s' \<longrightarrow> s' = s) \<and>
     (\<forall>p pw salt bs. params_new K 19456 2 1 (Some 32) = Inr p \<and>
        hash_password_into K p pw salt 32 = Inr bs \<longrightarrow> bs = dc_argon2id C 1 19456 2 32 pw salt)"

lemma same_gcm_encrypt:
  assumes "same_gcm A C" and "new_from_slice A key = Some c" and "length n = 12"
    and "cipher_encrypt A c n p = Some x"
  shows "x = fst (dc_encrypt C key n p) @ snd (dc_encrypt C key n p)"
  using assms unfolding same_gcm_def by blast

lemma dart_gcm_facts:
  assumes "dart_gcm C"
  shows "length (dc_nonce C t) = 12"
    and "length key = 32 \<Longrightarrow> length n = 12 \<Longrightarrow> length (snd (dc_encrypt C key n p)) = 16"
    and "length key = 32 \<Longrightarrow> length n = 12 \<Longrightarrow>
      dc_decrypt C key n (fst (dc_encrypt C key n p)) (snd (dc_encrypt C key n p)) = Some p"
  using assms by (simp_all add: dart_gcm_def)

text \<open>A blob of the client is nonce, tag and ciphertext, and opens to what was put in.\<close>

lemma client_decrypt_parts:
  assumes "dart_gcm C" and "length key = 32" and "length n = 12"
  shows "client_decrypt C (n @ snd (dc_encrypt C key n p) @ fst (dc_encrypt C key n p)) key = Inr p"
  using assms by (simp add: client_decrypt_def Let_def dart_gcm_facts)

lemma client_encrypt_parts:
  "client_encrypt C t key p =
     dc_nonce C t @ snd (dc_encrypt C key (dc_nonce C t) p) @ fst (dc_encrypt C key (dc_nonce C t) p)"
  by (simp add: client_encrypt_def Let_def case_prod_unfold)

lemma client_decrypt_encrypt:
  "dart_gcm C \<Longrightarrow> length key = 32 \<Longrightarrow> client_decrypt C (client_encrypt C t key p) key = Inr p"
  by (simp add: client_encrypt_parts client_decrypt_parts dart_gcm_facts)

text \<open>The conversions: the crate keeps the tag behind the ciphertext and the nonce apart.\<close>

definition crate_form :: "bytes \<Rightarrow> bytes \<times> bytes" where
  "crate_form blob = (drop 28 blob @ take 16 (drop 12 blob), take 12 blob)"

definition client_form :: "bytes \<times> bytes \<Rightarrow> bytes" where
  "client_form entry =
     (let (x, n) = entry; l = length x - 16 in n @ drop l x @ take l x)"

text \<open>
  C32. The two blob formats convert into each other. Whatever \<open>encrypt_entry\<close> returns decrypts to its
  plaintext, in the crate, and also in the client once nonce, tag and ciphertext are put in the
  client's order; and a blob of the client whose plaintext the crate's cipher takes is, with the
  nonce apart and the tag behind the ciphertext, an entry that \<open>decrypt_entry\<close> opens.
\<close>

theorem client_and_crate_interoperate:
  assumes laws: "aead_laws A" "same_gcm A C"
    and enc: "encrypt_entry A u m k = Inr entry"
    and len: "new_from_slice A (as_bytes k) = Some c" "cipher_encrypt A c (dc_nonce C t) m \<noteq> None"
  shows "decrypt_entry A (fst entry) (snd entry) k = Inr m \<and>
    client_decrypt C (client_form entry) (as_bytes k) = Inr m \<and>
    client_decrypt C (client_encrypt C t (as_bytes k) m) (as_bytes k) = Inr m \<and>
    decrypt_entry A (fst (crate_form (client_encrypt C t (as_bytes k) m)))
      (snd (crate_form (client_encrypt C t (as_bytes k) m))) k = Inr m"
proof -
  note key = aead_keyD [OF laws(1) len(1)]
  have gcm: "dart_gcm C" using laws(2) by (simp add: same_gcm_def)
  note nonce = dart_gcm_facts(1) [OF gcm, of t] and tag = dart_gcm_facts(2) [OF gcm key]
  obtain x n where x: "entry = (x, n)" "cipher_encrypt A c n m = Some x" "length n = 12"
    using enc len(1) aead_nonce_length [OF laws(1)]
    by (auto simp: encrypt_entry_def Let_def split: option.splits)
  obtain y where y: "cipher_encrypt A c (dc_nonce C t) m = Some y" using len(2) by blast
  have form: "client_form (x, n) = n @ snd (dc_encrypt C (as_bytes k) n m) @ fst (dc_encrypt C (as_bytes k) n m)"
    using same_gcm_encrypt [OF laws(2) len(1) x(3) x(2)] tag [OF x(3)]
    by (simp add: client_form_def Let_def)
  have moved: "crate_form (client_encrypt C t (as_bytes k) m) = (y, dc_nonce C t)"
    using same_gcm_encrypt [OF laws(2) len(1) nonce y] nonce tag [OF nonce]
    by (simp add: crate_form_def client_encrypt_parts)
  have "decrypt_entry A z w k = Inr m" if "cipher_encrypt A c w m = Some z" "length w = 12" for z w
    using that len(1) laws(1) by (simp add: decrypt_entry_def aead_nonce_iter aead_decryptI)
  with x y nonce show ?thesis
    by (simp add: form moved client_decrypt_parts [OF gcm key] client_decrypt_encrypt [OF gcm key])
qed

text \<open>
  The key derivations agree on the bytes of the salt's text: the crate hashes the Base64 characters
  of the salt it is given, the client the salt's raw bytes, so a key derived by the crate is the
  client's key for another salt.
\<close>

lemma crate_key_is_client_key_of_text:
  assumes "same_argon2 K C" and "derive_key K password salt_b64 = Inr k"
  shows "as_bytes k = client_derive_key C password (str_bytes salt_b64)"
proof -
  have "vk_inner k = dc_argon2id C 1 19456 2 32 (str_bytes password) (str_bytes salt_b64)"
    using assms by (fastforce simp: derive_key_def same_argon2_def vault_key_new_Inr_iff split: sum.splits)
  then show ?thesis by (simp add: as_bytes_def client_derive_key_def)
qed

section \<open>Concrete instances\<close>

definition demo_dart_crypto :: dart_crypto where
  "demo_dart_crypto =
     \<lparr>dc_nonce = (\<lambda>t. replicate 12 (of_nat t)),
      dc_encrypt = (\<lambda>key n p. (p, take 16 (take 16 key @ replicate 16 0))),
      dc_decrypt = (\<lambda>key n x m. if m = take 16 (take 16 key @ replicate 16 0) then Some x else None),
      dc_argon2id = (\<lambda>par mem it n pw s. take n (pw @ s @ replicate n 0))\<rparr>"

lemma demo_same_gcm: "same_gcm demo_aead demo_dart_crypto"
  by (auto simp: same_gcm_def dart_gcm_def demo_aead_def demo_dart_crypto_def split: if_splits)

theorem client_and_crate_interoperate_witness:
  "\<exists>entry. encrypt_entry demo_aead 3 [1, 2, 3] demo_key = Inr entry \<and>
     client_decrypt demo_dart_crypto (client_form entry) (as_bytes demo_key) = Inr [1, 2, 3]"
proof -
  obtain entry where entry: "encrypt_entry demo_aead 3 [1, 2, 3] demo_key = Inr entry"
    by (simp add: encrypt_entry_def demo_aead_def demo_key_def as_bytes_def)
  have "new_from_slice demo_aead (as_bytes demo_key) = Some (take 16 (as_bytes demo_key))"
    by (simp add: demo_aead_def demo_key_def as_bytes_def)
  moreover have "cipher_encrypt demo_aead (take 16 (as_bytes demo_key)) (dc_nonce demo_dart_crypto 5) [1, 2, 3] \<noteq> None"
    by (simp add: demo_aead_def)
  ultimately show ?thesis
    using client_and_crate_interoperate [OF demo_aead_laws demo_same_gcm entry] entry by blast
qed

lemma crate_key_demo:
  "\<exists>k. derive_key demo_kdf ''hunter2'' ''c29tZXNhbHRzdHJpbmcxMj'' = Inr k \<and>
     as_bytes k = client_derive_key demo_dart_crypto ''hunter2'' (str_bytes ''c29tZXNhbHRzdHJpbmcxMj'')"
proof -
  have "same_argon2 demo_kdf demo_dart_crypto"
    by (auto simp: same_argon2_def demo_kdf_def demo_dart_crypto_def split: if_splits)
  moreover obtain k where "derive_key demo_kdf ''hunter2'' ''c29tZXNhbHRzdHJpbmcxMj'' = Inr k"
    by (simp add: derive_key_def demo_kdf_def vault_key_new_def str_bytes_def)
  ultimately show ?thesis by (blast intro: crate_key_is_client_key_of_text)
qed

end
