(* ===== verification/Flutter_Client.thy ===== *)
theory Flutter_Client
  imports Wire
begin

text \<open>
  The calls that the Flutter client (\<open>apps/flutter/lib\<close>) makes to the API: login and registration
  (\<open>auth_repository_impl.dart\<close>, \<open>auth_session.dart\<close>) and the synchronisation of notes
  (\<open>sync_service.dart\<close>), each as a run of the client against the service of \<open>Wire\<close>. What the
  device keeps of a session is in \<open>Client_Session\<close>.
\<close>

section \<open>Dart and Dio\<close>

text \<open>
  What the client uses of its libraries: \<open>jsonEncode\<close>, \<open>jsonDecode\<close> (texts are their UTF-8 bytes),
  \<open>base64Encode\<close>, \<open>toIso8601String\<close>, \<open>trim\<close> and \<open>length\<close> of texts, the clock behind
  \<open>_generateTempUuid\<close>, and the statuses that \<open>dio\<close> takes for a success.
\<close>

record dart_lib =
  json_encode :: "json \<Rightarrow> bytes"
  json_decode :: "bytes \<Rightarrow> json option"
  base64_encode :: "bytes \<Rightarrow> string"
  to_iso8601 :: "datetime \<Rightarrow> string"
  dart_trim :: "string \<Rightarrow> string"
  dart_length :: "string \<Rightarrow> nat"
  temp_uuid :: string
  validate_status :: "status_code \<Rightarrow> bool"

text \<open>
  What either side prints, both parse to the same value; \<open>dio\<close> accepts the statuses from 200 to 299.
\<close>

definition dart_laws :: "http_lib \<Rightarrow> dart_lib \<Rightarrow> bool" where
  "dart_laws H D \<longleftrightarrow>
     (\<forall>j. json_fits 127 j \<longrightarrow>
        json_from_slice H (json_encode D j) = Some j \<and> json_decode D (json_to_vec H j) = Some j \<and>
        json_decode D (json_encode D j) = Some j) \<and>
     (\<forall>s. validate_status D s \<longleftrightarrow> 200 \<le> status_number s \<and> status_number s < 300)"

text \<open>The exceptions that end a call: no response, a status that is no success, a body that is
  not JSON, a value of another type than the code expects, an index out of range.\<close>

datatype client_error = ConnectionClosed | BadResponse status_code | FormatException | TypeError | RangeError

text \<open>The client of \<open>api_client.dart\<close> sends JSON, and no \<open>Authorization\<close> header.\<close>

definition client_request :: "dart_lib \<Rightarrow> string \<Rightarrow> json \<Rightarrow> raw_request" where
  "client_request D path data =
     \<lparr>rq_method = POST, rq_path = path, rq_authorization = None,
      rq_content_type = Some ''application/json'', rq_body = json_encode D data\<rparr>"

definition dio_post ::
    "http_lib \<Rightarrow> env \<Rightarrow> app_state \<Rightarrow> dart_lib \<Rightarrow> string \<Rightarrow> json \<Rightarrow> (world, client_error, json) act" where
  "dio_post H E st D path data = (\<lambda>w.
     case handle_raw H E st (client_request D path data) w of
       (Inl p, w') \<Rightarrow> (Inl ConnectionClosed, w')
     | (Inr (s, bs), w') \<Rightarrow>
         (if \<not> validate_status D s then (Inl (BadResponse s), w')
          else case json_decode D bs of
            None \<Rightarrow> (Inl FormatException, w')
          | Some j \<Rightarrow> (Inr j, w')))"

text \<open>\<open>j['k']\<close> on a dynamic value: a missing member is \<open>null\<close>, and only a map has members.\<close>

definition dart_index :: "json \<Rightarrow> string \<Rightarrow> json option" where
  "dart_index j k = (case j of
     JObj ms \<Rightarrow> Some (case map_of (rev ms) k of None \<Rightarrow> JNull | Some v \<Rightarrow> v)
   | _ \<Rightarrow> None)"

definition as_string :: "json \<Rightarrow> string option" where
  "as_string j = (case j of JStr s \<Rightarrow> Some s | _ \<Rightarrow> None)"

section \<open>Sessions\<close>

record UserModel =
  um_id :: string
  um_email :: string
  um_username :: string

record AuthSession =
  as_access_token :: string
  as_refresh_token :: string
  as_user :: UserModel

definition user_from_json :: "json \<Rightarrow> UserModel option" where
  "user_from_json j = do {
     f_id \<leftarrow> Option.bind (dart_index j ''id'') as_string;
     f_email \<leftarrow> Option.bind (dart_index j ''email'') as_string;
     f_username \<leftarrow> Option.bind (dart_index j ''username'') as_string;
     Some \<lparr>um_id = f_id, um_email = f_email, um_username = f_username\<rparr> }"

definition session_from_json :: "json \<Rightarrow> AuthSession option" where
  "session_from_json j = do {
     f_access \<leftarrow> Option.bind (dart_index j ''accessToken'') as_string;
     f_refresh \<leftarrow> Option.bind (dart_index j ''refreshToken'') as_string;
     f_user \<leftarrow> Option.bind (dart_index j ''user'') user_from_json;
     Some \<lparr>as_access_token = f_access, as_refresh_token = f_refresh, as_user = f_user\<rparr> }"

definition login_data :: "string \<Rightarrow> string \<Rightarrow> json" where
  "login_data email password = JObj [(''email'', JStr email), (''password'', JStr password)]"

definition register_data :: "string \<Rightarrow> string \<Rightarrow> string \<Rightarrow> json" where
  "register_data email username password =
     JObj [(''email'', JStr email), (''username'', JStr username), (''password'', JStr password)]"

text \<open>\<open>login\<close> and \<open>register\<close> of the repository, up to the session that they store and return.\<close>

definition client_login ::
    "http_lib \<Rightarrow> env \<Rightarrow> app_state \<Rightarrow> dart_lib \<Rightarrow> string \<Rightarrow> string \<Rightarrow>
      (world, client_error, AuthSession) act" where
  "client_login H E st D email password =
     and_then (dio_post H E st D ''/auth/login'' (login_data email password)) (\<lambda>data.
       ok_or TypeError (session_from_json data))"

definition client_register ::
    "http_lib \<Rightarrow> env \<Rightarrow> app_state \<Rightarrow> dart_lib \<Rightarrow> string \<Rightarrow> string \<Rightarrow> string \<Rightarrow>
      (world, client_error, AuthSession) act" where
  "client_register H E st D email username password =
     and_then (dio_post H E st D ''/auth/register'' (register_data email username password)) (\<lambda>data.
       ok_or TypeError (session_from_json data))"

lemma auth_response_no_session: "session_from_json (encode_auth_response a) = None"
  by (simp add: session_from_json_def encode_auth_response_def dart_index_def as_string_def)

lemma error_not_success: "dart_laws H D \<Longrightarrow> error_ok e \<Longrightarrow> \<not> validate_status D (fst e)"
  by (simp add: dart_laws_def error_ok_def less_eq_status_code_def)

text \<open>
  An \<open>auth\<close> handler whose body is read from \<open>data\<close>, called by the client: the database is the
  handler's, and the client has no session.
\<close>

lemma auth_call_fails:
  assumes laws: "dart_laws H D"
    and handled: "handle_request E st (parse_request H E (client_request D path data)) w = into_response m w"
    and errors: "errors_ok m"
    and answers: "\<And>s a w'. m w = (Inr (s, a), w') \<Longrightarrow> ar_expires_in a = 900"
  shows "\<exists>e. and_then (dio_post H E st D path data) (\<lambda>d. ok_or TypeError (session_from_json d)) w =
    (Inl e, snd (m w))"
proof (cases "m w")
  case (Pair r w')
  show ?thesis
  proof (cases r)
    case (Inl e)
    with errors Pair have "error_ok e" unfolding errors_ok_def by metis
    then have "\<not> validate_status D (fst e)" by (rule error_not_success [OF laws])
    then show ?thesis
      using Pair Inl
      by (auto simp: and_then_run dio_post_def handle_raw_def handled into_response_def attempt_run
          ok_run split: prod.splits)
  next
    case (Inr x)
    obtain s a where x: "x = (s, a)" by fastforce
    with answers Pair Inr have "json_fits 127 (encode_auth_response a)"
      by (simp add: encode_auth_response_def)
    then have "json_decode D (json_to_vec H (encode_auth_response a)) = Some (encode_auth_response a)"
      using laws by (simp add: dart_laws_def)
    then show ?thesis
      using Pair Inr x
      by (auto simp: and_then_run dio_post_def handle_raw_def handled into_response_def attempt_run
          ok_run render_payload_def ok_or_run auth_response_no_session)
  qed
qed

lemma client_parses:
  assumes "http_laws H" and "dart_laws H D" and "json_fits 127 data" and "dec data = Some x"
    and "length (json_encode D data) \<le> body_limit H"
  shows "extract_json H r dec (client_request D path data) = Inr x"
  using assms by (simp add: extract_json_def client_request_def http_laws_def dart_laws_def)

lemma client_login_request:
  assumes "http_laws H" and "dart_laws H D"
    and "length (json_encode D (login_data email password)) \<le> body_limit H"
  shows "handle_request E st (parse_request H E (client_request D ''/auth/login'' (login_data email password))) =
    into_response (login E st \<lparr>lr_email = email, lr_password = password\<rparr>)"
proof -
  have "decode_login_request (login_data email password) = Some \<lparr>lr_email = email, lr_password = password\<rparr>"
    by (simp add: login_data_def decode_login_request_def login_request_members_def codec_simps)
  note parses = client_parses [where dec = decode_login_request and data = "login_data email password",
      OF assms(1,2) _ this assms(3)]
  have "extract_json H Login decode_login_request (client_request D ''/auth/login'' (login_data email password)) =
      Inr \<lparr>lr_email = email, lr_password = password\<rparr>" by (rule parses) (simp add: login_data_def)
  then show ?thesis
    by (simp add: handle_request_def parse_request_def client_request_def route_at_def public_routes_def
        extract_body_def handler_body_defs as_body_def public_handler_def)
qed

lemma client_register_request:
  assumes "http_laws H" and "dart_laws H D"
    and "length (json_encode D (register_data email username password)) \<le> body_limit H"
  shows "handle_request E st (parse_request H E
      (client_request D ''/auth/register'' (register_data email username password))) =
    into_response (register E st \<lparr>rr_email = email, rr_password = password, rr_display_name = None\<rparr>)"
proof -
  have "decode_register_request (register_data email username password) =
      Some \<lparr>rr_email = email, rr_password = password, rr_display_name = None\<rparr>"
    by (simp add: register_data_def decode_register_request_def register_request_members_def
        codec_simps optional_member_def)
  note parses = client_parses [where dec = decode_register_request and data = "register_data email username password",
      OF assms(1,2) _ this assms(3)]
  have "extract_json H Register decode_register_request
      (client_request D ''/auth/register'' (register_data email username password)) =
      Inr \<lparr>rr_email = email, rr_password = password, rr_display_name = None\<rparr>"
    by (rule parses) (simp add: register_data_def)
  then show ?thesis
    by (simp add: handle_request_def parse_request_def client_request_def route_at_def public_routes_def
        extract_body_def handler_body_defs as_body_def public_handler_def)
qed

lemma auth_answers_expire:
  "login E st q w = (Inr (s, a), w') \<Longrightarrow> ar_expires_in a = 900"
  "register E st q' w = (Inr (s, a), w') \<Longrightarrow> ar_expires_in a = 900"
  by (auto elim!: login_InrE register_InrE generate_token_pair_InrE)

section \<open>Synchronisation\<close>

text \<open>A row of the client's table \<open>NoteEntries\<close>.\<close>

record NoteEntry =
  ne_id :: int
  ne_server_id :: "string option"
  ne_title_cipher :: bytes
  ne_content_cipher :: bytes
  ne_nonce :: bytes
  ne_version :: int
  ne_created_at :: datetime
  ne_updated_at :: datetime
  ne_is_synced :: bool

definition zero_uuid :: string where
  "zero_uuid = ''00000000-0000-0000-0000-000000000000''"

definition note_data :: "dart_lib \<Rightarrow> NoteEntry \<Rightarrow> json" where
  "note_data D n = JObj
     [(''id'', JStr (case ne_server_id n of None \<Rightarrow> temp_uuid D | Some i \<Rightarrow> i)),
      (''user_id'', JStr zero_uuid),
      (''title_cipher'', JStr (base64_encode D (ne_title_cipher n))),
      (''content_cipher'', JStr (base64_encode D (ne_content_cipher n))),
      (''nonce'', JStr (base64_encode D (ne_nonce n))),
      (''version'', JNum (ne_version n)),
      (''created_at'', JStr (to_iso8601 D (ne_created_at n))),
      (''updated_at'', JStr (to_iso8601 D (ne_updated_at n)))]"

text \<open>\<open>Uint8List.fromList(List<int>.from(v))\<close>: a list of integers, each cut to a byte.\<close>

definition dart_bytes :: "json \<Rightarrow> bytes option" where
  "dart_bytes j = (case j of
     JArr vs \<Rightarrow> those (map (\<lambda>v. case v of JNum i \<Rightarrow> Some (word_of_int i) | _ \<Rightarrow> None) vs)
   | _ \<Rightarrow> None)"

definition dart_int :: "json \<Rightarrow> int option" where
  "dart_int j = (case j of JNum i \<Rightarrow> Some i | _ \<Rightarrow> None)"

text \<open>A value for a nullable text column.\<close>

definition dart_nullable_string :: "json \<Rightarrow> string option option" where
  "dart_nullable_string j = (case j of JNull \<Rightarrow> Some None | JStr s \<Rightarrow> Some (Some s) | _ \<Rightarrow> None)"

text \<open>
  One result of the answer: what is written into the row of the note it is about; \<open>None\<close> is a
  \<open>TypeError\<close>.
\<close>

definition apply_result :: "json \<Rightarrow> (NoteEntry \<Rightarrow> NoteEntry) option" where
  "apply_result result = do {
     success \<leftarrow> dart_index result ''Success'';
     if success \<noteq> JNull then do {
       sid \<leftarrow> Option.bind (dart_index success ''id'') dart_nullable_string;
       v \<leftarrow> Option.bind (dart_index success ''version'') dart_int;
       Some (\<lambda>n. n\<lparr>ne_is_synced := True, ne_server_id := sid, ne_version := v\<rparr>) }
     else do {
       conflict \<leftarrow> dart_index result ''Conflict'';
       if conflict \<noteq> JNull then do {
         srv \<leftarrow> dart_index conflict ''server_version'';
         title \<leftarrow> Option.bind (dart_index srv ''title_cipher'') dart_bytes;
         content \<leftarrow> Option.bind (dart_index srv ''content_cipher'') dart_bytes;
         nonce \<leftarrow> Option.bind (dart_index srv ''nonce'') dart_bytes;
         v \<leftarrow> Option.bind (dart_index srv ''version'') dart_int;
         sid \<leftarrow> Option.bind (dart_index srv ''id'') dart_nullable_string;
         Some (\<lambda>n. n\<lparr>ne_title_cipher := title, ne_content_cipher := content, ne_nonce := nonce,
           ne_version := v, ne_is_synced := True, ne_server_id := sid\<rparr>) }
       else Some (\<lambda>n. n) } }"

text \<open>The loop over the results; an exception leaves the rows written so far.\<close>

fun apply_results ::
    "json list \<Rightarrow> NoteEntry list \<Rightarrow> NoteEntry list \<Rightarrow> (client_error + unit) \<times> NoteEntry list" where
  "apply_results [] pending rows = (Inr (), rows)"
| "apply_results (r # rs) [] rows = (Inl RangeError, rows)"
| "apply_results (r # rs) (n # ns) rows =
     (case apply_result r of
        None \<Rightarrow> (Inl TypeError, rows)
      | Some f \<Rightarrow> apply_results rs ns (tbl_update (\<lambda>t. ne_id t = ne_id n) f rows))"

definition sync_data :: "dart_lib \<Rightarrow> NoteEntry list \<Rightarrow> json" where
  "sync_data D pending = JArr (map (note_data D) pending)"

text \<open>The notes part of \<open>syncNotes\<close>: the table afterwards and the exception, if any.\<close>

definition client_sync_notes ::
    "http_lib \<Rightarrow> env \<Rightarrow> app_state \<Rightarrow> dart_lib \<Rightarrow> NoteEntry list \<Rightarrow> world \<Rightarrow>
      ((client_error + unit) \<times> NoteEntry list) \<times> world" where
  "client_sync_notes H E st D rows w =
     (let pending = filter (\<lambda>n. \<not> ne_is_synced n) rows in
      if pending = [] then ((Inr (), rows), w)
      else case dio_post H E st D ''/api/v1/sync/notes'' (sync_data D pending) w of
        (Inl e, w') \<Rightarrow> ((Inl e, rows), w')
      | (Inr (JArr results), w') \<Rightarrow> (apply_results results pending rows, w')
      | (Inr _, w') \<Rightarrow> ((Inl TypeError, rows), w'))"

subsection \<open>Attachments\<close>

text \<open>A row of the client's table \<open>VaultEntries\<close>.\<close>

record LocalVaultEntry =
  le_id :: int
  le_server_id :: "string option"
  le_note_id :: int
  le_file_cipher :: bytes
  le_nonce :: bytes
  le_mime_type :: "string option"
  le_file_size :: int
  le_created_at :: datetime

definition vault_entry_data :: "dart_lib \<Rightarrow> LocalVaultEntry \<Rightarrow> json" where
  "vault_entry_data D entry = JObj
     [(''id'', JStr (case le_server_id entry of None \<Rightarrow> temp_uuid D | Some i \<Rightarrow> i)),
      (''note_id'', JStr zero_uuid), (''user_id'', JStr zero_uuid),
      (''file_cipher'', JStr (base64_encode D (le_file_cipher entry))),
      (''nonce'', JStr (base64_encode D (le_nonce entry))),
      (''mime_type'', (case le_mime_type entry of None \<Rightarrow> JNull | Some m \<Rightarrow> JStr m)),
      (''file_size'', JNum (le_file_size entry)),
      (''created_at'', JStr (to_iso8601 D (le_created_at entry)))]"

text \<open>What is written into the row after the answer; \<open>None\<close> is a \<open>TypeError\<close>.\<close>

definition apply_upload :: "json \<Rightarrow> (LocalVaultEntry \<Rightarrow> LocalVaultEntry) option" where
  "apply_upload response = do {
     success \<leftarrow> dart_index response ''Success'';
     if success \<noteq> JNull then do {
       sid \<leftarrow> as_string success;
       Some (\<lambda>e. e\<lparr>le_server_id := Some sid\<rparr>) }
     else Some (\<lambda>e. e) }"

text \<open>The loop over the attachments without an id of the server; the first failure ends it.\<close>

fun upload_entries ::
    "http_lib \<Rightarrow> env \<Rightarrow> app_state \<Rightarrow> dart_lib \<Rightarrow> LocalVaultEntry list \<Rightarrow> LocalVaultEntry list \<Rightarrow>
      world \<Rightarrow> ((client_error + unit) \<times> LocalVaultEntry list) \<times> world" where
  "upload_entries H E st D [] rows w = ((Inr (), rows), w)"
| "upload_entries H E st D (entry # pending) rows w =
     (case dio_post H E st D ''/api/v1/sync/vault_entries'' (vault_entry_data D entry) w of
        (Inl e, w') \<Rightarrow> ((Inl e, rows), w')
      | (Inr response, w') \<Rightarrow>
          (case apply_upload response of
             None \<Rightarrow> ((Inl TypeError, rows), w')
           | Some f \<Rightarrow>
               upload_entries H E st D pending (tbl_update (\<lambda>t. le_id t = le_id entry) f rows) w'))"

text \<open>
  \<open>syncNotes\<close> as a whole: without pending notes it returns before the attachments; a failed
  exchange of notes ends it before them too.
\<close>

definition client_sync ::
    "http_lib \<Rightarrow> env \<Rightarrow> app_state \<Rightarrow> dart_lib \<Rightarrow> NoteEntry list \<Rightarrow> LocalVaultEntry list \<Rightarrow> world \<Rightarrow>
      ((client_error + unit) \<times> NoteEntry list \<times> LocalVaultEntry list) \<times> world" where
  "client_sync H E st D rows entries w =
     (if list_all ne_is_synced rows then ((Inr (), rows, entries), w)
      else case client_sync_notes H E st D rows w of
        ((Inl e, rows'), w') \<Rightarrow> ((Inl e, rows', entries), w')
      | ((Inr (), rows'), w') \<Rightarrow>
          (case upload_entries H E st D (filter (\<lambda>t. le_server_id t = None) entries) entries w' of
             ((r, entries'), w'') \<Rightarrow> ((r, rows', entries'), w'')))"

end
