(* ===== verification/Client_Facts.thy ===== *)
theory Client_Facts
  imports Flutter_Client Demo_Http
begin

text \<open>
  The Flutter client and the service as one system: what the client's calls lead to on both
  sides.
\<close>

definition demo_dart :: dart_lib where
  "demo_dart = \<lparr>json_encode = print_json, json_decode = json_from_slice demo_http,
     base64_encode = (\<lambda>bs. map (\<lambda>b. char_of (unat b)) bs), to_iso8601 = (\<lambda>t. ''1970-01-01T00:00:00Z''),
     dart_trim = (\<lambda>s. s), dart_length = length, temp_uuid = ''1760000000000'',
     validate_status = (\<lambda>s. 200 \<le> status_number s \<and> status_number s < 300)\<rparr>"

lemma demo_dart_laws: "dart_laws demo_http demo_dart"
  using demo_http_laws by (simp add: dart_laws_def http_laws_def demo_dart_def demo_http_def)

section \<open>The client and the service together\<close>

lemma notes_never_arrive:
  assumes "dart_laws H D"
  shows "client_sync_notes H E st D rows w =
    ((if list_all ne_is_synced rows then Inr () else Inl (BadResponse UNAUTHORIZED), rows), w)"
proof -
  let ?missing = "JsonPayload (error_json ''Missing Authorization header'')"
  have "handle_request E st (parse_request H E (client_request D ''/api/v1/sync/notes'' j)) w =
      (Inr (UNAUTHORIZED, ?missing), w)" for j
    by (simp add: handle_request_def parse_request_def client_request_def public_routes_def
        require_auth_def unauthorized_def act_simps)
  then have "dio_post H E st D ''/api/v1/sync/notes'' j w = (Inl (BadResponse UNAUTHORIZED), w)" for j
    using assms by (simp add: dio_post_def dart_laws_def handle_raw_def and_then_run ok_run)
  moreover have "filter (\<lambda>n. \<not> ne_is_synced n) rows = [] \<longleftrightarrow> list_all ne_is_synced rows"
    by (simp add: filter_empty_conv list_all_iff)
  ultimately show ?thesis by (simp add: client_sync_notes_def)
qed

lemma payloads_undecodable:
  "decode_note E (note_data D n) = None" "decode_vault_entry E (vault_entry_data D e) = None"
  by (simp_all add: decode_note_def note_data_def note_members_def decode_vault_entry_def
      vault_entry_data_def vault_entry_members_def struct_members_def required_member_def
      decode_bytes_def decode_list_def split: bind_splits)

text \<open>
  C24. Nothing the client has to synchronise arrives: with a pending note, the service answers 401,
  because the client sends no token, and the middleware comes before the fallback, too, where the
  path under \<open>/api/v1\<close> that the client calls ends up, as no route serves it; the
  synchronisation ends with that exception, and neither side changes. Without a pending note it
  returns at once, and pending attachments are not even sent. Nor is any payload the client
  builds, wherever it is sent, one that the handlers can read (ciphertexts are Base64 texts,
  not arrays, and a note lacks \<open>format\<close> and \<open>tags\<close>).
\<close>

theorem client_sync_undeliverable:
  assumes "dart_laws H D"
  shows "client_sync H E st D rows entries w =
     ((if list_all ne_is_synced rows then Inr () else Inl (BadResponse UNAUTHORIZED), rows, entries), w) \<and>
   decode_list (decode_note E) (sync_data D (n # ns)) = None \<and>
   decode_vault_entry E (vault_entry_data D e) = None"
  by (simp add: client_sync_def notes_never_arrive [OF assms] sync_data_def decode_list_def
      payloads_undecodable)

definition demo_entry :: NoteEntry where
  "demo_entry = \<lparr>ne_id = 1, ne_server_id = None, ne_title_cipher = [1], ne_content_cipher = [2],
     ne_nonce = [3], ne_version = 1, ne_created_at = 0, ne_updated_at = 0, ne_is_synced = False\<rparr>"

theorem client_sync_undeliverable_witness:
  "client_sync demo_http demo_env demo_state demo_dart [demo_entry] [] demo_world =
     ((Inl (BadResponse UNAUTHORIZED), [demo_entry], []), demo_world)"
  using client_sync_undeliverable [OF demo_dart_laws, of demo_env demo_state "[demo_entry]" "[]" demo_world]
  by (simp add: demo_entry_def)

lemma dart_bytes_encoded: "dart_bytes (encode_bytes bs) = Some bs"
  by (induction bs) (simp_all add: dart_bytes_def encode_bytes_def encode_list_def encode_u8_def)

lemmas answer_simps = apply_result_def encode_result_def encode_note_def dart_index_def
  encode_uuid_def encode_i32_def dart_nullable_string_def dart_int_def dart_bytes_encoded

text \<open>
  What the client makes of each answer of the service, if it gets one: an accepted note is
  marked as synchronised with the id and version of the answer; on a conflict its content is
  overwritten with the server's copy, so the local edit is gone, and marked as synchronised; any
  other answer leaves it as it is, still to be synchronised, and no answer raises an exception.
\<close>

theorem client_applies_answers:
  "apply_result (encode_result (encode_note E) r) = Some (\<lambda>n. case r of
     Success s \<Rightarrow> n\<lparr>ne_is_synced := True, ne_server_id := Some (uuid_to_string E (n_id s)),
       ne_version := sint (n_version s)\<rparr>
   | SyncConflict s \<Rightarrow> n\<lparr>ne_title_cipher := n_title_cipher s, ne_content_cipher := n_content_cipher s,
       ne_nonce := n_nonce s, ne_version := sint (n_version s), ne_is_synced := True,
       ne_server_id := Some (uuid_to_string E (n_id s))\<rparr>
   | SyncError e \<Rightarrow> n)"
  by (cases r) (simp_all add: answer_simps)

lemma client_login_fails:
  assumes "http_laws H" and "dart_laws H D"
    and "length (json_encode D (login_data email password)) \<le> body_limit H"
  shows "\<exists>e. client_login H E st D email password w =
    (Inl e, snd (login E st \<lparr>lr_email = email, lr_password = password\<rparr> w))"
  unfolding client_login_def
  by (rule auth_call_fails [OF assms(2) fun_cong [OF client_login_request [OF assms]]
        handlers_errors_ok(3)]) (rule auth_answers_expire(1))

lemma client_register_fails:
  assumes "http_laws H" and "dart_laws H D"
    and "length (json_encode D (register_data email username password)) \<le> body_limit H"
  shows "\<exists>e. client_register H E st D email username password w =
    (Inl e, snd (register E st \<lparr>rr_email = email, rr_password = password, rr_display_name = None\<rparr> w))"
  unfolding client_register_def
  by (rule auth_call_fails [OF assms(2) fun_cong [OF client_register_request [OF assms]]
        handlers_errors_ok(2)]) (rule auth_answers_expire(2))

text \<open>
  C22. The client never gets a session: with every account, password and state of the service, login
  and registration end with an exception, because the answer has \<open>access_token\<close> and no user where
  the client reads \<open>accessToken\<close> and \<open>user\<close>; the service nevertheless does all that the handler
  does (the account is created, the refresh token is stored), and never learns the
  user name, which the client sends under a name that the request does not have.
\<close>

theorem client_never_gets_session:
  assumes "http_laws H" and "dart_laws H D"
    and "length (json_encode D (login_data email password)) \<le> body_limit H"
    and "length (json_encode D (register_data email username password)) \<le> body_limit H"
  shows "(\<exists>e. client_login H E st D email password w =
      (Inl e, snd (login E st \<lparr>lr_email = email, lr_password = password\<rparr> w))) \<and>
    (\<exists>e. client_register H E st D email username password w =
      (Inl e, snd (register E st \<lparr>rr_email = email, rr_password = password, rr_display_name = None\<rparr> w)))"
  using client_login_fails [OF assms(1,2,3)] client_register_fails [OF assms(1,2,4)] by blast

theorem client_never_gets_session_witness:
  "\<exists>e. client_register demo_http demo_env demo_state demo_dart ''cy@x'' ''cy'' ''secret'' demo_world =
     (Inl e, snd (register demo_env demo_state
       \<lparr>rr_email = ''cy@x'', rr_password = ''secret'', rr_display_name = None\<rparr> demo_world))"
proof -
  have "length (json_encode demo_dart (login_data ''cy@x'' ''secret'')) \<le> body_limit demo_http"
    "length (json_encode demo_dart (register_data ''cy@x'' ''cy'' ''secret'')) \<le> body_limit demo_http"
    by (simp_all add: demo_dart_def demo_http_def login_data_def register_data_def print_str_def)
  from client_never_gets_session [OF demo_http_laws demo_dart_laws this] show ?thesis by blast
qed

end
