(* ===== verification/Client_Notes.thy ===== *)
theory Client_Notes
  imports Client_Crypto Client_Facts
begin

text \<open>
  The notes of the Flutter client (\<open>notes_repository_impl.dart\<close>): reading, saving, editing and
  deleting in the local table, with the encryption of \<open>Client_Crypto\<close>; and what becomes of an
  edit at the next synchronisation.
\<close>

section \<open>The repository\<close>

record NoteModel =
  nm_id :: int
  nm_server_id :: "string option"
  nm_title :: string
  nm_content :: string
  nm_version :: int
  nm_created_at :: datetime
  nm_updated_at :: datetime

text \<open>\<open>utf\<close> is \<open>utf8.decode\<close>, which fails on malformed input. The two ciphertexts take a nonce
  each.\<close>

definition vault_encrypt :: "dart_crypto \<Rightarrow> nat \<Rightarrow> string \<Rightarrow> bytes \<Rightarrow> bytes" where
  "vault_encrypt C t plain_text key = client_encrypt C t key (str_bytes plain_text)"

definition vault_decrypt :: "dart_crypto \<Rightarrow> (bytes \<Rightarrow> string option) \<Rightarrow> bytes \<Rightarrow> bytes \<Rightarrow> string option" where
  "vault_decrypt C utf encrypted_data key =
     (case client_decrypt C encrypted_data key of Inl e \<Rightarrow> None | Inr clear \<Rightarrow> utf clear)"

text \<open>One turn of the loop: an entry that does not decrypt is skipped.\<close>

definition read_entry :: "dart_crypto \<Rightarrow> (bytes \<Rightarrow> string option) \<Rightarrow> bytes \<Rightarrow> NoteEntry \<Rightarrow> NoteModel option" where
  "read_entry C utf key entry = do {
     title \<leftarrow> vault_decrypt C utf (ne_title_cipher entry) key;
     content \<leftarrow> vault_decrypt C utf (ne_content_cipher entry) key;
     Some \<lparr>nm_id = ne_id entry, nm_server_id = ne_server_id entry, nm_title = title,
       nm_content = content, nm_version = ne_version entry, nm_created_at = ne_created_at entry,
       nm_updated_at = ne_updated_at entry\<rparr> }"

text \<open>The notes that are shown, before they are sorted (Dart's \<open>sort\<close> is not stable).\<close>

definition decrypted_notes ::
    "dart_crypto \<Rightarrow> (bytes \<Rightarrow> string option) \<Rightarrow> bytes \<Rightarrow> NoteEntry list \<Rightarrow> NoteModel list" where
  "decrypted_notes C utf key rows = List.map_filter (read_entry C utf key) rows"

text \<open>The table gives a fresh \<open>new_id\<close> and the time \<open>db_now\<close> to the columns that are not set.\<close>

definition client_save_note ::
    "dart_crypto \<Rightarrow> nat \<Rightarrow> int \<Rightarrow> datetime \<Rightarrow> string \<Rightarrow> string \<Rightarrow> bytes \<Rightarrow> NoteEntry list \<Rightarrow> NoteEntry list" where
  "client_save_note C t new_id db_now title content key rows =
     (let title_cipher = vault_encrypt C t title key;
          content_cipher = vault_encrypt C (t + 1) content key
      in rows @ [\<lparr>ne_id = new_id, ne_server_id = None, ne_title_cipher = title_cipher,
           ne_content_cipher = content_cipher, ne_nonce = take 12 title_cipher, ne_version = 1,
           ne_created_at = db_now, ne_updated_at = db_now, ne_is_synced = False\<rparr>])"

text \<open>
  \<open>replace\<close> of \<open>drift\<close> writes the whole row: columns that the companion leaves out get their
  default, a nullable column without one becomes null.
\<close>

definition client_update_note ::
    "dart_crypto \<Rightarrow> nat \<Rightarrow> datetime \<Rightarrow> datetime \<Rightarrow> int \<Rightarrow> string \<Rightarrow> string \<Rightarrow> bytes \<Rightarrow> int option \<Rightarrow>
      NoteEntry list \<Rightarrow> NoteEntry list" where
  "client_update_note C t now db_now nid title content key current_version rows =
     (let title_cipher = vault_encrypt C t title key;
          content_cipher = vault_encrypt C (t + 1) content key
      in tbl_update (\<lambda>r. ne_id r = nid) (\<lambda>r.
           \<lparr>ne_id = nid, ne_server_id = None, ne_title_cipher = title_cipher,
            ne_content_cipher = content_cipher, ne_nonce = take 12 title_cipher,
            ne_version = (case current_version of None \<Rightarrow> 1 | Some v \<Rightarrow> v) + 1,
            ne_created_at = db_now, ne_updated_at = now, ne_is_synced = False\<rparr>) rows)"

definition client_delete_note :: "int \<Rightarrow> NoteEntry list \<Rightarrow> NoteEntry list" where
  "client_delete_note nid rows = filter (\<lambda>r. ne_id r \<noteq> nid) rows"

section \<open>Reading back\<close>

lemma vault_decrypt_encrypt:
  assumes "dart_gcm C" and "length key = 32"
  shows "vault_decrypt C utf (vault_encrypt C t s key) key = utf (str_bytes s)"
  using assms by (simp add: vault_decrypt_def vault_encrypt_def client_decrypt_encrypt)

lemma read_saved:
  assumes "dart_gcm C" and "length key = 32"
    and "utf (str_bytes title) = Some title" and "utf (str_bytes content) = Some content"
  shows "decrypted_notes C utf key (client_save_note C t i d title content key rows) =
    decrypted_notes C utf key rows @
    [\<lparr>nm_id = i, nm_server_id = None, nm_title = title, nm_content = content, nm_version = 1,
      nm_created_at = d, nm_updated_at = d\<rparr>]"
  using assms
  by (simp add: decrypted_notes_def client_save_note_def read_entry_def vault_decrypt_encrypt
      map_filter_def Let_def)

section \<open>What an edit does to the row\<close>

lemma edited_row:
  "find (\<lambda>r. ne_id r = nid) rows = Some r \<Longrightarrow> (\<And>x. ne_id (g x) = nid) \<Longrightarrow>
    find (\<lambda>r. ne_id r = nid) (tbl_update (\<lambda>r. ne_id r = nid) g rows) = Some (g r)"
  by (induction rows) (auto simp: tbl_update_def split: if_splits)

lemma other_rows:
  "(\<And>x. ne_id (g x) = nid) \<Longrightarrow>
    filter (\<lambda>r. ne_id r \<noteq> nid) (tbl_update (\<lambda>r. ne_id r = nid) g rows) = filter (\<lambda>r. ne_id r \<noteq> nid) rows"
  by (induction rows) (auto simp: tbl_update_def)

text \<open>
  C25. An edit keeps the text and loses the note's identity: after \<open>updateNote\<close> the row decrypts
  under the same key to the new title and content, has the version counted up by one, is marked for
  synchronisation, and no other row has changed; but its id on the server is forgotten and its
  time of creation overwritten, because \<open>replace\<close> writes null and the default to the columns
  that the companion leaves out. So what the next synchronisation sends for it carries a
  temporary id in place of the id that the note has on the server, with whatever id it was
  stored there.
\<close>

theorem client_edit_forgets_server:
  assumes "dart_gcm C" and "length key = 32"
    and "utf (str_bytes title) = Some title" and "utf (str_bytes content) = Some content"
    and row: "find (\<lambda>r. ne_id r = nid) rows = Some r"
    and edit: "rows' = client_update_note C t now db_now nid title content key (Some (ne_version r)) rows"
  shows "\<exists>e. find (\<lambda>r. ne_id r = nid) rows' = Some e \<and>
      read_entry C utf key e = Some \<lparr>nm_id = nid, nm_server_id = None, nm_title = title,
        nm_content = content, nm_version = ne_version r + 1, nm_created_at = db_now, nm_updated_at = now\<rparr> \<and>
      \<not> ne_is_synced e \<and>
      filter (\<lambda>r. ne_id r \<noteq> nid) rows' = filter (\<lambda>r. ne_id r \<noteq> nid) rows \<and>
      dart_index (note_data D e) ''id'' = Some (JStr (temp_uuid D)) \<and>
      dart_index (note_data D e) ''version'' = Some (JNum (ne_version r + 1))"
  using assms(1-4) unfolding edit client_update_note_def Let_def
  by (subst edited_row [OF row])
    (auto simp: other_rows read_entry_def vault_decrypt_encrypt note_data_def dart_index_def)

definition demo_synced_entry :: NoteEntry where
  "demo_synced_entry = demo_entry\<lparr>ne_server_id := Some ''n7'', ne_version := 7, ne_is_synced := True\<rparr>"

theorem client_edit_forgets_server_witness:
  "\<exists>e. find (\<lambda>r. ne_id r = 1)
      (client_update_note demo_dart_crypto 3 9 8 1 ''new'' ''text'' (replicate 32 7) (Some 7) [demo_synced_entry]) =
      Some e \<and>
    dart_index (note_data demo_dart demo_synced_entry) ''id'' = Some (JStr ''n7'') \<and>
    dart_index (note_data demo_dart e) ''id'' = Some (JStr ''1760000000000'')"
proof -
  let ?utf = "\<lambda>bs. Some (if bs = str_bytes ''new'' then ''new'' else ''text'')"
  have gcm: "dart_gcm demo_dart_crypto" using demo_same_gcm by (simp add: same_gcm_def)
  have utf: "?utf (str_bytes ''new'') = Some ''new''" "?utf (str_bytes ''text'') = Some ''text''"
    by (simp_all add: str_bytes_def)
  have row: "find (\<lambda>r. ne_id r = 1) [demo_synced_entry] = Some demo_synced_entry"
    by (simp add: demo_synced_entry_def demo_entry_def)
  have sent: "dart_index (note_data demo_dart demo_synced_entry) ''id'' = Some (JStr ''n7'')"
    by (simp add: dart_index_def note_data_def demo_synced_entry_def)
  have "temp_uuid demo_dart = ''1760000000000''" and "ne_version demo_synced_entry = 7"
    by (simp_all add: demo_dart_def demo_synced_entry_def)
  with client_edit_forgets_server [where key = "replicate 32 7" and C = demo_dart_crypto and utf = ?utf and D = demo_dart
      and t = 3 and now = 9 and db_now = 8, OF gcm _ utf row refl] sent
  show ?thesis by auto
qed

end
