(* ===== verification/Client_Vault.thy ===== *)
theory Client_Vault
  imports Client_Notes
begin

text \<open>
  The vault of the Flutter client: its metadata and attachments (\<open>vault_repository_impl.dart\<close>),
  unlocking (\<open>unlock_vault.dart\<close>), and the session that locks itself
  (\<open>vault_auth_provider.dart\<close>).
\<close>

section \<open>Metadata and attachments\<close>


text \<open>\<open>getSingleOrNull\<close> is an error for more than one row; \<open>!\<close> is one for null.\<close>

datatype vault_db_error = TooManyElements | NullCheck




definition save_vault_entry ::
    "dart_crypto \<Rightarrow> nat \<Rightarrow> int \<Rightarrow> datetime \<Rightarrow> int \<Rightarrow> bytes \<Rightarrow> string \<Rightarrow> bytes \<Rightarrow>
      LocalVaultEntry list \<Rightarrow> LocalVaultEntry list" where
  "save_vault_entry C t new_id db_now note_id file_bytes mime_type master_key rows =
     (let cipher_text = client_encrypt C t master_key file_bytes
      in rows @ [\<lparr>le_id = new_id, le_server_id = None, le_note_id = note_id, le_file_cipher = cipher_text,
           le_nonce = take 12 cipher_text, le_mime_type = Some mime_type,
           le_file_size = int (length file_bytes), le_created_at = db_now\<rparr>])"

definition vault_entries_for_note :: "int \<Rightarrow> LocalVaultEntry list \<Rightarrow> LocalVaultEntry list" where
  "vault_entries_for_note note_id rows = filter (\<lambda>t. le_note_id t = note_id) rows"

text \<open>An attachment that was saved is found at its note and opens to the file.\<close>

lemma saved_entry_opens:
  assumes "dart_gcm C" and "length master_key = 32"
  shows "\<exists>e. vault_entries_for_note n (save_vault_entry C t i d n file mime master_key rows) =
      vault_entries_for_note n rows @ [e] \<and>
    client_decrypt C (le_file_cipher e) master_key = Inr file \<and> le_file_size e = int (length file)"
  using assms by (simp add: vault_entries_for_note_def save_vault_entry_def Let_def client_decrypt_encrypt)



section \<open>The session\<close>

text \<open>
  \<open>VaultAuthState\<close>: the master key, the time at which the timer fires, and the duration. Times
  are in seconds.
\<close>

record vault_auth =
  va_master_key :: "bytes option"
  va_lock_timer :: "nat option"
  va_lock_duration :: nat

definition locked_vault :: vault_auth where
  "locked_vault = \<lparr>va_master_key = None, va_lock_timer = None, va_lock_duration = 600\<rparr>"

datatype vault_event = Unlock "vault_db_error + bytes \<times> nat" | Lock | Poke

definition reset_lock_timer :: "nat \<Rightarrow> vault_auth \<Rightarrow> vault_auth" where
  "reset_lock_timer now s = s\<lparr>va_lock_timer := Some (now + va_lock_duration s)\<rparr>"

definition lock_vault :: "vault_auth \<Rightarrow> vault_auth" where
  "lock_vault s = s\<lparr>va_master_key := None, va_lock_timer := None\<rparr>"

text \<open>\<open>unlock\<close> with the result of the use case, \<open>lock\<close>, and \<open>poke\<close>, at a time.\<close>

fun vault_step :: "nat \<Rightarrow> vault_event \<Rightarrow> vault_auth \<Rightarrow> vault_auth" where
  "vault_step now (Unlock (Inr (key, duration))) s =
     reset_lock_timer now (s\<lparr>va_master_key := Some key, va_lock_duration := duration\<rparr>)"
| "vault_step now (Unlock (Inl e)) s = s\<lparr>va_master_key := None\<rparr>"
| "vault_step now Lock s = lock_vault s"
| "vault_step now Poke s = (if va_master_key s \<noteq> None then reset_lock_timer now s else s)"

text \<open>The timer fires once its time has come.\<close>

definition fire_timer :: "nat \<Rightarrow> vault_auth \<Rightarrow> vault_auth" where
  "fire_timer now s =
     (case va_lock_timer s of None \<Rightarrow> s | Some d \<Rightarrow> if d \<le> now then lock_vault s else s)"

fun run_vault :: "(nat \<times> vault_event) list \<Rightarrow> vault_auth \<Rightarrow> vault_auth" where
  "run_vault [] s = s"
| "run_vault ((now, e) # es) s = run_vault es (vault_step now e (fire_timer now s))"

lemma run_vault_snoc: "run_vault (es @ [(now, e)]) s = vault_step now e (fire_timer now (run_vault es s))"
  by (induction es s rule: run_vault.induct) simp_all

fun keeps_open :: "vault_event \<Rightarrow> bool" where
  "keeps_open (Unlock r) = (\<exists>x. r = Inr x)"
| "keeps_open Lock = False"
| "keeps_open Poke = True"

text \<open>While there is a key, the timer is set by some unlocking or poke.\<close>

lemma open_vault_has_timer:
  "va_master_key (run_vault es locked_vault) \<noteq> None \<Longrightarrow>
    \<exists>t e. (t, e) \<in> set es \<and> keeps_open e \<and>
      va_lock_timer (run_vault es locked_vault) = Some (t + va_lock_duration (run_vault es locked_vault))"
proof (induction es rule: rev_induct)
  case Nil
  then show ?case by (simp add: locked_vault_def)
next
  case (snoc x es)
  obtain now e where x: "x = (now, e)" by fastforce
  let ?s = "run_vault es locked_vault" and ?f = "fire_timer now (run_vault es locked_vault)"
  show ?case
  proof (cases "\<exists>r. e = Unlock (Inr r)")
    case True
    then obtain r where "e = Unlock (Inr r)" ..
    then show ?thesis
      by (intro exI [of _ now] exI [of _ e]) (cases r, simp add: x run_vault_snoc reset_lock_timer_def)
  next
    case False
    with snoc.prems have e: "e = Poke" and key: "va_master_key ?f \<noteq> None"
      by (cases "(now, e, ?f)" rule: vault_step.cases;
        simp add: x run_vault_snoc lock_vault_def split: if_splits)+
    then show ?thesis
      by (intro exI [of _ now] exI [of _ e]) (simp add: x run_vault_snoc reset_lock_timer_def)
  qed
qed

text \<open>
  C39. The vault locks itself: after any events, the master key is available at a time \<open>now\<close> only if less
  than the lock duration has passed since an unlocking or a poke, whatever the order of the events.
\<close>

theorem vault_relocks:
  assumes "va_master_key (fire_timer now (run_vault es locked_vault)) \<noteq> None"
  shows "\<exists>t e. (t, e) \<in> set es \<and> keeps_open e \<and> now < t + va_lock_duration (run_vault es locked_vault)"
proof -
  let ?s = "run_vault es locked_vault"
  have key: "va_master_key ?s \<noteq> None"
    using assms by (auto simp: fire_timer_def lock_vault_def split: option.splits if_splits)
  from open_vault_has_timer [OF this] obtain t e where te: "(t, e) \<in> set es" "keeps_open e"
    "va_lock_timer ?s = Some (t + va_lock_duration ?s)" by blast
  moreover have "now < t + va_lock_duration ?s"
    using assms te(3) by (auto simp: fire_timer_def lock_vault_def split: if_splits)
  ultimately show ?thesis by blast
qed

theorem vault_relocks_witness:
  "\<exists>t e. (t, e) \<in> {(0 :: nat, Unlock (Inr ([1], 600))), (400, Poke)} \<and> keeps_open e \<and> 900 < t + 600"
proof -
  let ?es = "[(0, Unlock (Inr ([1], 600))), (400, Poke)]"
  have run: "run_vault ?es locked_vault =
      \<lparr>va_master_key = Some [1], va_lock_timer = Some 1000, va_lock_duration = 600\<rparr>"
    by (simp add: locked_vault_def fire_timer_def reset_lock_timer_def)
  then have "va_master_key (fire_timer 900 (run_vault ?es locked_vault)) \<noteq> None"
    by (simp only: run) (simp add: fire_timer_def)
  from vault_relocks [OF this] show ?thesis by (simp only: run) simp
qed

end
