(* ===== verification/Client_Session.thy ===== *)
theory Client_Session
  imports Client_Facts
begin

text \<open>
  The session of the Flutter client on its device: the stored session
  (\<open>auth_repository_impl.dart\<close>), the state that the interface sees (\<open>auth_provider.dart\<close>), and what
  the pages for login and registration do with it.
\<close>

section \<open>The stored session\<close>

type_synonym prefs = "string \<rightharpoonup> bytes"

definition session_key :: string where
  "session_key = ''nyrex_auth_session''"

definition user_to_json :: "UserModel \<Rightarrow> json" where
  "user_to_json u = JObj
     [(''id'', JStr (um_id u)), (''email'', JStr (um_email u)), (''username'', JStr (um_username u))]"

definition session_to_json :: "AuthSession \<Rightarrow> json" where
  "session_to_json s = JObj
     [(''accessToken'', JStr (as_access_token s)), (''refreshToken'', JStr (as_refresh_token s)),
      (''user'', user_to_json (as_user s))]"

text \<open>A stored text that is not a session, whatever the exception, is removed.\<close>

definition get_session :: "dart_lib \<Rightarrow> prefs \<Rightarrow> AuthSession option \<times> prefs" where
  "get_session D prefs =
     (case prefs session_key of
        None \<Rightarrow> (None, prefs)
      | Some raw \<Rightarrow>
          (case Option.bind (json_decode D raw) session_from_json of
             Some s \<Rightarrow> (Some s, prefs)
           | None \<Rightarrow> (None, prefs(session_key := None))))"

definition put_session :: "dart_lib \<Rightarrow> AuthSession \<Rightarrow> prefs \<Rightarrow> prefs" where
  "put_session D s prefs = prefs(session_key \<mapsto> json_encode D (session_to_json s))"

definition repo_login ::
    "http_lib \<Rightarrow> env \<Rightarrow> app_state \<Rightarrow> dart_lib \<Rightarrow> string \<Rightarrow> string \<Rightarrow> prefs \<Rightarrow> world \<Rightarrow>
      (client_error + AuthSession) \<times> prefs \<times> world" where
  "repo_login H E st D email password prefs w =
     (case client_login H E st D email password w of
        (Inl e, w') \<Rightarrow> (Inl e, prefs, w')
      | (Inr s, w') \<Rightarrow> (Inr s, put_session D s prefs, w'))"

definition repo_register ::
    "http_lib \<Rightarrow> env \<Rightarrow> app_state \<Rightarrow> dart_lib \<Rightarrow> string \<Rightarrow> string \<Rightarrow> string \<Rightarrow> prefs \<Rightarrow> world \<Rightarrow>
      (client_error + AuthSession) \<times> prefs \<times> world" where
  "repo_register H E st D email username password prefs w =
     (case client_register H E st D email username password w of
        (Inl e, w') \<Rightarrow> (Inl e, prefs, w')
      | (Inr s, w') \<Rightarrow> (Inr s, put_session D s prefs, w'))"

definition repo_logout :: "prefs \<Rightarrow> prefs" where
  "repo_logout prefs = prefs(session_key := None)"

section \<open>What the interface sees\<close>

text \<open>
  The value of the provider after each call (while a call runs it is \<open>loading\<close>, which disables
  the buttons of the pages), the page that is shown, and whether a page has reported an error.
\<close>

datatype auth_state = AuthData "AuthSession option" | AuthError client_error

record device =
  dv_prefs :: prefs
  dv_auth :: auth_state
  dv_location :: string
  dv_error_shown :: bool

text \<open>\<open>AsyncValue.guard\<close> turns an exception into a value.\<close>

definition guard :: "client_error + AuthSession \<Rightarrow> auth_state" where
  "guard r = (case r of Inl e \<Rightarrow> AuthError e | Inr s \<Rightarrow> AuthData (Some s))"

definition auth_build :: "dart_lib \<Rightarrow> device \<Rightarrow> device" where
  "auth_build D d = (case get_session D (dv_prefs d) of
     (s, prefs) \<Rightarrow> d\<lparr>dv_prefs := prefs, dv_auth := AuthData s\<rparr>)"

text \<open>The first component is the exception that the caller sees, if any.\<close>

definition auth_login ::
    "http_lib \<Rightarrow> env \<Rightarrow> app_state \<Rightarrow> dart_lib \<Rightarrow> string \<Rightarrow> string \<Rightarrow> device \<Rightarrow> world \<Rightarrow>
      (client_error + unit) \<times> device \<times> world" where
  "auth_login H E st D email password d w =
     (case repo_login H E st D email password (dv_prefs d) w of
        (r, prefs, w') \<Rightarrow> (Inr (), d\<lparr>dv_prefs := prefs, dv_auth := guard r\<rparr>, w'))"

definition auth_register ::
    "http_lib \<Rightarrow> env \<Rightarrow> app_state \<Rightarrow> dart_lib \<Rightarrow> string \<Rightarrow> string \<Rightarrow> string \<Rightarrow> device \<Rightarrow> world \<Rightarrow>
      (client_error + unit) \<times> device \<times> world" where
  "auth_register H E st D email username password d w =
     (case repo_register H E st D email username password (dv_prefs d) w of
        (r, prefs, w') \<Rightarrow> (Inr (), d\<lparr>dv_prefs := prefs, dv_auth := guard r\<rparr>, w'))"

definition auth_logout :: "device \<Rightarrow> device" where
  "auth_logout d = d\<lparr>dv_prefs := repo_logout (dv_prefs d), dv_auth := AuthData None\<rparr>"

text \<open>\<open>try { .. context.go('/home') } catch (e) { .. showSnackBar .. }\<close> on a page that stays mounted.\<close>

definition go_home :: "(client_error + unit) \<times> device \<times> world \<Rightarrow> device \<times> world" where
  "go_home x = (case x of
     (Inr _, d, w) \<Rightarrow> (d\<lparr>dv_location := ''/home''\<rparr>, w)
   | (Inl e, d, w) \<Rightarrow> (d\<lparr>dv_error_shown := True\<rparr>, w))"

definition login_page ::
    "http_lib \<Rightarrow> env \<Rightarrow> app_state \<Rightarrow> dart_lib \<Rightarrow> string \<Rightarrow> string \<Rightarrow> device \<times> world \<Rightarrow> device \<times> world" where
  "login_page H E st D email password = (\<lambda>(d, w).
     if email = [] \<or> password = [] then (d, w)
     else go_home (auth_login H E st D (dart_trim D email) password d w))"

definition register_page ::
    "http_lib \<Rightarrow> env \<Rightarrow> app_state \<Rightarrow> dart_lib \<Rightarrow> string \<Rightarrow> string \<Rightarrow> string \<Rightarrow> device \<times> world \<Rightarrow>
      device \<times> world" where
  "register_page H E st D email username password = (\<lambda>(d, w).
     if email = [] \<or> username = [] \<or> dart_length D password < 8 then (d, w)
     else go_home (auth_register H E st D (dart_trim D email) (dart_trim D username) password d w))"

section \<open>The life of a device\<close>

text \<open>What happens: the application starts, a form is submitted, the user logs out, or somebody
  else calls the service.\<close>

datatype device_event =
  Start
| LoginForm string string
| RegisterForm string string string
| Logout
| Elsewhere request

fun device_step ::
    "http_lib \<Rightarrow> env \<Rightarrow> app_state \<Rightarrow> dart_lib \<Rightarrow> device_event \<Rightarrow> device \<times> world \<Rightarrow> device \<times> world" where
  "device_step H E st D Start (d, w) =
     (auth_build D (d\<lparr>dv_location := ''/home'', dv_error_shown := False\<rparr>), w)"
| "device_step H E st D (LoginForm email password) (d, w) = login_page H E st D email password (d, w)"
| "device_step H E st D (RegisterForm email username password) (d, w) =
     register_page H E st D email username password (d, w)"
| "device_step H E st D Logout (d, w) = (auth_logout d, w)"
| "device_step H E st D (Elsewhere req) (d, w) = (d, snd (handle_request E st req w))"

definition device_run ::
    "http_lib \<Rightarrow> env \<Rightarrow> app_state \<Rightarrow> dart_lib \<Rightarrow> device_event list \<Rightarrow> device \<times> world \<Rightarrow> device \<times> world" where
  "device_run H E st D es x = fold (device_step H E st D) es x"

section \<open>A stored session lasts until the logout\<close>

lemma session_from_to_json: "session_from_json (session_to_json s) = Some s"
  by (simp add: session_from_json_def session_to_json_def user_from_json_def user_to_json_def
      dart_index_def as_string_def)

lemma session_fits: "json_fits 127 (session_to_json s)"
  by (simp add: session_to_json_def user_to_json_def)

lemma get_put_session:
  assumes "dart_laws H D"
  shows "get_session D (put_session D s prefs) = (Some s, put_session D s prefs)"
  using assms session_fits
  by (simp add: get_session_def put_session_def dart_laws_def session_from_to_json)

lemma get_session_logout: "get_session D (repo_logout prefs) = (None, repo_logout prefs)"
  by (simp add: get_session_def repo_logout_def)

text \<open>
  Whatever the service answered: a session that is stored is the one that every later start of the
  application finds; after a logout, and with a text that is not a session, a start finds none,
  and the text is gone; the other preferences stay.
\<close>

theorem stored_session_lasts:
  assumes "dart_laws H D"
  shows "dv_auth (auth_build D (auth_build D (d\<lparr>dv_prefs := put_session D s (dv_prefs d)\<rparr>))) = AuthData (Some s) \<and>
    dv_auth (auth_build D (auth_logout d)) = AuthData None \<and>
    (dv_auth (auth_build D d) = AuthData None \<longrightarrow> dv_prefs (auth_build D d) session_key = None) \<and>
    (\<forall>k. k \<noteq> session_key \<longrightarrow> dv_prefs (auth_build D d) k = dv_prefs d k \<and>
      dv_prefs (auth_logout d) k = dv_prefs d k)"
proof -
  have build: "auth_build D e = e\<lparr>dv_prefs := snd (get_session D (dv_prefs e)),
      dv_auth := AuthData (fst (get_session D (dv_prefs e)))\<rparr>" for e
    by (simp add: auth_build_def split: prod.split)
  have other: "snd (get_session D p) k = p k" if "k \<noteq> session_key" for p k
    using that by (simp add: get_session_def split: option.split)
  have gone: "snd (get_session D p) session_key = None" if "fst (get_session D p) = None" for p
    using that by (auto simp: get_session_def split: option.splits)
  show ?thesis
    using other gone
    by (simp add: build auth_logout_def get_put_session [OF assms] get_session_logout)
      (simp add: repo_logout_def)
qed

section \<open>No device is ever signed in\<close>

lemma oversized_body:
  assumes "http_laws H" and "body_limit H < length (json_encode D data)" and "r \<in> {Login, Register}"
  shows "\<exists>s msg. extract_body H E r (client_request D path data) = RefusedBody s msg \<and> BAD_REQUEST \<le> s"
proof -
  let ?raw = "client_request D path data"
  have none: "read_json H (rq_content_type ?raw) (rq_body ?raw) = None"
    using assms by (simp add: http_laws_def client_request_def)
  obtain s msg where "json_rejection H r (rq_content_type ?raw) (rq_body ?raw) = (s, msg)" by fastforce
  with none assms(3) have "extract_body H E r ?raw = RefusedBody s msg"
    by (auto simp: extract_body_def handler_body_defs extract_json_def as_body_def)
  with extract_body_refusal [OF assms(1), of E r ?raw] show ?thesis by (simp add: refusal_ok_def)
qed

lemma oversized_refused:
  assumes "http_laws H" and "dart_laws H D" and "body_limit H < length (json_encode D data)"
    and path: "map_of public_routes path = Some r" "r \<in> {Login, Register}"
  shows "\<exists>s. dio_post H E st D path data w = (Inl (BadResponse s), w)"
proof -
  let ?raw = "client_request D path data"
  obtain s msg where s: "extract_body H E r ?raw = RefusedBody s msg" "BAD_REQUEST \<le> s"
    using oversized_body [OF assms(1,3) path(2)] by blast
  then have body: "req_body (parse_request H E ?raw) = RefusedBody s msg"
    using path(1) by (simp add: parse_request_def route_at_def) (simp add: client_request_def)
  have "req_path (parse_request H E ?raw) = path" "req_method (parse_request H E ?raw) = POST"
    by (simp_all add: parse_request_def client_request_def)
  with body path have "handle_request E st (parse_request H E ?raw) w = (Inr (s, Text msg), w)"
    by (auto simp: handle_request_def public_handler_def refusal_def ok_run)
  then have "handle_raw H E st ?raw w = (Inr (s, map of_char msg), w)"
    by (simp add: handle_raw_def and_then_run ok_run render_payload_def)
  then show ?thesis using assms(2) s(2) by (simp add: dio_post_def dart_laws_def less_eq_status_code_def)
qed

lemma client_login_never:
  assumes "http_laws H" and "dart_laws H D"
  shows "\<exists>e w'. client_login H E st D email password w = (Inl e, w')"
proof (cases "length (json_encode D (login_data email password)) \<le> body_limit H")
  case True
  then show ?thesis using client_login_fails [OF assms] by blast
next
  case False
  then have "body_limit H < length (json_encode D (login_data email password))" by simp
  from oversized_refused [OF assms this, of "''/auth/login''" Login E st w] show ?thesis
    by (auto simp: client_login_def and_then_run public_routes_def)
qed

lemma client_register_never:
  assumes "http_laws H" and "dart_laws H D"
  shows "\<exists>e w'. client_register H E st D email username password w = (Inl e, w')"
proof (cases "length (json_encode D (register_data email username password)) \<le> body_limit H")
  case True
  then show ?thesis using client_register_fails [OF assms] by blast
next
  case False
  then have "body_limit H < length (json_encode D (register_data email username password))" by simp
  from oversized_refused [OF assms this, of "''/auth/register''" Register E st w] show ?thesis
    by (auto simp: client_register_def and_then_run public_routes_def)
qed

definition signed_out :: "device \<Rightarrow> bool" where
  "signed_out d \<longleftrightarrow> dv_prefs d session_key = None \<and> \<not> dv_error_shown d \<and>
     (case dv_auth d of AuthData s \<Rightarrow> s = None | AuthError e \<Rightarrow> True)"

lemma login_page_outcome:
  assumes "http_laws H" and "dart_laws H D"
  shows "\<exists>e w'. login_page H E st D email password (d, w) =
    (if email = [] \<or> password = [] then (d, w)
     else (d\<lparr>dv_auth := AuthError e, dv_location := ''/home''\<rparr>, w'))"
proof -
  obtain e w' where "client_login H E st D (dart_trim D email) password w = (Inl e, w')"
    using client_login_never [OF assms] by blast
  then show ?thesis
    by (simp add: login_page_def go_home_def auth_login_def repo_login_def guard_def) blast
qed

lemma register_page_outcome:
  assumes "http_laws H" and "dart_laws H D"
  shows "\<exists>e w'. register_page H E st D email username password (d, w) =
    (if email = [] \<or> username = [] \<or> dart_length D password < 8 then (d, w)
     else (d\<lparr>dv_auth := AuthError e, dv_location := ''/home''\<rparr>, w'))"
proof -
  obtain e w' where
    "client_register H E st D (dart_trim D email) (dart_trim D username) password w = (Inl e, w')"
    using client_register_never [OF assms] by blast
  then show ?thesis
    by (simp add: register_page_def go_home_def auth_register_def repo_register_def guard_def) blast
qed

lemma device_step_signed_out:
  assumes "http_laws H" and "dart_laws H D" and "signed_out d"
  shows "signed_out (fst (device_step H E st D ev (d, w)))"
proof (cases ev)
  case (LoginForm email password)
  then show ?thesis
    using login_page_outcome [OF assms(1,2), of E st email password d w] assms(3)
    by (auto simp: signed_out_def split: if_splits)
next
  case (RegisterForm email username password)
  then show ?thesis
    using register_page_outcome [OF assms(1,2), of E st email username password d w] assms(3)
    by (auto simp: signed_out_def split: if_splits)
qed (use assms(3) in \<open>simp_all add: signed_out_def auth_build_def get_session_def auth_logout_def
    repo_logout_def\<close>)

lemma device_run_signed_out:
  assumes "http_laws H" and "dart_laws H D" and "signed_out (fst x)"
  shows "signed_out (fst (device_run H E st D es x))"
  using assms(3)
proof (induction es arbitrary: x)
  case (Cons ev es)
  with device_step_signed_out [OF assms(1,2), of "fst x" E st ev "snd x"] show ?case
    by (simp add: device_run_def)
qed (simp add: device_run_def)

text \<open>
  C23. No device is ever signed in, and no page ever says so: whatever happens on a device without a
  stored session (starts of the application, submitted forms, logouts) and at the service
  meanwhile, no session is stored or shown afterwards, and no page has reported an error. Yet each
  form that passes its validation leads to the home page, with the exception as the state of
  the provider: \<open>AsyncValue.guard\<close> has caught it, so the \<open>catch\<close> of the page never runs.
\<close>

theorem device_never_signed_in:
  assumes "http_laws H" and "dart_laws H D"
    and "dv_prefs d session_key = None" and "dv_auth d = AuthData None" and "\<not> dv_error_shown d"
    and run: "device_run H E st D es (d, w) = (d', w')"
    and forms: "email \<noteq> []" "username \<noteq> []" "password \<noteq> []" "8 \<le> dart_length D password"
  shows "dv_prefs d' session_key = None \<and> (\<forall>s. dv_auth d' \<noteq> AuthData (Some s)) \<and> \<not> dv_error_shown d' \<and>
    (\<exists>e v. login_page H E st D email password (d', w') =
      (d'\<lparr>dv_auth := AuthError e, dv_location := ''/home''\<rparr>, v)) \<and>
    (\<exists>e v. register_page H E st D email username password (d', w') =
      (d'\<lparr>dv_auth := AuthError e, dv_location := ''/home''\<rparr>, v))"
proof -
  have "signed_out d'"
    using device_run_signed_out [OF assms(1,2), of "(d, w)" E st es] assms(3-5) run
    by (simp add: signed_out_def)
  then show ?thesis
    using login_page_outcome [OF assms(1,2), of E st email password d' w']
      register_page_outcome [OF assms(1,2), of E st email username password d' w'] forms
    by (auto simp: signed_out_def)
qed

definition fresh_device :: device where
  "fresh_device = \<lparr>dv_prefs = Map.empty, dv_auth = AuthData None, dv_location = ''/home'',
     dv_error_shown = False\<rparr>"

theorem device_never_signed_in_witness:
  "\<exists>e d' v. login_page demo_http demo_env demo_state demo_dart ''ann@x'' ''pw345678''
      (device_run demo_http demo_env demo_state demo_dart
        [Start, RegisterForm ''cy@x'' ''cy'' ''secret78'', Start] (fresh_device, demo_world)) =
      (d'\<lparr>dv_auth := AuthError e, dv_location := ''/home''\<rparr>, v) \<and> dv_prefs d' session_key = None"
proof -
  obtain d' w' where run: "device_run demo_http demo_env demo_state demo_dart
      [Start, RegisterForm ''cy@x'' ''cy'' ''secret78'', Start] (fresh_device, demo_world) = (d', w')"
    by fastforce
  have fresh: "dv_prefs fresh_device session_key = None" "dv_auth fresh_device = AuthData None"
    "\<not> dv_error_shown fresh_device" by (simp_all add: fresh_device_def)
  have forms: "''ann@x'' \<noteq> []" "''ann'' \<noteq> []" "''pw345678'' \<noteq> []" "8 \<le> dart_length demo_dart ''pw345678''"
    by (simp_all add: demo_dart_def)
  from device_never_signed_in [OF demo_http_laws demo_dart_laws fresh run forms] show ?thesis
    unfolding run by blast
qed

end
