(* ===== verification/Unit_Tests.thy ===== *)
theory Unit_Tests
  imports Crypto Api_Utils
begin

text \<open>
  The unit tests in the \<open>tests\<close> modules of \<open>crates/crypto\<close> and \<open>services/api\<close>, each as the truth
  value of its assertions, and the conditions on the libraries under which it passes.
\<close>

text \<open>\<open>let x = r.unwrap(); ..\<close> in a test: an error is a panic, the test fails.\<close>

definition unwrap_in :: "'e + 'a \<Rightarrow> ('a \<Rightarrow> bool) \<Rightarrow> bool" where
  "unwrap_in r f = (case r of Inl e \<Rightarrow> False | Inr x \<Rightarrow> f x)"

lemma unwrap_in_simps [simp]: "unwrap_in (Inl e) f = False" "unwrap_in (Inr x) f = f x"
  by (simp_all add: unwrap_in_def)

section \<open>Encryption\<close>

definition test_round_trip_encryption :: "'c aead \<Rightarrow> nat \<Rightarrow> bool" where
  "test_round_trip_encryption A t =
     unwrap_in (vault_key_new ((replicate 32 0)[0 := 42])) (\<lambda>key.
       let secret_message = str_bytes ''Top secret vault password'' in
       unwrap_in (encrypt_entry A t secret_message key) (\<lambda>(ciphertext, nonce).
         ciphertext \<noteq> secret_message \<and>
         unwrap_in (decrypt_entry A ciphertext nonce key) (\<lambda>decrypted. decrypted = secret_message)))"

definition test_decryption_fails_with_bad_key :: "'c aead \<Rightarrow> nat \<Rightarrow> bool" where
  "test_decryption_fails_with_bad_key A t =
     unwrap_in (vault_key_new (replicate 32 1)) (\<lambda>key1.
     unwrap_in (vault_key_new (replicate 32 2)) (\<lambda>key2.
       let message = str_bytes ''sensitive info'' in
       unwrap_in (encrypt_entry A t message key1) (\<lambda>(ciphertext, nonce).
         case decrypt_entry A ciphertext nonce key2 of Inl e \<Rightarrow> True | Inr p \<Rightarrow> False)))"

lemma encrypt_entry_runs:
  "new_from_slice A (as_bytes key) = Some c \<Longrightarrow> cipher_encrypt A c (generate_nonce A t) m = Some x \<Longrightarrow>
    encrypt_entry A t m key = Inr (x, generate_nonce A t)"
  by (simp add: encrypt_entry_def)

lemma decrypt_entry_runs:
  "aead_laws A \<Longrightarrow> new_from_slice A (as_bytes key) = Some c \<Longrightarrow>
    decrypt_entry A x (generate_nonce A t) key =
      (case cipher_decrypt A c (generate_nonce A t) x of None \<Rightarrow> Inl DecryptionError | Some p \<Rightarrow> Inr p)"
  by (simp add: decrypt_entry_def aead_nonce_iter aead_nonce_length)

text \<open>
  The round trip test passes whenever the encryption of its message succeeds (the library
  refuses only messages of more than 64 GiB).
\<close>

lemma test_round_trip_encryption_passes:
  assumes laws: "aead_laws A"
    and total: "\<And>c n. cipher_encrypt A c n (str_bytes ''Top secret vault password'') \<noteq> None"
  shows "test_round_trip_encryption A t"
proof -
  define key where "key = \<lparr>vk_inner = (replicate 32 0)[0 := 42] :: bytes\<rparr>"
  have new: "vault_key_new ((replicate 32 0)[0 := 42]) = Inr key"
    by (simp add: vault_key_new_def key_def)
  have "length (as_bytes key) = 32" by (simp add: as_bytes_def key_def)
  then obtain c where c: "new_from_slice A (as_bytes key) = Some c"
    using laws unfolding aead_laws_def by fastforce
  define m where "m = str_bytes ''Top secret vault password''"
  obtain x where x: "cipher_encrypt A c (generate_nonce A t) m = Some x"
    using total unfolding m_def by blast
  with laws have "length x = length m + 16" by (simp add: aead_length)
  then have "x \<noteq> m" by auto
  with encrypt_entry_runs [OF c x] decrypt_entry_runs [OF laws c, of x t] aead_decryptI [OF laws x]
  show ?thesis
    unfolding test_round_trip_encryption_def new m_def [symmetric] by simp
qed

text \<open>
  The other test needs more than the documented laws: it passes exactly when the ciphertext is
  not also a genuine one of some other message under the second key.
\<close>

lemma test_bad_key_passes_iff:
  assumes laws: "aead_laws A"
    and c: "new_from_slice A (replicate 32 1) = Some c1" "new_from_slice A (replicate 32 2) = Some c2"
    and x: "cipher_encrypt A c1 (generate_nonce A t) (str_bytes ''sensitive info'') = Some x"
  shows "test_decryption_fails_with_bad_key A t \<longleftrightarrow>
    (\<nexists>p. cipher_encrypt A c2 (generate_nonce A t) p = Some x)"
proof -
  define k1 k2 where keys: "k1 = \<lparr>vk_inner = replicate 32 1 :: bytes\<rparr>"
    "k2 = \<lparr>vk_inner = replicate 32 2 :: bytes\<rparr>"
  have new: "vault_key_new (replicate 32 1) = Inr k1" "vault_key_new (replicate 32 2) = Inr k2"
    by (simp_all add: vault_key_new_def keys)
  have c': "new_from_slice A (as_bytes k1) = Some c1" "new_from_slice A (as_bytes k2) = Some c2"
    using c by (simp_all add: as_bytes_def keys)
  have "test_decryption_fails_with_bad_key A t \<longleftrightarrow> cipher_decrypt A c2 (generate_nonce A t) x = None"
    unfolding test_decryption_fails_with_bad_key_def new Let_def unwrap_in_simps
      encrypt_entry_runs [OF c'(1) x] prod.case decrypt_entry_runs [OF laws c'(2)]
    by (cases "cipher_decrypt A c2 (generate_nonce A t) x") simp_all
  also have "\<dots> \<longleftrightarrow> (\<nexists>p. cipher_encrypt A c2 (generate_nonce A t) p = Some x)"
    by (metis aead_decryptI [OF laws] aead_decryptD [OF laws] option.exhaust option.distinct(1))
  finally show ?thesis .
qed

section \<open>Key derivation\<close>

definition test_derive_key_determinism :: "'p kdf \<Rightarrow> bool" where
  "test_derive_key_determinism K =
     (let pw = ''hunter2''; salt = ''c29tZXNhbHRzdHJpbmcxMj'' in
      unwrap_in (derive_key K pw salt) (\<lambda>key1.
      unwrap_in (derive_key K pw salt) (\<lambda>key2.
        as_bytes key1 = as_bytes key2 \<and>
        unwrap_in (derive_key K ''hunter3'' salt) (\<lambda>key3. as_bytes key1 \<noteq> as_bytes key3))))"

text \<open>It passes exactly when both passwords derive keys and the keys differ.\<close>

lemma test_derive_key_determinism_iff:
  "test_derive_key_determinism K \<longleftrightarrow>
     (\<exists>k k'. derive_key K ''hunter2'' ''c29tZXNhbHRzdHJpbmcxMj'' = Inr k \<and>
       derive_key K ''hunter3'' ''c29tZXNhbHRzdHJpbmcxMj'' = Inr k' \<and> k \<noteq> k')"
proof -
  have "as_bytes k = as_bytes k' \<longleftrightarrow> k = k'" for k k' :: VaultKey
    by (cases k; cases k') (simp add: as_bytes_def)
  then show ?thesis
    by (auto simp: test_derive_key_determinism_def unwrap_in_def Let_def split: sum.splits)
qed

lemma test_derive_key_determinism_demo: "test_derive_key_determinism demo_kdf"
  by (simp add: test_derive_key_determinism_iff derive_key_def demo_kdf_def vault_key_new_def
      str_bytes_def numeral_nat)

section \<open>Passwords and tokens\<close>

definition test_password_hash_and_verify :: "env \<Rightarrow> world \<Rightarrow> bool" where
  "test_password_hash_and_verify E w =
     (let password = ''my-secure-password-2026'' in
      unwrap_in (fst (hash_password E password w)) (\<lambda>h.
        unwrap_in (verify_password E password h) (\<lambda>b. b) \<and>
        unwrap_in (verify_password E ''wrong-password'' h) (\<lambda>b. \<not> b)))"

definition test_token_hashing_deterministic :: "env \<Rightarrow> bool" where
  "test_token_hashing_deterministic E =
     (let token = ''some-refresh-token''; hash1 = hash_token E token; hash2 = hash_token E token in
      hash1 = hash2 \<and> (let different = hash_token E ''different-token'' in hash1 \<noteq> different))"

lemma test_password_hash_and_verify_passes:
  assumes "argon2_laws E" and "fst (hash_password E ''my-secure-password-2026'' w) = Inr h"
  shows "test_password_hash_and_verify E w"
proof -
  from assms(2) obtain salt where "argon2_hash E ''my-secure-password-2026'' salt = Inr h"
    by (auto simp: hash_password_def and_then_run tick_run lift_result_run)
  from verify_own_password [OF assms(1) this] assms(2) show ?thesis
    by (simp add: test_password_hash_and_verify_def)
qed

lemma test_token_hashing_passes:
  "inj (blake3_hex E) \<Longrightarrow> test_token_hashing_deterministic E"
  by (simp add: test_token_hashing_deterministic_def hash_token_def inj_eq Let_def)

section \<open>Access tokens\<close>

text \<open>
  \<open>priv_key\<close> and \<open>pub_key\<close> are the decoded keys of the test, \<open>t\<close> the tick of its first clock; the
  system time at the decoding is that of a later tick.
\<close>

definition test_jwt_round_trip :: "env \<Rightarrow> bytes \<Rightarrow> bytes \<Rightarrow> nat \<Rightarrow> bool" where
  "test_jwt_round_trip E priv_key pub_key t =
     (let claims = \<lparr>tc_sub = ''user-123'', tc_iat = word_of_int (timestamp (utc_now E t)),
            tc_exp = word_of_int (timestamp (utc_now E (t + 1) + duration_seconds 3600))\<rparr> in
      unwrap_in (encode_token E claims priv_key) (\<lambda>token.
        token \<noteq> [] \<and>
        unwrap_in (decode_token E (timestamp (utc_now E (t + 2))) token pub_key) (\<lambda>decoded.
          tc_sub decoded = ''user-123'')))"

text \<open>It passes when the token is not empty and the test takes less than an hour.\<close>

lemma test_jwt_round_trip_passes:
  assumes "jwt_laws E st"
    and enc: "\<And>c. \<exists>tok. encode_token E c (jwt_private_key st) = Inr tok \<and> tok \<noteq> []"
    and "0 \<le> utc_now E (t + 1)" and "timestamp (utc_now E (t + 1)) < 2 ^ 62"
    and "timestamp (utc_now E (t + 2)) \<le> timestamp (utc_now E (t + 1)) + 3660"
  shows "test_jwt_round_trip E (jwt_private_key st) (jwt_public_key st) t"
proof -
  let ?e = "timestamp (utc_now E (t + 1) + duration_seconds 3600)"
  define claims where "claims = \<lparr>tc_sub = ''user-123'', tc_iat = word_of_int (timestamp (utc_now E t)),
    tc_exp = word_of_int ?e\<rparr>"
  have "0 \<le> timestamp (utc_now E (t + 1))" using assms(3) by (simp add: timestamp_def)
  then have "uint (word_of_int ?e :: usize) = ?e"
    using assms(4) by (intro word_of_int_inverse [OF refl]) simp_all
  then have exp: "timestamp (utc_now E (t + 2)) \<le> uint (tc_exp claims) + 60"
    using assms(5) by (simp add: claims_def)
  obtain tok where tok: "encode_token E claims (jwt_private_key st) = Inr tok" "tok \<noteq> []"
    using enc by blast
  with assms(1) exp have "decode_token E (timestamp (utc_now E (t + 2))) tok (jwt_public_key st) = Inr claims"
    by (auto simp: jwt_laws_def)
  with tok show ?thesis
    by (simp add: test_jwt_round_trip_def claims_def [symmetric])
      (simp add: claims_def)
qed

end
