(* ===== verification/Search.thy ===== *)
theory Search
  imports Prelude
begin

text \<open>
  \<open>crates/search/src/lib.rs\<close>: the sum of two \<open>u64\<close>. With overflow checks (debug builds) an
  overflow panics, here \<open>None\<close>; without them it wraps.
\<close>

definition add :: "bool \<Rightarrow> u64 \<Rightarrow> u64 \<Rightarrow> u64 option" where
  "add checks left right =
     (if checks \<and> 2 ^ 64 \<le> uint left + uint right then None else Some (left + right))"

text \<open>The test of the crate.\<close>

definition it_works :: "bool \<Rightarrow> bool" where
  "it_works checks = (add checks 2 2 = Some 4)"

lemma it_works_passes: "it_works checks"
  by (simp add: it_works_def add_def)

text \<open>The sum is exact when it fits, and otherwise it panics or is short of it by 2 to the 64.\<close>

lemma add_exact:
  "add checks x y = (if uint x + uint y < 2 ^ 64 then Some (word_of_int (uint x + uint y))
     else if checks then None else Some (word_of_int (uint x + uint y - 2 ^ 64)))"
proof -
  have "x + y = word_of_int (uint x + uint y)" by simp
  moreover have "word_of_int (uint x + uint y - 2 ^ 64) = x + y"
    by (simp add: wi_hom_sub [symmetric] word_of_int_2p_len)
  ultimately show ?thesis by (auto simp: add_def not_less)
qed

end
