(* ===== verification/Migrations.thy ===== *)
theory Migrations
  imports Prelude
begin

text \<open>
  The schema migrations of \<open>crates/store/migrations\<close>: the DDL statements they consist of, with
  PostgreSQL's meaning of \<open>IF NOT EXISTS\<close>, of adding a column without a default and of an index
  on a missing column, and the run of the migrations in order, each in a transaction.
\<close>

section \<open>Schemas and DDL\<close>

record column =
  col_name :: string
  col_type :: string
  col_not_null :: bool
  col_default :: "string option"

record schema =
  sc_tables :: "(string \<times> column list) list"
  sc_indexes :: "string list"

datatype alter_action = DropColumnIfExists string | AddColumn column

datatype ddl =
  CreateTableIfNotExists string "column list"
| AlterTable string "alter_action list"
| CreateIndexIfNotExists string string "string list"

abbreviation required :: "string \<Rightarrow> string \<Rightarrow> column" where
  "required n t \<equiv> \<lparr>col_name = n, col_type = t, col_not_null = True, col_default = None\<rparr>"

abbreviation nullable :: "string \<Rightarrow> string \<Rightarrow> column" where
  "nullable n t \<equiv> \<lparr>col_name = n, col_type = t, col_not_null = False, col_default = None\<rparr>"

abbreviation defaulted :: "string \<Rightarrow> string \<Rightarrow> string \<Rightarrow> column" where
  "defaulted n t d \<equiv> \<lparr>col_name = n, col_type = t, col_not_null = True, col_default = Some d\<rparr>"

definition has_column :: "string \<Rightarrow> column list \<Rightarrow> bool" where
  "has_column c cols \<longleftrightarrow> c \<in> col_name ` set cols"

text \<open>\<open>rows t\<close> says whether table \<open>t\<close> has rows, for which a new required column has no value.\<close>

fun alter_columns :: "bool \<Rightarrow> alter_action list \<Rightarrow> column list \<Rightarrow> string + column list" where
  "alter_columns nonempty [] cols = Inr cols"
| "alter_columns nonempty (DropColumnIfExists c # as) cols =
     alter_columns nonempty as (filter (\<lambda>x. col_name x \<noteq> c) cols)"
| "alter_columns nonempty (AddColumn c # as) cols =
     (if has_column (col_name c) cols then Inl (''column already exists: '' @ col_name c)
      else if nonempty \<and> col_not_null c \<and> col_default c = None
      then Inl (''column contains null values: '' @ col_name c)
      else alter_columns nonempty as (cols @ [c]))"

fun execute_ddl :: "(string \<Rightarrow> bool) \<Rightarrow> ddl \<Rightarrow> schema \<Rightarrow> string + schema" where
  "execute_ddl rows (CreateTableIfNotExists t cols) s =
     (case map_of (sc_tables s) t of
        Some _ \<Rightarrow> Inr s
      | None \<Rightarrow> Inr (s\<lparr>sc_tables := sc_tables s @ [(t, cols)]\<rparr>))"
| "execute_ddl rows (AlterTable t as) s =
     (case map_of (sc_tables s) t of
        None \<Rightarrow> Inl (''relation does not exist: '' @ t)
      | Some cols \<Rightarrow> (case alter_columns (rows t) as cols of
          Inl e \<Rightarrow> Inl e
        | Inr cols' \<Rightarrow> Inr (s\<lparr>sc_tables :=
            map (\<lambda>(n, cs). if n = t then (n, cols') else (n, cs)) (sc_tables s)\<rparr>)))"
| "execute_ddl rows (CreateIndexIfNotExists i t cs) s =
     (if i \<in> set (sc_indexes s) then Inr s
      else case map_of (sc_tables s) t of
        None \<Rightarrow> Inl (''relation does not exist: '' @ t)
      | Some cols \<Rightarrow>
         (case find (\<lambda>c. \<not> has_column c cols) cs of
            Some c \<Rightarrow> Inl (''column does not exist: '' @ c)
          | None \<Rightarrow> Inr (s\<lparr>sc_indexes := sc_indexes s @ [i]\<rparr>)))"

fun execute_all :: "(string \<Rightarrow> bool) \<Rightarrow> ddl list \<Rightarrow> schema \<Rightarrow> string + schema" where
  "execute_all rows [] s = Inr s"
| "execute_all rows (d # ds) s =
     (case execute_ddl rows d s of Inl e \<Rightarrow> Inl e | Inr s' \<Rightarrow> execute_all rows ds s')"

text \<open>Migrations are applied in order; the first that fails is rolled back and ends the run.\<close>

fun migrate :: "(string \<Rightarrow> bool) \<Rightarrow> ddl list list \<Rightarrow> schema \<Rightarrow> schema \<times> string option" where
  "migrate rows [] s = (s, None)"
| "migrate rows (m # ms) s =
     (case execute_all rows m s of Inl e \<Rightarrow> (s, Some e) | Inr s' \<Rightarrow> migrate rows ms s')"

section \<open>The three migrations\<close>

definition create_users :: ddl where
  "create_users = CreateTableIfNotExists ''users''
     [required ''id'' ''UUID'', required ''email'' ''VARCHAR(255)'', nullable ''display_name'' ''VARCHAR(255)'',
      nullable ''sso_provider'' ''VARCHAR(50)'', nullable ''sso_sub'' ''VARCHAR(255)'',
      defaulted ''created_at'' ''TIMESTAMPTZ'' ''NOW()'', defaulted ''updated_at'' ''TIMESTAMPTZ'' ''NOW()'']"

definition create_notes :: ddl where
  "create_notes = CreateTableIfNotExists ''notes''
     [required ''id'' ''UUID'', required ''user_id'' ''UUID'', required ''title'' ''TEXT'',
      required ''content'' ''TEXT'', defaulted ''format'' ''VARCHAR(20)'' ''markdown'',
      defaulted ''tags'' ''TEXT[]'' ''{}'', defaulted ''is_encrypted'' ''BOOLEAN'' ''false'',
      defaulted ''created_at'' ''TIMESTAMPTZ'' ''NOW()'', defaulted ''updated_at'' ''TIMESTAMPTZ'' ''NOW()'',
      nullable ''deleted_at'' ''TIMESTAMPTZ'']"

definition create_vault_entries_old :: ddl where
  "create_vault_entries_old = CreateTableIfNotExists ''vault_entries''
     [required ''id'' ''UUID'', required ''user_id'' ''UUID'', required ''ciphertext'' ''BYTEA'',
      required ''nonce'' ''BYTEA'', nullable ''hint'' ''TEXT'',
      defaulted ''created_at'' ''TIMESTAMPTZ'' ''NOW()'', defaulted ''updated_at'' ''TIMESTAMPTZ'' ''NOW()'',
      nullable ''deleted_at'' ''TIMESTAMPTZ'']"

definition create_sync_events :: "ddl list" where
  "create_sync_events =
     [CreateTableIfNotExists ''sync_events''
       [defaulted ''id'' ''BIGSERIAL'' ''nextval'', required ''user_id'' ''UUID'',
        required ''entity_type'' ''VARCHAR(50)'', required ''entity_id'' ''UUID'',
        required ''operation'' ''VARCHAR(20)'', nullable ''payload'' ''JSONB'',
        required ''client_id'' ''VARCHAR(100)'', defaulted ''created_at'' ''TIMESTAMPTZ'' ''NOW()''],
      CreateIndexIfNotExists ''idx_sync_events_user_id_id'' ''sync_events'' [''user_id'', ''id'']]"

definition migration_1 :: "ddl list" where
  "migration_1 = [create_users, create_notes, create_vault_entries_old] @ create_sync_events"

definition migration_2 :: "ddl list" where
  "migration_2 =
     [AlterTable ''users'' [AddColumn (defaulted ''password_hash'' ''TEXT'' '''')],
      CreateTableIfNotExists ''refresh_tokens''
       [required ''id'' ''UUID'', required ''user_id'' ''UUID'', required ''token_hash'' ''TEXT'',
        required ''expires_at'' ''TIMESTAMPTZ'', defaulted ''revoked'' ''BOOLEAN'' ''false'',
        defaulted ''created_at'' ''TIMESTAMPTZ'' ''NOW()''],
      CreateIndexIfNotExists ''idx_refresh_tokens_user_id'' ''refresh_tokens'' [''user_id''],
      CreateIndexIfNotExists ''idx_refresh_tokens_token_hash'' ''refresh_tokens'' [''token_hash'']]"

definition migration_3 :: "ddl list" where
  "migration_3 =
     [AlterTable ''notes'' [DropColumnIfExists ''title'', DropColumnIfExists ''content'',
        AddColumn (required ''title_cipher'' ''BYTEA''), AddColumn (required ''content_cipher'' ''BYTEA''),
        AddColumn (required ''nonce'' ''BYTEA''), AddColumn (defaulted ''version'' ''INT'' ''1'')],
      CreateTableIfNotExists ''vault_entries''
       [required ''id'' ''UUID'', required ''note_id'' ''UUID'', required ''user_id'' ''UUID'',
        required ''file_cipher'' ''BYTEA'', required ''nonce'' ''BYTEA'', nullable ''mime_type'' ''VARCHAR(100)'',
        required ''file_size'' ''INT'', defaulted ''created_at'' ''TIMESTAMPTZ'' ''NOW()''],
      CreateIndexIfNotExists ''idx_vault_entries_note_id'' ''vault_entries'' [''note_id'']]"

definition empty_schema :: schema where
  "empty_schema = \<lparr>sc_tables = [], sc_indexes = []\<rparr>"

abbreviation no_rows :: "string \<Rightarrow> bool" where
  "no_rows \<equiv> (\<lambda>t. False)"

lemmas migration_defs = migration_1_def migration_2_def migration_3_def create_users_def
  create_notes_def create_vault_entries_old_def create_sync_events_def

section \<open>The third migration cannot be applied\<close>

text \<open>The table has no such column, or does not exist.\<close>

definition lacks :: "string \<Rightarrow> string \<Rightarrow> schema \<Rightarrow> bool" where
  "lacks t c s \<longleftrightarrow> (case map_of (sc_tables s) t of None \<Rightarrow> True | Some cols \<Rightarrow> \<not> has_column c cols)"

text \<open>Statements that cannot give the table the column.\<close>

fun never_adds :: "string \<Rightarrow> string \<Rightarrow> ddl \<Rightarrow> bool" where
  "never_adds t c (CreateTableIfNotExists t' cols) = (t' = t \<longrightarrow> \<not> has_column c cols)"
| "never_adds t c (AlterTable t' as) = (t' = t \<longrightarrow> list_all (\<lambda>a. case a of AddColumn k \<Rightarrow> col_name k \<noteq> c | _ \<Rightarrow> True) as)"
| "never_adds t c (CreateIndexIfNotExists i t' cs) = True"

lemma alter_keeps_lacking:
  "alter_columns b as cols = Inr cols' \<Longrightarrow> \<not> has_column c cols \<Longrightarrow>
    list_all (\<lambda>a. case a of AddColumn k \<Rightarrow> col_name k \<noteq> c | _ \<Rightarrow> True) as \<Longrightarrow> \<not> has_column c cols'"
  by (induction b as cols arbitrary: cols' rule: alter_columns.induct)
    (auto simp: has_column_def split: if_splits)

lemma map_of_altered:
  "map_of (map (\<lambda>(n, cs). if n = t then (n, cols') else (n, cs)) ts) k =
    (if k = t then map_option (\<lambda>_. cols') (map_of ts t) else map_of ts k)"
  by (induction ts) auto

lemma execute_keeps_lacking:
  "execute_ddl rows d s = Inr s' \<Longrightarrow> never_adds t c d \<Longrightarrow> lacks t c s \<Longrightarrow> lacks t c s'"
  by (cases "(rows, d, s)" rule: execute_ddl.cases)
    (auto simp: lacks_def map_of_altered dest: alter_keeps_lacking split: option.splits sum.splits if_splits)

text \<open>An index exists only when a statement has made it.\<close>

lemma execute_indexes:
  "execute_ddl rows d s = Inr s' \<Longrightarrow> i \<in> set (sc_indexes s') \<Longrightarrow>
    i \<in> set (sc_indexes s) \<or> (\<exists>t cs. d = CreateIndexIfNotExists i t cs)"
  by (cases "(rows, d, s)" rule: execute_ddl.cases) (auto split: option.splits sum.splits if_splits)

definition blocked :: "schema \<Rightarrow> bool" where
  "blocked s \<longleftrightarrow> lacks ''vault_entries'' ''note_id'' s \<and> ''idx_vault_entries_note_id'' \<notin> set (sc_indexes s)"

definition keeps_blocked :: "ddl \<Rightarrow> bool" where
  "keeps_blocked d \<longleftrightarrow> never_adds ''vault_entries'' ''note_id'' d \<and> never_adds ''notes'' ''title_cipher'' d \<and>
     (\<forall>t cs. d \<noteq> CreateIndexIfNotExists ''idx_vault_entries_note_id'' t cs)"

lemma execute_all_keeps_blocked:
  "execute_all rows ds s = Inr s' \<Longrightarrow> list_all keeps_blocked ds \<Longrightarrow> blocked s \<Longrightarrow>
    blocked s' \<and> (lacks ''notes'' ''title_cipher'' s \<longrightarrow> lacks ''notes'' ''title_cipher'' s')"
proof (induction rows ds s rule: execute_all.induct)
  case (1 rows s)
  then show ?case by simp
next
  case (2 rows d ds s)
  then obtain s1 where s1: "execute_ddl rows d s = Inr s1" "execute_all rows ds s1 = Inr s'"
    by (auto split: sum.splits)
  from 2(3) have d: "keeps_blocked d" and ds: "list_all keeps_blocked ds" by simp_all
  have "blocked s1" "lacks ''notes'' ''title_cipher'' s \<longrightarrow> lacks ''notes'' ''title_cipher'' s1"
    using execute_keeps_lacking [OF s1(1)] execute_indexes [OF s1(1)] d 2(4)
    unfolding blocked_def keeps_blocked_def by blast+
  with 2(1) [OF s1 ds] show ?case by blast
qed

lemma first_migrations: "list_all keeps_blocked migration_1" "list_all keeps_blocked migration_2"
  by (simp_all add: migration_defs keeps_blocked_def has_column_def)

text \<open>No statement drops a table.\<close>

definition has_table :: "string \<Rightarrow> schema \<Rightarrow> bool" where
  "has_table t s \<longleftrightarrow> t \<in> fst ` set (sc_tables s)"

lemma execute_keeps_tables: "execute_ddl rows d s = Inr s' \<Longrightarrow> has_table t s \<Longrightarrow> has_table t s'"
  by (cases "(rows, d, s)" rule: execute_ddl.cases)
    (force simp: has_table_def split: option.splits sum.splits if_splits)+

lemma execute_all_keeps_tables: "execute_all rows ds s = Inr s' \<Longrightarrow> has_table t s \<Longrightarrow> has_table t s'"
  by (induction rows ds s rule: execute_all.induct)
    (auto dest: execute_keeps_tables split: sum.splits)

lemma execute_creates: "execute_ddl rows (CreateTableIfNotExists t cols) s = Inr s' \<Longrightarrow> has_table t s'"
  by (auto simp: has_table_def split: option.splits dest: map_of_SomeD intro: rev_image_eqI)

lemma execute_all_member:
  "execute_all rows ds s = Inr s' \<Longrightarrow> d \<in> set ds \<Longrightarrow>
    \<exists>s1 s2 es. execute_ddl rows d s1 = Inr s2 \<and> execute_all rows es s2 = Inr s'"
  by (induction rows ds s rule: execute_all.induct) (auto split: sum.splits)

lemma migration_1_creates: "execute_all rows migration_1 s = Inr s' \<Longrightarrow> has_table ''vault_entries'' s'"
  using execute_all_member [of rows migration_1 s s' create_vault_entries_old]
  by (auto simp: migration_1_def create_vault_entries_old_def dest: execute_creates execute_all_keeps_tables
      simp del: execute_ddl.simps)

lemma migration_3_rejected:
  assumes "blocked s" and "has_table ''vault_entries'' s"
  shows "\<exists>e. execute_all rows migration_3 s = Inl e"
proof (rule ccontr)
  assume "\<nexists>e. execute_all rows migration_3 s = Inl e"
  then obtain s3 where run: "execute_all rows migration_3 s = Inr s3" by (metis sum.exhaust)
  define alter where "alter = hd migration_3"
  obtain s1 where s1: "execute_ddl rows alter s = Inr s1" and rest: "execute_all rows (tl migration_3) s1 = Inr s3"
    using run by (auto simp: alter_def migration_3_def split: sum.splits)
  have vault: "has_table ''vault_entries'' s1" by (rule execute_keeps_tables [OF s1 assms(2)])
  have lacking: "lacks ''vault_entries'' ''note_id'' s1"
    by (rule execute_keeps_lacking [OF s1]) (use assms(1) in \<open>simp_all add: blocked_def alter_def migration_3_def\<close>)
  have no_index: "''idx_vault_entries_note_id'' \<notin> set (sc_indexes s1)"
    using execute_indexes [OF s1] assms(1) by (auto simp: blocked_def alter_def migration_3_def)
  obtain cols where "map_of (sc_tables s1) ''vault_entries'' = Some cols"
    using vault by (metis has_table_def map_of_eq_None_iff not_None_eq)
  with rest lacking no_index show False
    by (simp add: migration_3_def lacks_def)
qed

text \<open>
  C37. The migrations are never completed: from every schema in which the first migration has not yet
  run or has left its \<open>vault_entries\<close> (any table of that name without \<open>note_id\<close>), and
  whatever rows the tables have, the run ends with an error, and with the schema that the first
  two migrations alone leave. The reason is that the third migration's own definition of
  \<open>vault_entries\<close> is skipped, so its index names a column that is not there and the whole
  migration is rolled back; in particular, \<open>notes\<close> never gets its encrypted columns.
\<close>

theorem migrations_never_complete:
  assumes "blocked s"
  shows "\<exists>e. migrate rows [migration_1, migration_2, migration_3] s =
      (fst (migrate rows [migration_1, migration_2] s), Some e) \<and>
    (lacks ''notes'' ''title_cipher'' s \<longrightarrow>
      lacks ''notes'' ''title_cipher'' (fst (migrate rows [migration_1, migration_2] s)))"
proof (cases "execute_all rows migration_1 s")
  case (Inl e)
  then show ?thesis by simp
next
  case first: (Inr s1)
  note one = execute_all_keeps_blocked [OF first first_migrations(1) assms]
  show ?thesis
  proof (cases "execute_all rows migration_2 s1")
    case (Inl e)
    with first one show ?thesis by simp
  next
    case second: (Inr s2)
    note two = execute_all_keeps_blocked [OF second first_migrations(2)]
    obtain e where "execute_all rows migration_3 s2 = Inl e"
      using migration_3_rejected one two execute_all_keeps_tables [OF second migration_1_creates [OF first]]
      by blast
    with first second one two show ?thesis by auto
  qed
qed

theorem migrations_never_complete_witness:
  "\<exists>e. snd (migrate no_rows [migration_1, migration_2, migration_3] empty_schema) = Some e"
proof -
  have "blocked empty_schema" by (simp add: blocked_def lacks_def empty_schema_def)
  from migrations_never_complete [OF this, of no_rows] show ?thesis by fastforce
qed

text \<open>With \<open>vault_entries\<close> left to the third migration, all three would succeed.\<close>

lemma repaired_migrations:
  "\<exists>s. migrate no_rows [[create_users, create_notes] @ create_sync_events, migration_2, migration_3]
      empty_schema = (s, None) \<and> \<not> lacks ''notes'' ''title_cipher'' s"
  by (simp add: migration_defs empty_schema_def has_column_def lacks_def)

end
