(* ===== verification/Spec2Isabelle.thy ===== *)
theory Spec2Isabelle
  imports Crypto Note_Store_Facts Sessions Token_Rotation Sync_Notes Sync_Refinement Sync_Gaps
    Service_Facts Races Concurrency_Facts Disjoint_Sync Disjoint_Sessions Linearization
    Version_Bounds Devices Wire_Facts Client_Vault Client_Session Unit_Tests Search Migrations
begin

text \<open>
  A verification development for the Rust part of Nyrex, an end-to-end encrypted notes service:
  the crates under \<open>crates/\<close> and the HTTP API \<open>services/api\<close>.

  The program. Clients encrypt their notes (\<open>crates/crypto\<close>) and synchronise the ciphertexts with
  the API (\<open>services/api/src/main.rs\<close>). Public routes register users, log them in and rotate
  refresh tokens (\<open>routes/auth.rs\<close>); protected routes pass the middleware
  \<open>middleware/auth.rs\<close>, which turns a bearer token into a session, and then synchronise notes
  and store attachments (\<open>routes/sync.rs\<close>), where \<open>crates/sync\<close> decides each update by a version
  counter. State lives only in PostgreSQL, reached through \<open>crates/store\<close>.

  Theories and the code they model.
    \<^item> \<open>Prelude\<close>: integers and strings of Rust; \<open>Result\<close> as a sum; an \<open>async fn .. -> Result\<close> as a
      function from a world to a result and the next world, with combinators for \<open>?\<close>,
      \<open>map_err\<close>, \<open>ok_or_else\<close> and \<open>match\<close>; effect relations (locale \<open>effect_relation\<close>), closed
      under the combinators; keyed tables.
    \<^item> \<open>Core_Models\<close>, \<open>Core_Traits\<close>: \<open>crates/core\<close>, structs as records, \<open>CoreError\<close> with its texts,
      the traits as records of functions.
    \<^item> \<open>Json_Codec\<close>, \<open>Json_Models\<close>: the JSON encoding that \<open>serde\<close> derives for the structs and for
      \<open>SyncResult\<close>; the locale \<open>json_codec\<close> states what an encoder and a decoder promise each
      other and is interpreted for every struct.
    \<^item> \<open>Sync_Engine\<close>: \<open>crates/sync\<close>; \<open>None\<close> as the result of \<open>reconcile_note\<close> is the overflow panic.
    \<^item> \<open>Crypto\<close>: \<open>crates/crypto\<close>, over records of the functions it calls of \<open>aes-gcm\<close> and \<open>argon2\<close>.
    \<^item> \<open>Search\<close>: \<open>crates/search\<close>. \<open>Unit_Tests\<close>: the unit tests of the crates as truth values.
    \<^item> \<open>Database\<close>: the four tables the statements touch, their constraints (\<open>db_inv\<close>), column
      coercions, and the execution of one statement in an environment \<open>env\<close> of clocks, random
      sources, faults and library functions. Every use of the environment advances a tick. A
      statement commits by itself; a fault prevents it or loses its acknowledgement. The locale
      \<open>db_relation\<close> lifts a relation that all statements respect to whole handlers.
    \<^item> \<open>Pg_Notes\<close>, \<open>Pg_Auth\<close>: \<open>crates/store/src/pg\<close>, each method with the meaning of its SQL. The
      locales \<open>note_store\<close> (the trait \<open>NoteStore\<close> with a contract) and \<open>token_store\<close> are
      interpreted on them.
    \<^item> \<open>Api_Utils\<close>, \<open>Middleware\<close>, \<open>Routes_Auth\<close>, \<open>Routes_Sync\<close>, \<open>Api_Main\<close>: the modules
      \<open>auth_utils\<close>, \<open>jwt\<close>, \<open>middleware/auth\<close>, \<open>routes/auth\<close>, \<open>routes/sync\<close> and \<open>main\<close> of
      \<open>services/api\<close>, whole handlers with all early returns. \<open>handle_request\<close> is the router: the
      middleware is a layer around the protected routes and around their fallback, which
      \<open>merge\<close> makes the fallback of the service, so unknown paths pass it too. \<open>serve\<close> runs a
      sequence of requests and \<open>reachable\<close> are the states sequences lead to.
    \<^item> \<open>Wire\<close>: requests and responses as bytes: the \<open>Json\<close> parameter of each handler, and the encoding
      of what the handlers return (\<open>handle_raw\<close>). What axum's extractor reads, and the status
      and text with which it refuses a body, are parameters (\<open>http_lib\<close>).
    \<^item> \<open>Scheduling\<close>: processes on a shared world, their interleavings and schedules; the locale
      \<open>process\<close> states that steps run out, and gives termination and liveness.
    \<^item> \<open>Races\<close>, \<open>Concurrent_Api\<close>: requests in progress that perform one statement at a time, first
      batches and refreshes (\<open>task\<close>), then every request from arrival to its end (\<open>activity\<close>): a
      response, or a panic, after which the connection is closed without one.
    \<^item> \<open>Flutter_Client\<close>: the calls of the Dart client under \<open>apps/flutter/lib\<close> to the API.
      \<open>Client_Crypto\<close>, \<open>Client_Notes\<close>, \<open>Client_Vault\<close>: its encryption, its local notes, and its
      vault with the session that locks itself. \<open>Client_Session\<close>: the session of the API that it
      stores, and what its forms for login and registration do.
    \<^item> \<open>Migrations\<close>: the DDL of \<open>crates/store/migrations\<close>.
    \<^item> \<open>Demo_Env\<close>, \<open>Demo_Http\<close>: a concrete environment and database, and a concrete JSON printer and
      parser, in which the witnesses are evaluated.

  What the lemmas show. \<open>Sync_Engine\<close>: every branch of the lock, and the counter at its width.
  \<open>Sync_Notes\<close>, \<open>Sync_Refinement\<close>, \<open>Sync_Gaps\<close>: what each answer of a batch means for the
  database; that a healthy batch implements an abstract compare-and-swap store with a bounded
  counter, in builds with and without overflow checks; and where the statements break the lock or
  the separation of users, and how a batch ends in a panic. \<open>Note_Store_Facts\<close>: round trip,
  deletion, listing, separation of users. \<open>Sessions\<close>, \<open>Token_Rotation\<close>: what a token is worth
  and for how long, that only the password opens an account, that e-mails are unique, and how
  refresh tokens are spent. \<open>Service_Facts\<close>: access control and the invariants of the whole API.
  \<open>Concurrency_Facts\<close>: that requests run alone are the handlers, what survives every
  interleaving, and that one e-mail gets one account. \<open>Disjoint_Sync\<close>: that nothing happens to a
  note that no request names, and that a batch whose notes nobody else writes runs as if alone
  and, as long as it keeps getting turns, ends with exactly the verdicts of the
  compare-and-swap store. \<open>Disjoint_Sessions\<close>: that a refresh token which nobody else
  presents is accepted, that the password decides a login, and that a login is answered
  after three turns; 500 only when a turn of the request itself went wrong. \<open>Linearization\<close>:
  that a lock on each note, from the version check to the upsert, would make all concurrent
  batches linearizable, those that end in a panic with the notes before it. \<open>Races\<close>: two races
  that do harm. \<open>Version_Bounds\<close>: what the version counter counts, and when it wraps or ends a
  batch. \<open>Devices\<close>: how a text gets from one device to another. \<open>Wire_Facts\<close>: JSON round trips, the
  synchronisation over HTTP, and that answers have the type of their route. \<open>Client_Facts\<close>: that
  the client and the service do not fit together, and what the client makes of answers.
  \<open>Client_Notes\<close>: that notes are read back as they were saved, and that an edit forgets the
  server's note. \<open>Crypto\<close>: round trip and authenticity.
  \<open>Client_Crypto\<close>: how the formats of the client and of \<open>crates/crypto\<close> convert.
  \<open>Client_Vault\<close>: that no password is refused, and that the vault locks itself.
  \<open>Client_Session\<close>: that a stored session lasts until the logout, and that the service never
  gives a device one to store, of which its pages show nothing. \<open>Migrations\<close>:
  that the third migration cannot be applied after the first, to whatever schema and rows.

  Conventions and bounds. Third-party code (\<open>aes-gcm\<close>, \<open>argon2\<close>, \<open>blake3\<close>, \<open>jsonwebtoken\<close>, \<open>uuid\<close>,
  \<open>chrono\<close>, \<open>serde_json\<close>, \<open>axum\<close>, the clocks, the random source, and \<open>dio\<close>, \<open>drift\<close> and
  \<open>cryptography\<close> on the client) is a parameter; what is assumed of it are the predicates
  \<open>aead_laws\<close>, \<open>kdf_laws\<close>, \<open>argon2_laws\<close>, \<open>jwt_laws\<close>, \<open>uuid_laws\<close>, \<open>chrono_laws\<close>, \<open>http_laws\<close>,
  \<open>dart_laws\<close>, \<open>dart_gcm\<close>, \<open>same_gcm\<close>, \<open>same_argon2\<close>, each shown to hold of a concrete instance. (\<open>argon2_laws\<close> neglects collisions of the hash.) Identifiers are 128-bit words,
  the note version is a 32-bit word, the times of a token 64-bit words; database times are
  integers in microseconds. The only fuel is the step bound of \<open>run_alone\<close>: one step for each
  statement of a request, one for its arrival and one to end a batch, \<open>2 n + 2\<close> for a batch of
  \<open>n\<close> notes and at most four otherwise; \<open>request_alone_is_handler\<close> shows that it is enough. The
  parser of \<open>Demo_Http\<close> takes the length of its input as fuel. The tables have the columns that the
  statements of the API name; the migrations as they are do not create them (\<open>Migrations\<close>).

  Not modelled: the HTTP server, its listener and the connection pool with its limit of five
  connections (a statement that waits for a connection is one whose turn comes later, one that
  times out is a fault; the theorems on termination and liveness count the turns that a request
  gets, and do not say that a pool or a row lock gives it one), the wiping of key memory, the
  traits \<open>VaultStore\<close> and \<open>SyncEngine\<close> beyond their signatures (nothing implements or calls them),
  and of the Flutter client the rest of its user interface: layout, themes, texts, navigation by
  the user, and pages without logic. The lines of the crates that no definition translates are
  imports, module declarations, attributes and comments.
\<close>

end
